theory Spec2Isabelle
  imports Complex_Main
begin

section \<open>JavaScript strings, errors and result envelopes\<close>

text \<open>
  Strings are \<^typ>\<open>string\<close>; a character stands for one code unit of the JavaScript
  string, so the model covers the texts whose code units are all below 256 (ASCII and
  Latin-1). The source cuts and compares strings only at ASCII characters (tab, newline,
  space, hex digits, fixed tags and suffixes).
\<close>

definition nl :: char where
  "nl = CHR 0x0A"

definition tab :: char where
  "tab = CHR 0x09"

text \<open>\<^verbatim>\<open>s.startsWith(p)\<close>, \<^verbatim>\<open>s.endsWith(p)\<close> and \<^verbatim>\<open>s.includes(p)\<close>.\<close>

definition startsWith :: "string \<Rightarrow> string \<Rightarrow> bool" where
  "startsWith s p = (take (length p) s = p)"

definition endsWith :: "string \<Rightarrow> string \<Rightarrow> bool" where
  "endsWith s p = startsWith (rev s) (rev p)"

fun includesStr :: "string \<Rightarrow> string \<Rightarrow> bool" where
  "includesStr [] p = (p = [])"
| "includesStr (c # s) p = (startsWith (c # s) p \<or> includesStr s p)"

text \<open>\<^verbatim>\<open>s.split(c)\<close> for a one-character separator: never the empty list.\<close>

fun splitOn :: "char \<Rightarrow> string \<Rightarrow> string list" where
  "splitOn c [] = [[]]"
| "splitOn c (x # xs) =
     (if x = c then [] # splitOn c xs
      else (case splitOn c xs of
              [] \<Rightarrow> [[x]]
            | y # ys \<Rightarrow> (x # y) # ys))"

text \<open>\<^verbatim>\<open>xs.join(sep)\<close> on an array of strings.\<close>

fun joinWith :: "string \<Rightarrow> string list \<Rightarrow> string" where
  "joinWith sep [] = []"
| "joinWith sep [x] = x"
| "joinWith sep (x # y # ys) = x @ sep @ joinWith sep (y # ys)"

text \<open>\<^verbatim>\<open>xs[i]\<close>: \<open>None\<close> is JavaScript's \<^verbatim>\<open>undefined\<close> for an index out of range.\<close>

fun nth_opt :: "'a list \<Rightarrow> nat \<Rightarrow> 'a option" where
  "nth_opt [] n = None"
| "nth_opt (x # xs) 0 = Some x"
| "nth_opt (x # xs) (Suc n) = nth_opt xs n"

text \<open>\<^verbatim>\<open>s.padEnd(n)\<close>: spaces are appended up to length \<open>n\<close>.\<close>

definition padEnd :: "string \<Rightarrow> nat \<Rightarrow> string" where
  "padEnd s n = s @ replicate (n - length s) CHR '' ''"

text \<open>
  A template literal prints \<^verbatim>\<open>undefined\<close> for a missing string.
\<close>

definition tpl :: "string option \<Rightarrow> string" where
  "tpl v = (case v of None \<Rightarrow> ''undefined'' | Some s \<Rightarrow> s)"

text \<open>
  Thrown values. Every throw in the source and in the runtime calls it makes is an
  \<^verbatim>\<open>Error\<close> object; the catch block reads only its \<^verbatim>\<open>message\<close>.
\<close>

datatype jsError = Error string | TypeError string | RangeError string

fun errMsg :: "jsError \<Rightarrow> string" where
  "errMsg (Error m) = m"
| "errMsg (TypeError m) = m"
| "errMsg (RangeError m) = m"

text \<open>
  Reading property \<open>p\<close> of \<^verbatim>\<open>undefined\<close> or \<^verbatim>\<open>null\<close> throws a TypeError; the
  wording of the message is V8's.
\<close>

definition cannotRead :: "string \<Rightarrow> string \<Rightarrow> jsError" where
  "cannotRead base p =
     TypeError (''Cannot read properties of '' @ base @ '' (reading '' @ [CHR 0x27] @ p @ [CHR 0x27] @ '')'')"

text \<open>
  The result envelope: \<^verbatim>\<open>{content: [{type: "text", text}], isError?}\<close>. An
  envelope without the \<^verbatim>\<open>isError\<close> key is an Ok envelope.
\<close>

datatype contentBlock = Text string

record envelope =
  content :: "contentBlock list"
  isError :: bool

definition okText :: "string \<Rightarrow> envelope" where
  "okText t = \<lparr>content = [Text t], isError = False\<rparr>"

definition failText :: "string \<Rightarrow> envelope" where
  "failText t = \<lparr>content = [Text t], isError = True\<rparr>"

text \<open>Sequencing of statements that may throw.\<close>

definition bindE :: "jsError + 'a \<Rightarrow> ('a \<Rightarrow> jsError + 'b) \<Rightarrow> jsError + 'b" where
  "bindE r f = (case r of Inl e \<Rightarrow> Inl e | Inr v \<Rightarrow> f v)"

text \<open>\<^verbatim>\<open>xs.map(f)\<close> where \<open>f\<close> may throw: the first throw ends the map.\<close>

fun mapE :: "('a \<Rightarrow> jsError + 'b) \<Rightarrow> 'a list \<Rightarrow> jsError + 'b list" where
  "mapE f [] = Inr []"
| "mapE f (x # xs) =
     (case f x of
        Inl e \<Rightarrow> Inl e
      | Inr y \<Rightarrow> (case mapE f xs of Inl e \<Rightarrow> Inl e | Inr ys \<Rightarrow> Inr (y # ys)))"

text \<open>
  An awaited computation either settles, by returning or by throwing, or never does:
  \<open>None\<close> is a promise that stays pending for ever, after which nothing of the handler
  runs and no envelope is written.
\<close>

type_synonym 'a async = "(jsError + 'a) option"

definition bindA :: "'a async \<Rightarrow> ('a \<Rightarrow> 'b async) \<Rightarrow> 'b async" where
  "bindA r f = (case r of None \<Rightarrow> None | Some (Inl e) \<Rightarrow> Some (Inl e) | Some (Inr v) \<Rightarrow> f v)"

definition returnA :: "'a \<Rightarrow> 'a async" where
  "returnA v = Some (Inr v)"

text \<open>The UTF-8 length of a text: two bytes for a code unit from 128 on.\<close>

definition byteLength :: "string \<Rightarrow> nat" where
  "byteLength s = length s + length (filter digit7 s)"

section \<open>JavaScript numbers and values\<close>

text \<open>
  A number is an IEEE 754 binary64 value: NaN, an infinity, or a finite double, kept
  as the rational it denotes (the sign of zero is not kept; it never shows in a result).
  \<open>roundDouble\<close> is the rounding of an exact result to the nearest double, ties to even:
  \<open>bits n\<close> is the length of \<open>n\<close> in binary, \<open>ilog2 q\<close> the exponent \<open>e\<close> with
  \<open>2\<^sup>e \<le> q < 2\<^sup>e\<^sup>+\<^sup>1\<close> for a positive \<open>q\<close>, and the spacing of the doubles around \<open>q\<close> is
  \<open>2\<^sup>e\<^sup>-\<^sup>5\<^sup>2\<close>, or \<open>2\<^sup>-\<^sup>1\<^sup>0\<^sup>7\<^sup>4\<close> among the subnormal ones.
\<close>

datatype jsNumber = NaN | PosInfinity | NegInfinity | Finite rat

function bits :: "int \<Rightarrow> nat" where
  "bits n = (if n \<le> 0 then 0 else Suc (bits (n div 2)))"
  by pat_completeness auto
termination
  by (relation "measure nat") auto

declare bits.simps [simp del]

definition pow2 :: "int \<Rightarrow> rat" where
  "pow2 k = (if 0 \<le> k then 2 ^ nat k else 1 / 2 ^ nat (- k))"

definition ilog2 :: "rat \<Rightarrow> int" where
  "ilog2 q =
     (let k = int (bits (fst (quotient_of q))) - int (bits (snd (quotient_of q)))
      in if pow2 k \<le> q then k else k - 1)"

definition roundHalfEven :: "rat \<Rightarrow> int" where
  "roundHalfEven x =
     (let f = \<lfloor>x\<rfloor>; d = x - of_int f
      in if d < 1 / 2 then f
         else if 1 / 2 < d then f + 1
         else if even f then f else f + 1)"

definition roundDouble :: "rat \<Rightarrow> jsNumber" where
  "roundDouble q =
     (if q = 0 then Finite 0
      else let m = \<bar>q\<bar>;
               ulp = pow2 (max (ilog2 m) (- 1022) - 52);
               r = of_int (roundHalfEven (m / ulp)) * ulp
           in if pow2 1024 \<le> r then (if 0 < q then PosInfinity else NegInfinity)
              else Finite (if 0 < q then r else - r))"

text \<open>\<^verbatim>\<open>a + b\<close> and \<^verbatim>\<open>a / n\<close> for a length \<open>n\<close>.\<close>

fun jsAdd :: "jsNumber \<Rightarrow> jsNumber \<Rightarrow> jsNumber" where
  "jsAdd (Finite x) (Finite y) = roundDouble (x + y)"
| "jsAdd NaN _ = NaN"
| "jsAdd _ NaN = NaN"
| "jsAdd PosInfinity NegInfinity = NaN"
| "jsAdd NegInfinity PosInfinity = NaN"
| "jsAdd PosInfinity _ = PosInfinity"
| "jsAdd NegInfinity _ = NegInfinity"
| "jsAdd _ PosInfinity = PosInfinity"
| "jsAdd _ NegInfinity = NegInfinity"

fun jsDivide :: "jsNumber \<Rightarrow> nat \<Rightarrow> jsNumber" where
  "jsDivide NaN n = NaN"
| "jsDivide PosInfinity n = PosInfinity"
| "jsDivide NegInfinity n = NegInfinity"
| "jsDivide (Finite x) n =
     (if n = 0 then (if x = 0 then NaN else if 0 < x then PosInfinity else NegInfinity)
      else roundDouble (x / of_nat n))"

text \<open>
  Values are what \<^verbatim>\<open>JSON.parse\<close> gives, plus \<^verbatim>\<open>undefined\<close> (a missing key) and the
  functions that a property read can find on a prototype, each with the text that the
  engine prints for it. A number may be infinite (\<^verbatim>\<open>1e999\<close>). An object lists its
  members as the JSON text wrote them.
\<close>

datatype jsval =
    JUndefined
  | JNull
  | JBool bool
  | JNum jsNumber
  | JStr string
  | JArr "jsval list"
  | JObj "(string \<times> jsval) list"
  | JFunction string

section \<open>The blame parser of git-server.js\<close>

text \<open>
  \<^verbatim>\<open>line.match(/^[0-9a-f]{40}/)\<close>: the line starts with forty lower-case hex digits.
\<close>

definition isHex :: "char \<Rightarrow> bool" where
  "isHex c = (c \<in> set ''0123456789abcdef'')"

definition isCommitLine :: "string \<Rightarrow> bool" where
  "isCommitLine l = (40 \<le> length l \<and> list_all isHex (take 40 l))"

text \<open>
  The date of a record is \<^verbatim>\<open>new Date(parseInt(s) * 1000).toLocaleDateString()\<close>.
  Both library functions depend on the runtime (locale, time zone) and are parameters:
  \<open>parseInt\<close> gives \<open>None\<close> for NaN, and \<open>toLocaleDateString\<close> takes the epoch
  milliseconds (\<open>None\<close> for the invalid date).
\<close>

record runtime =
  parseInt :: "string \<Rightarrow> int option"
  toLocaleDateString :: "int option \<Rightarrow> string"

definition dateOf :: "runtime \<Rightarrow> string \<Rightarrow> string" where
  "dateOf R s = toLocaleDateString R (map_option (\<lambda>timestamp. timestamp * 1000) (parseInt R s))"

text \<open>
  \<^verbatim>\<open>currentCommitInfo\<close> is an object whose keys may be missing; \<open>None\<close> is a missing
  key (or the value \<^verbatim>\<open>undefined\<close>, for \<^verbatim>\<open>parts[2]\<close>). A blame line is the spread
  of the current object plus \<^verbatim>\<open>content\<close>.
\<close>

record commitInfo =
  hash :: "string option"
  line :: "string option"
  author :: "string option"
  date :: "string option"

record blameLine = commitInfo +
  content :: string

definition emptyInfo :: commitInfo where
  "emptyInfo = \<lparr>hash = None, line = None, author = None, date = None\<rparr>"

definition withContent :: "commitInfo \<Rightarrow> string \<Rightarrow> blameLine" where
  "withContent c s =
     \<lparr>hash = hash c, line = line c, author = author c, date = date c, content = s\<rparr>"

definition newInfo :: "string \<Rightarrow> commitInfo" where
  "newInfo l =
     (let parts = splitOn CHR '' '' l
      in \<lparr>hash = Some (take 8 (hd parts)), line = nth_opt parts 2, author = None, date = None\<rparr>)"

text \<open>
  One pass of the body of \<^verbatim>\<open>for (const line of lines)\<close> over the two mutable
  variables \<^verbatim>\<open>currentCommitInfo\<close> and \<^verbatim>\<open>blameLines\<close>; the loop folds it over the lines.
\<close>

definition blameStep :: "runtime \<Rightarrow> commitInfo \<times> blameLine list \<Rightarrow> string \<Rightarrow> commitInfo \<times> blameLine list" where
  "blameStep R st l =
     (case st of (currentCommitInfo, blameLines) \<Rightarrow>
        if isCommitLine l then
          (newInfo l, blameLines)
        else if startsWith l ''author '' then
          (currentCommitInfo\<lparr>author := Some (drop 7 l)\<rparr>, blameLines)
        else if startsWith l ''author-time '' then
          (currentCommitInfo\<lparr>date := Some (dateOf R (drop 12 l))\<rparr>, blameLines)
        else if startsWith l [tab] then
          (currentCommitInfo, blameLines @ [withContent currentCommitInfo (drop 1 l)])
        else
          (currentCommitInfo, blameLines))"

definition blameLoop :: "runtime \<Rightarrow> string list \<Rightarrow> blameLine list" where
  "blameLoop R lines = snd (foldl (blameStep R) (emptyInfo, []) lines)"

definition parseBlame :: "runtime \<Rightarrow> string \<Rightarrow> blameLine list" where
  "parseBlame R stdout = blameLoop R (splitOn nl stdout)"

text \<open>
  The table body. \<^verbatim>\<open>l.line.padEnd\<close>, \<^verbatim>\<open>l.author.padEnd\<close> and \<^verbatim>\<open>l.date.padEnd\<close> throw
  when the field is undefined; \<^verbatim>\<open>${l.hash}\<close> prints \<^verbatim>\<open>undefined\<close>.
\<close>

fun escapePipes :: "string \<Rightarrow> string" where
  "escapePipes [] = []"
| "escapePipes (c # s) =
     (if c = CHR ''|'' then CHR 0x5C # CHR ''|'' # escapePipes s else c # escapePipes s)"

definition blameRow :: "blameLine \<Rightarrow> jsError + string" where
  "blameRow l =
     (case line l of
        None \<Rightarrow> Inl (cannotRead ''undefined'' ''padEnd'')
      | Some lineNo \<Rightarrow>
          (case author l of
             None \<Rightarrow> Inl (cannotRead ''undefined'' ''padEnd'')
           | Some a \<Rightarrow>
               (case date l of
                  None \<Rightarrow> Inl (cannotRead ''undefined'' ''padEnd'')
                | Some d \<Rightarrow>
                    Inr (''| '' @ padEnd lineNo 4 @ '' | '' @ tpl (hash l) @ '' | ''
                         @ take 13 (padEnd a 13) @ '' | '' @ padEnd d 10 @ '' | `''
                         @ escapePipes (content l) @ ''` |''))))"

definition blameHeader :: string where
  "blameHeader = ''| Line | Commit   | Author        | Date       | Content                  |''"

definition blameSeparator :: string where
  "blameSeparator = ''|------|----------|---------------|------------|--------------------------|''"

definition renderBlame :: "string option \<Rightarrow> blameLine list \<Rightarrow> jsError + envelope" where
  "renderBlame file blameLines =
     bindE (mapE blameRow blameLines) (\<lambda>rows.
       Inr (okText (''Blame for '' @ tpl file @ '':'' @ [nl, nl] @ blameHeader @ [nl]
                    @ blameSeparator @ [nl] @ joinWith [nl] rows)))"

section \<open>The blame parser of the second git server (src/unnamed/part_002)\<close>

text \<open>
  Here \<^verbatim>\<open>currentCommit\<close> starts as \<^verbatim>\<open>null\<close> (\<open>None\<close>), a commit line stores
  the hash only, and assigning a property of \<^verbatim>\<open>null\<close> throws. Spreading \<^verbatim>\<open>null\<close>
  into the pushed object adds no key.
\<close>

definition cannotSet :: "string \<Rightarrow> string \<Rightarrow> jsError" where
  "cannotSet base p =
     TypeError (''Cannot set properties of '' @ base @ '' (setting '' @ [CHR 0x27] @ p @ [CHR 0x27] @ '')'')"

definition spread :: "commitInfo option \<Rightarrow> commitInfo" where
  "spread c = (case c of None \<Rightarrow> emptyInfo | Some i \<Rightarrow> i)"

definition blameStep2 :: "runtime \<Rightarrow> commitInfo option \<times> blameLine list \<Rightarrow> string \<Rightarrow> jsError + commitInfo option \<times> blameLine list" where
  "blameStep2 R st l =
     (case st of (currentCommit, blameInfo) \<Rightarrow>
        if isCommitLine l then
          Inr (Some \<lparr>hash = Some (take 8 (hd (splitOn CHR '' '' l))), line = None,
                     author = None, date = None\<rparr>, blameInfo)
        else if startsWith l ''author '' then
          (case currentCommit of
             None \<Rightarrow> Inl (cannotSet ''null'' ''author'')
           | Some c \<Rightarrow> Inr (Some (c\<lparr>author := Some (drop 7 l)\<rparr>), blameInfo))
        else if startsWith l ''author-time '' then
          (case currentCommit of
             None \<Rightarrow> Inl (cannotSet ''null'' ''date'')
           | Some c \<Rightarrow> Inr (Some (c\<lparr>date := Some (dateOf R (drop 12 l))\<rparr>), blameInfo))
        else if startsWith l [tab] then
          Inr (currentCommit, blameInfo @ [withContent (spread currentCommit) (drop 1 l)])
        else
          Inr (currentCommit, blameInfo))"

text \<open>A loop whose body may throw: the first throw ends it.\<close>

fun foldE :: "('s \<Rightarrow> 'a \<Rightarrow> jsError + 's) \<Rightarrow> 's \<Rightarrow> 'a list \<Rightarrow> jsError + 's" where
  "foldE f s [] = Inr s"
| "foldE f s (x # xs) = (case f s x of Inl e \<Rightarrow> Inl e | Inr s' \<Rightarrow> foldE f s' xs)"

definition blameLoop2 :: "runtime \<Rightarrow> string list \<Rightarrow> jsError + blameLine list" where
  "blameLoop2 R lines = map_sum id snd (foldE (blameStep2 R) (None, []) lines)"

definition parseBlame2 :: "runtime \<Rightarrow> string \<Rightarrow> jsError + blameLine list" where
  "parseBlame2 R stdout = blameLoop2 R (splitOn nl stdout)"

section \<open>The commit classifier of git-server.js\<close>

text \<open>Decimal printing of \<^verbatim>\<open>array.length\<close> in a template literal.\<close>

fun showNat :: "nat \<Rightarrow> string" where
  "showNat n = (if n < 10 then [''0123456789'' ! n] else showNat (n div 10) @ [''0123456789'' ! (n mod 10)])"

declare showNat.simps [simp del]

text \<open>
  \<^verbatim>\<open>s.toLowerCase()\<close> and \<^verbatim>\<open>s.trim()\<close> on the code units below 256: the capital
  letters are A to Z and U+00C0 to U+00DE without the multiplication sign U+00D7, and
  the white space is tab, line feed, vertical tab, form feed, carriage return, space
  and the no-break space U+00A0.
\<close>

definition lowerChar :: "char \<Rightarrow> char" where
  "lowerChar c =
     (let n = of_char c :: nat
      in if (65 \<le> n \<and> n \<le> 90) \<or> (192 \<le> n \<and> n \<le> 222 \<and> n \<noteq> 215) then char_of (n + 32) else c)"

definition toLowerCase :: "string \<Rightarrow> string" where
  "toLowerCase s = map lowerChar s"

definition isSpace :: "char \<Rightarrow> bool" where
  "isSpace c = (c \<in> set [CHR 0x09, CHR 0x0A, CHR 0x0B, CHR 0x0C, CHR 0x0D, CHR 0x20, CHR 0xA0])"

definition trim :: "string \<Rightarrow> string" where
  "trim s = rev (dropWhile isSpace (rev (dropWhile isSpace s)))"

text \<open>
  One entry of \<^verbatim>\<open>files\<close>: \<^verbatim>\<open>const [status, file] = line.split('\t')\<close>. The status is
  the raw token of \<^verbatim>\<open>git diff --name-status\<close> (\<^verbatim>\<open>A\<close>, \<^verbatim>\<open>M\<close>, \<^verbatim>\<open>D\<close>, \<^verbatim>\<open>R100\<close>, ...);
  the file (field \<open>filePath\<close>) is \<open>None\<close> (\<^verbatim>\<open>undefined\<close>) when the line
  has no tab.
\<close>

record changeRecord =
  status :: string
  filePath :: "string option"

definition parseNameStatus :: "string \<Rightarrow> changeRecord list" where
  "parseNameStatus diff =
     map (\<lambda>l. let parts = splitOn tab l in \<lparr>status = hd parts, filePath = nth_opt parts 1\<rparr>)
         (splitOn nl (trim diff))"

text \<open>Calling a string method on an undefined \<^verbatim>\<open>f.file\<close> throws.\<close>

definition fileMethod :: "string \<Rightarrow> changeRecord \<Rightarrow> jsError + string" where
  "fileMethod m f = (case filePath f of None \<Rightarrow> Inl (cannotRead ''undefined'' m) | Some p \<Rightarrow> Inr p)"

text \<open>\<^verbatim>\<open>files.every(p)\<close> and \<^verbatim>\<open>files.some(p)\<close> stop at the first decisive element.\<close>

fun everyE :: "('a \<Rightarrow> jsError + bool) \<Rightarrow> 'a list \<Rightarrow> jsError + bool" where
  "everyE p [] = Inr True"
| "everyE p (x # xs) =
     (case p x of Inl e \<Rightarrow> Inl e | Inr b \<Rightarrow> if b then everyE p xs else Inr False)"

fun someE :: "('a \<Rightarrow> jsError + bool) \<Rightarrow> 'a list \<Rightarrow> jsError + bool" where
  "someE p [] = Inr False"
| "someE p (x # xs) =
     (case p x of Inl e \<Rightarrow> Inl e | Inr b \<Rightarrow> if b then Inr True else someE p xs)"

definition isDoc :: "changeRecord \<Rightarrow> jsError + bool" where
  "isDoc f = bindE (fileMethod ''endsWith'' f) (\<lambda>p.
     Inr (endsWith p ''.md'' \<or> includesStr (toLowerCase p) ''readme''))"

definition isTest :: "changeRecord \<Rightarrow> jsError + bool" where
  "isTest f = bindE (fileMethod ''includes'' f) (\<lambda>p.
     Inr (includesStr p ''test'' \<or> includesStr p ''spec''))"

definition quoted :: "string option \<Rightarrow> string" where
  "quoted p = [CHR 0x27] @ tpl p @ [CHR 0x27]"

text \<open>
  \<^verbatim>\<open>f.status.startsWith(c)\<close>, and the test of the dependency override,
  \<^verbatim>\<open>f.file === 'package.json' || f.file === 'package-lock.json'\<close>.
\<close>

definition hasStatus :: "string \<Rightarrow> changeRecord \<Rightarrow> bool" where
  "hasStatus c f = startsWith (status f) c"

definition isManifest :: "changeRecord \<Rightarrow> bool" where
  "isManifest f = (filePath f = Some ''package.json'' \<or> filePath f = Some ''package-lock.json'')"

text \<open>
  The classification chain and the dependency override: the pair is \<^verbatim>\<open>(type, summary)\<close>
  as the two variables stand before \<^verbatim>\<open>commitMessage\<close> is built.
\<close>

definition classify :: "changeRecord list \<Rightarrow> jsError + string \<times> string" where
  "classify files =
     (let added = filter (hasStatus ''A'') files;
          modified = filter (hasStatus ''M'') files;
          deleted = filter (hasStatus ''D'') files;
          chain =
            (if length added > 0 \<and> length modified = 0 \<and> length deleted = 0 then
               Inr (''feat'', ''add '' @
                     (if length added > 1 then showNat (length added) @ '' new files''
                      else quoted (filePath (hd added))))
             else bindE (everyE isDoc files) (\<lambda>docs.
               if docs then Inr (''docs'', ''update documentation'')
               else bindE (someE isTest files) (\<lambda>tests.
                 if tests then Inr (''test'', ''update tests'')
                 else if length modified > 0 then
                   Inr (''fix'', ''update '' @
                         (if length modified > 1 then showNat (length modified) @ '' files''
                          else quoted (filePath (hd modified))))
                 else Inr (''chore'', ''update project structure''))))
      in bindE chain (\<lambda>(type, summary).
           if list_ex isManifest files
           then Inr (''chore'', ''update dependencies or project config'')
           else Inr (type, summary)))"

definition commitText :: "changeRecord list \<Rightarrow> jsError + string" where
  "commitText files =
     bindE (classify files) (\<lambda>(type, summary).
       Inr (''Suggested commit message:'' @ [nl, nl] @ type @ '': '' @ summary
            @ [nl, nl] @ ''Changes:'' @ [nl]
            @ joinWith [nl] (map (\<lambda>f. ''- '' @ status f @ '': '' @ tpl (filePath f)) files)))"

section \<open>The process runner\<close>

text \<open>
  \<^verbatim>\<open>execAsync = promisify(exec)\<close> is Node's \<^verbatim>\<open>child_process.exec\<close>, called with no
  option but \<^verbatim>\<open>cwd\<close>: no timeout, and the default \<^verbatim>\<open>maxBuffer\<close> of 1024 * 1024 bytes.
  The operating system is a parameter that says what a command line does in a working
  directory: the shell cannot be spawned, or the process runs, writes chunks to its two
  streams in some order, and then ends with an exit code, is killed by a signal, or
  stays alive and writes no more.

  \<^verbatim>\<open>exec\<close> collects the chunks. As soon as one stream holds more than \<^verbatim>\<open>maxBuffer\<close>
  bytes it kills the process and the promise rejects with a RangeError that names the
  stream. Otherwise the promise resolves with \<^verbatim>\<open>{stdout, stderr}\<close> when the process ends
  with exit code 0, rejects with the Error \<^verbatim>\<open>Command failed: <command>\n<stderr>\<close> when it
  ends in any other way, and stays pending for as long as the process is alive. git_push
  relies on the rejection ("We'll rely on execAsync to throw only on a non-zero exit
  code"), and so does check_ports.
\<close>

datatype chunk = Stdout string | Stderr string

datatype ending = ExitCode int | Signal string | StaysAlive

datatype procOutcome = SpawnFailure string | Runs "chunk list" ending

type_synonym shell = "string option \<Rightarrow> string \<Rightarrow> procOutcome"

definition maxBuffer :: int where
  "maxBuffer = 1024 * 1024"

text \<open>The two buffers of \<^verbatim>\<open>exec\<close>; \<open>Inl\<close> names the stream that went over the limit.\<close>

fun collect :: "chunk list \<Rightarrow> string \<times> string \<Rightarrow> string + string \<times> string" where
  "collect [] acc = Inr acc"
| "collect (Stdout s # cs) acc =
     (if maxBuffer < int (byteLength (fst acc @ s)) then Inl ''stdout''
      else collect cs (fst acc @ s, snd acc))"
| "collect (Stderr s # cs) acc =
     (if maxBuffer < int (byteLength (snd acc @ s)) then Inl ''stderr''
      else collect cs (fst acc, snd acc @ s))"

definition commandFailed :: "string \<Rightarrow> string \<Rightarrow> jsError" where
  "commandFailed command stderr = Error (''Command failed: '' @ command @ [nl] @ stderr)"

definition execAsync :: "shell \<Rightarrow> string \<Rightarrow> string option \<Rightarrow> (string \<times> string) async" where
  "execAsync sh command cwd =
     (case sh cwd command of
        SpawnFailure m \<Rightarrow> Some (Inl (Error m))
      | Runs chunks ending \<Rightarrow>
          (case collect chunks ([], []) of
             Inl stream \<Rightarrow> Some (Inl (RangeError (stream @ '' maxBuffer length exceeded'')))
           | Inr (stdout, stderr) \<Rightarrow>
               (case ending of
                  ExitCode code \<Rightarrow>
                    if code = 0 then Some (Inr (stdout, stderr))
                    else Some (Inl (commandFailed command stderr))
                | Signal s \<Rightarrow> Some (Inl (commandFailed command stderr))
                | StaysAlive \<Rightarrow> None)))"

section \<open>The JavaScript engine\<close>

text \<open>
  What the source leaves to the engine is a parameter: the decimal text of a number
  that is not a whole number below \<open>10\<^sup>2\<^sup>1\<close> (\<^verbatim>\<open>Number.prototype.toString\<close> prints those
  with the shortest digits that read back, or with an exponent), the number of arguments
  that a call \<^verbatim>\<open>f(...xs)\<close> can spread before the stack overflows, and what a property
  read finds on the prototype chain of a value (\<open>JUndefined\<close> when it finds nothing).
\<close>

record engine =
  numberToString :: "rat \<Rightarrow> string"
  maxArguments :: nat
  inherited :: "jsval \<Rightarrow> string \<Rightarrow> jsval"

text \<open>The decimal digits of a whole number.\<close>

function showDigits :: "int \<Rightarrow> string" where
  "showDigits n =
     (if n < 10 then [''0123456789'' ! nat n]
      else showDigits (n div 10) @ [''0123456789'' ! nat (n mod 10)])"
  by pat_completeness auto
termination
  by (relation "measure nat") auto

declare showDigits.simps [simp del]

definition showInt :: "int \<Rightarrow> string" where
  "showInt i = (if i < 0 then ''-'' @ showDigits (- i) else showDigits i)"

text \<open>\<^verbatim>\<open>`${x}`\<close> for a number \<open>x\<close>.\<close>

definition showNumber :: "engine \<Rightarrow> jsNumber \<Rightarrow> string" where
  "showNumber E x =
     (case x of
        NaN \<Rightarrow> ''NaN''
      | PosInfinity \<Rightarrow> ''Infinity''
      | NegInfinity \<Rightarrow> ''-Infinity''
      | Finite q \<Rightarrow>
          if q = of_int \<lfloor>q\<rfloor> \<and> \<bar>q\<bar> < 10 ^ 21 then showInt \<lfloor>q\<rfloor> else numberToString E q)"

definition tplNum :: "engine \<Rightarrow> jsNumber option \<Rightarrow> string" where
  "tplNum E v = (case v of None \<Rightarrow> ''undefined'' | Some x \<Rightarrow> showNumber E x)"

text \<open>\<^verbatim>\<open>x || d\<close> for an optional number: \<^verbatim>\<open>undefined\<close>, NaN and zero are falsy.\<close>

definition orNumber :: "jsNumber option \<Rightarrow> jsNumber \<Rightarrow> jsNumber" where
  "orNumber v d =
     (case v of
        None \<Rightarrow> d
      | Some NaN \<Rightarrow> d
      | Some (Finite q) \<Rightarrow> (if q = 0 then d else Finite q)
      | Some x \<Rightarrow> x)"

section \<open>Property reads, enumeration and conversion to text\<close>

definition truthy :: "jsval \<Rightarrow> bool" where
  "truthy v =
     (case v of
        JUndefined \<Rightarrow> False
      | JNull \<Rightarrow> False
      | JBool b \<Rightarrow> b
      | JNum x \<Rightarrow> (case x of NaN \<Rightarrow> False | Finite q \<Rightarrow> q \<noteq> 0 | _ \<Rightarrow> True)
      | JStr s \<Rightarrow> s \<noteq> []
      | _ \<Rightarrow> True)"

text \<open>
  An array index is a key that is the decimal text of a whole number up to
  \<open>2\<^sup>3\<^sup>2 - 2\<close>, written without a sign and without leading zeros.
\<close>

definition isDigit :: "char \<Rightarrow> bool" where
  "isDigit c = (c \<in> set ''0123456789'')"

definition decimal :: "string \<Rightarrow> int" where
  "decimal s = foldl (\<lambda>n c. 10 * n + (of_char c - 48)) 0 s"

definition arrayIndex :: "string \<Rightarrow> int option" where
  "arrayIndex s =
     (if s \<noteq> [] \<and> list_all isDigit s \<and> (s = ''0'' \<or> hd s \<noteq> CHR ''0'')
         \<and> decimal s \<le> 4294967294
      then Some (decimal s) else None)"

text \<open>
  The own properties of the object that \<^verbatim>\<open>JSON.parse\<close> builds from the members of an
  object text: a key that comes again keeps its place and takes the later value.
  \<^verbatim>\<open>Object.entries\<close> lists the array indices first, in ascending order, and then the
  other keys in the order of their creation.
\<close>

fun putProp :: "(string \<times> jsval) list \<Rightarrow> string \<times> jsval \<Rightarrow> (string \<times> jsval) list" where
  "putProp [] kv = [kv]"
| "putProp (p # ps) kv = (if fst p = fst kv then kv # ps else p # putProp ps kv)"

definition ownProperties :: "(string \<times> jsval) list \<Rightarrow> (string \<times> jsval) list" where
  "ownProperties members = foldl putProp [] members"

definition indexOf :: "string \<times> jsval \<Rightarrow> int" where
  "indexOf p = (case arrayIndex (fst p) of Some i \<Rightarrow> i | None \<Rightarrow> 0)"

definition ownEntries :: "(string \<times> jsval) list \<Rightarrow> (string \<times> jsval) list" where
  "ownEntries members =
     (let ps = ownProperties members
      in sort_key indexOf (filter (\<lambda>p. arrayIndex (fst p) \<noteq> None) ps)
         @ filter (\<lambda>p. arrayIndex (fst p) = None) ps)"

definition entriesOf :: "jsval \<Rightarrow> jsError + (string \<times> jsval) list" where
  "entriesOf v =
     (case v of
        JUndefined \<Rightarrow> Inl (TypeError ''Cannot convert undefined or null to object'')
      | JNull \<Rightarrow> Inl (TypeError ''Cannot convert undefined or null to object'')
      | JObj members \<Rightarrow> Inr (ownEntries members)
      | JArr xs \<Rightarrow> Inr (zip (map showNat [0..<length xs]) xs)
      | JStr s \<Rightarrow> Inr (zip (map showNat [0..<length s]) (map (\<lambda>c. JStr [c]) s))
      | _ \<Rightarrow> Inr [])"

text \<open>
  \<^verbatim>\<open>obj[key]\<close>. Reading a property of \<^verbatim>\<open>null\<close> or \<^verbatim>\<open>undefined\<close> throws. An own
  property is found first (on an array or a string, the elements and \<^verbatim>\<open>length\<close>); any
  other key is looked up on the prototype chain.
\<close>

definition getProp :: "engine \<Rightarrow> jsval \<Rightarrow> string \<Rightarrow> jsError + jsval" where
  "getProp E obj key =
     (case obj of
        JUndefined \<Rightarrow> Inl (cannotRead ''undefined'' key)
      | JNull \<Rightarrow> Inl (cannotRead ''null'' key)
      | JObj members \<Rightarrow>
          (case map_of (rev members) key of
             Some v \<Rightarrow> Inr v
           | None \<Rightarrow> Inr (inherited E obj key))
      | JArr xs \<Rightarrow>
          (if key = ''length'' then Inr (JNum (Finite (of_nat (length xs))))
           else case arrayIndex key of
                  Some i \<Rightarrow> if i < int (length xs) then Inr (xs ! nat i) else Inr (inherited E obj key)
                | None \<Rightarrow> Inr (inherited E obj key))
      | JStr s \<Rightarrow>
          (if key = ''length'' then Inr (JNum (Finite (of_nat (length s))))
           else case arrayIndex key of
                  Some i \<Rightarrow> if i < int (length s) then Inr (JStr [s ! nat i]) else Inr (inherited E obj key)
                | None \<Rightarrow> Inr (inherited E obj key))
      | _ \<Rightarrow> Inr (inherited E obj key))"

text \<open>
  \<^verbatim>\<open>`${v}`\<close>: the conversion of a value to text. An array prints its elements joined
  by commas, \<^verbatim>\<open>null\<close> and \<^verbatim>\<open>undefined\<close> elements as nothing; an object prints as
  \<^verbatim>\<open>[object Object]\<close>, unless it has an own property \<^verbatim>\<open>toString\<close>, which is no function
  and hides the inherited one: then the conversion throws.
\<close>

fun toStr :: "engine \<Rightarrow> jsval \<Rightarrow> jsError + string"
  and joinElements :: "engine \<Rightarrow> jsval list \<Rightarrow> jsError + string" where
  "toStr E JUndefined = Inr ''undefined''"
| "toStr E JNull = Inr ''null''"
| "toStr E (JBool b) = Inr (if b then ''true'' else ''false'')"
| "toStr E (JNum x) = Inr (showNumber E x)"
| "toStr E (JStr s) = Inr s"
| "toStr E (JFunction src) = Inr src"
| "toStr E (JObj members) =
     (if map_of members ''toString'' = None then Inr ''[object Object]''
      else Inl (TypeError ''Cannot convert object to primitive value''))"
| "toStr E (JArr xs) = joinElements E xs"
| "joinElements E [] = Inr []"
| "joinElements E (x # xs) =
     (case (if x = JUndefined \<or> x = JNull then Inr [] else toStr E x) of
        Inl e \<Rightarrow> Inl e
      | Inr first \<Rightarrow>
          if xs = [] then Inr first
          else (case joinElements E xs of
                  Inl e \<Rightarrow> Inl e
                | Inr others \<Rightarrow> Inr (first @ '','' @ others)))"

section \<open>The handlers and the dispatcher of git-server.js\<close>

text \<open>
  The argument bag, typed as the tools' input schemas declare it (a number is any
  number that JSON can carry); \<open>None\<close> is a missing key. \<^verbatim>\<open>remote\<close> is declared a boolean by git_branches and a string by git_push, and
  \<^verbatim>\<open>file\<close> is the field \<open>file'\<close>. The bag itself may be undefined.
\<close>

datatype remoteArg = RemoteFlag bool | RemoteName string

record gitArgs =
  repoPath :: "string option"
  limit :: "jsNumber option"
  branch :: "string option"
  staged :: "bool option"
  file' :: "string option"
  commit1 :: "string option"
  commit2 :: "string option"
  remote :: "remoteArg option"
  query :: "string option"
  searchType :: "string option"
  files :: "string list option"
  message :: "string option"
  force :: "bool option"

text \<open>Truthiness of an optional string, and \<^verbatim>\<open>x || d\<close>.\<close>

definition truthyStr :: "string option \<Rightarrow> bool" where
  "truthyStr v = (case v of None \<Rightarrow> False | Some s \<Rightarrow> s \<noteq> [])"

definition orStr :: "string option \<Rightarrow> string \<Rightarrow> string" where
  "orStr v d = (case v of None \<Rightarrow> d | Some s \<Rightarrow> if s = [] then d else s)"

definition truthyRemote :: "remoteArg option \<Rightarrow> bool" where
  "truthyRemote v =
     (case v of None \<Rightarrow> False | Some (RemoteFlag b) \<Rightarrow> b | Some (RemoteName s) \<Rightarrow> s \<noteq> [])"

definition orRemote :: "remoteArg option \<Rightarrow> string \<Rightarrow> string" where
  "orRemote v d =
     (case v of
        None \<Rightarrow> d
      | Some (RemoteFlag b) \<Rightarrow> (if b then ''true'' else d)
      | Some (RemoteName s) \<Rightarrow> (if s = [] then d else s))"

definition dq :: string where
  "dq = [CHR 0x22]"

text \<open>The first property read of an undefined argument bag throws.\<close>

definition readArgs :: "'a option \<Rightarrow> string \<Rightarrow> jsError + 'a" where
  "readArgs args p = (case args of None \<Rightarrow> Inl (cannotRead ''undefined'' p) | Some a \<Rightarrow> Inr a)"

definition gitC :: "gitArgs \<Rightarrow> string" where
  "gitC a = ''git -C '' @ dq @ tpl (repoPath a) @ dq"

definition prettyFormat :: string where
  "prettyFormat = ''--pretty=format:'' @ dq @ ''%h | %an | %ar | %s'' @ dq"

definition git_status :: "shell \<Rightarrow> gitArgs option \<Rightarrow> envelope async" where
  "git_status sh args =
     bindA (Some (readArgs args ''repoPath'')) (\<lambda>a.
     bindA (execAsync sh (gitC a @ '' status --porcelain -b'') None) (\<lambda>(stdout, _).
     bindA (execAsync sh (gitC a @ '' status'') None) (\<lambda>(statusLong, _).
       returnA (okText (''Short status:'' @ [nl] @ stdout @ [nl, nl] @ ''Detailed status:'' @ [nl]
                    @ statusLong)))))"

definition git_log :: "engine \<Rightarrow> shell \<Rightarrow> gitArgs option \<Rightarrow> envelope async" where
  "git_log E sh args =
     bindA (Some (readArgs args ''limit'')) (\<lambda>a.
       let limit = orNumber (limit a) (Finite 10); branch = orStr (branch a) []
       in bindA (execAsync sh (gitC a @ '' log '' @ branch @ '' --oneline --decorate -n ''
                               @ showNumber E limit @ '' '' @ prettyFormat) None) (\<lambda>(stdout, _).
            returnA (okText (''Recent commits:'' @ [nl] @ stdout))))"

definition git_diff :: "shell \<Rightarrow> gitArgs option \<Rightarrow> envelope async" where
  "git_diff sh args =
     bindA (Some (readArgs args ''repoPath'')) (\<lambda>a.
       let command = gitC a @ '' diff'';
           command = (if staged a = Some True then command @ '' --staged'' else command);
           command = (if truthyStr (commit1 a) \<and> truthyStr (commit2 a)
                      then gitC a @ '' diff '' @ tpl (commit1 a) @ '' '' @ tpl (commit2 a)
                      else command);
           command = (if truthyStr (file' a)
                      then command @ '' -- '' @ dq @ tpl (file' a) @ dq
                      else command)
       in bindA (execAsync sh command None) (\<lambda>(stdout, _).
            returnA (okText (if stdout \<noteq> [] then stdout else ''No changes found''))))"

definition git_branches :: "shell \<Rightarrow> gitArgs option \<Rightarrow> envelope async" where
  "git_branches sh args =
     bindA (Some (readArgs args ''remote'')) (\<lambda>a.
       let flag = (if truthyRemote (remote a) then ''-a'' else [])
       in bindA (execAsync sh (gitC a @ '' branch '' @ flag @ '' -v'') None) (\<lambda>(stdout, _).
            returnA (okText (''Branches:'' @ [nl] @ stdout))))"

definition generate_commit_message :: "shell \<Rightarrow> gitArgs option \<Rightarrow> envelope async" where
  "generate_commit_message sh args =
     bindA (Some (readArgs args ''repoPath'')) (\<lambda>a.
     bindA (execAsync sh (gitC a @ '' diff --staged --name-status'') None) (\<lambda>(diff, _).
       if diff = [] then returnA (okText ''No staged changes to create a commit message from.'')
       else Some (bindE (commitText (parseNameStatus diff)) (\<lambda>t. Inr (okText t)))))"

definition git_blame :: "runtime \<Rightarrow> shell \<Rightarrow> gitArgs option \<Rightarrow> envelope async" where
  "git_blame R sh args =
     bindA (Some (readArgs args ''repoPath'')) (\<lambda>a.
     bindA (execAsync sh (gitC a @ '' blame '' @ dq @ tpl (file' a) @ dq @ '' --line-porcelain'')
              None) (\<lambda>(stdout, _).
       Some (renderBlame (file' a) (parseBlame R stdout))))"

definition git_search_commits :: "shell \<Rightarrow> gitArgs option \<Rightarrow> envelope async" where
  "git_search_commits sh args =
     bindA (Some (readArgs args ''repoPath'')) (\<lambda>a.
       let command = gitC a @ '' log --all '' @ prettyFormat;
           command =
             (if searchType a = Some ''message'' then
                command @ '' --grep='' @ dq @ tpl (query a) @ dq
              else if searchType a = Some ''author'' then
                command @ '' --author='' @ dq @ tpl (query a) @ dq
              else if searchType a = Some ''content'' then
                command @ '' -S'' @ dq @ tpl (query a) @ dq
              else command)
       in bindA (execAsync sh command None) (\<lambda>(stdout, _).
            returnA (okText (if stdout \<noteq> [] then stdout
                         else ''No commits found matching '' @ dq @ tpl (query a) @ dq))))"

definition git_stage :: "shell \<Rightarrow> gitArgs option \<Rightarrow> envelope async" where
  "git_stage sh args =
     bindA (Some (readArgs args ''files'')) (\<lambda>a.
       let command =
             (case files a of
                Some (f # fs) \<Rightarrow>
                  gitC a @ '' add '' @ joinWith '' '' (map (\<lambda>f. dq @ f @ dq) (f # fs))
              | _ \<Rightarrow> gitC a @ '' add -A'')
       in bindA (execAsync sh command None) (\<lambda>_.
          bindA (execAsync sh (gitC a @ '' status --short'') None) (\<lambda>(status, _).
            returnA (okText (''Staging successful. Current status:'' @ [nl] @ status)))))"

definition git_commit :: "shell \<Rightarrow> gitArgs option \<Rightarrow> envelope async" where
  "git_commit sh args =
     bindA (Some (readArgs args ''repoPath'')) (\<lambda>a.
     bindA (execAsync sh (gitC a @ '' commit -m '' @ dq @ tpl (message a) @ dq) None)
       (\<lambda>(commitOutput, _).
     bindA (execAsync sh (gitC a @ '' log -1 --oneline --decorate '' @ prettyFormat) None)
       (\<lambda>(logOut, _).
       returnA (okText (''Commit successful!'' @ [nl, nl] @ commitOutput @ [nl, nl]
                    @ ''Latest commit:'' @ [nl] @ logOut)))))"

definition git_push :: "shell \<Rightarrow> gitArgs option \<Rightarrow> envelope async" where
  "git_push sh args =
     bindA (Some (readArgs args ''remote'')) (\<lambda>a.
       let remote = orRemote (remote a) ''origin'';
           branch = orStr (branch a) [];
           forceFlag = (if force a = Some True then ''--force'' else []);
           command = trim (gitC a @ '' push '' @ forceFlag @ '' '' @ remote @ '' '' @ branch)
       in bindA (execAsync sh command None) (\<lambda>(stdout, stderr).
            returnA (okText (''Push command executed.'' @ [nl, nl] @ ''STDOUT:'' @ [nl] @ stdout
                         @ [nl, nl] @ ''STDERR:'' @ [nl] @ stderr))))"

text \<open>
  The \<^verbatim>\<open>switch (name)\<close>: \<open>gitCase\<close> runs the body of the case that the name
  matches (\<open>None\<close> when no case matches), and \<open>gitHandler\<close> adds the throwing default.
  Every case body ends in a \<^verbatim>\<open>return\<close> or a throw; none falls through.
\<close>

definition gitTools :: "string list" where
  "gitTools = [''git_status'', ''git_log'', ''git_diff'', ''git_branches'',
               ''generate_commit_message'', ''git_blame'', ''git_search_commits'',
               ''git_stage'', ''git_commit'', ''git_push'']"

definition gitCase :: "engine \<Rightarrow> runtime \<Rightarrow> shell \<Rightarrow> string \<Rightarrow> gitArgs option \<Rightarrow> envelope async option" where
  "gitCase E R sh name args =
     (if name = ''git_status'' then Some (git_status sh args)
      else if name = ''git_log'' then Some (git_log E sh args)
      else if name = ''git_diff'' then Some (git_diff sh args)
      else if name = ''git_branches'' then Some (git_branches sh args)
      else if name = ''generate_commit_message'' then Some (generate_commit_message sh args)
      else if name = ''git_blame'' then Some (git_blame R sh args)
      else if name = ''git_search_commits'' then Some (git_search_commits sh args)
      else if name = ''git_stage'' then Some (git_stage sh args)
      else if name = ''git_commit'' then Some (git_commit sh args)
      else if name = ''git_push'' then Some (git_push sh args)
      else None)"

definition gitHandler :: "engine \<Rightarrow> runtime \<Rightarrow> shell \<Rightarrow> string \<Rightarrow> gitArgs option \<Rightarrow> envelope async" where
  "gitHandler E R sh name args =
     (case gitCase E R sh name args of
        Some outcome \<Rightarrow> outcome
      | None \<Rightarrow> Some (Inl (Error (''Unknown tool: '' @ name))))"

text \<open>
  The \<^verbatim>\<open>try { ... } catch (error) { ... }\<close> around the switch. The request gets its
  envelope when the awaited handler settles; \<open>None\<close> is a request that is never answered.
\<close>

definition catchEnvelope :: "jsError + envelope \<Rightarrow> envelope" where
  "catchEnvelope r =
     (case r of Inl error \<Rightarrow> failText (''Error: '' @ errMsg error) | Inr result \<Rightarrow> result)"

definition gitCallTool :: "engine \<Rightarrow> runtime \<Rightarrow> shell \<Rightarrow> string \<Rightarrow> gitArgs option \<Rightarrow> envelope option" where
  "gitCallTool E R sh name args = map_option catchEnvelope (gitHandler E R sh name args)"

section \<open>The handlers and the dispatcher of the devtools server (src/unnamed/part_001)\<close>

text \<open>
  The argument bag of the devtools tools, typed as their input schemas declare it.
\<close>

record devArgs =
  all :: "bool option"
  container :: "string option"
  tail :: "jsNumber option"
  follow :: "bool option"
  command :: "string option"
  action :: "string option"
  projectPath :: "string option"
  service :: "string option"
  workingDir :: "string option"
  logPath :: "string option"
  lines :: "jsNumber option"
  port :: "jsNumber option"
  scriptName :: "string option"

text \<open>
  The file system and the JSON parser are parameters: \<^verbatim>\<open>fs.readFile(path, "utf-8")\<close>
  gives the text, throws, or never settles (a pipe that nobody writes to), and
  \<^verbatim>\<open>JSON.parse\<close> of a text gives a value or throws. Node itself throws a TypeError for
  an undefined command line or path.
\<close>

type_synonym fileSystem = "string \<Rightarrow> string async"

type_synonym jsonParser = "string \<Rightarrow> jsError + jsval"

definition invalidArg :: "string \<Rightarrow> string \<Rightarrow> jsError" where
  "invalidArg name expected =
     TypeError (''The '' @ dq @ name @ dq @ '' argument must be of type '' @ expected
                @ ''. Received undefined'')"

definition execArg :: "shell \<Rightarrow> string option \<Rightarrow> string option \<Rightarrow> (string \<times> string) async" where
  "execArg sh cmd cwd =
     (case cmd of
        None \<Rightarrow> Some (Inl (invalidArg ''command'' ''string''))
      | Some c \<Rightarrow> execAsync sh c cwd)"

definition readFile :: "fileSystem \<Rightarrow> string option \<Rightarrow> string async" where
  "readFile fs path =
     (case path of
        None \<Rightarrow> Some (Inl (invalidArg ''path'' ''string or an instance of Buffer or URL''))
      | Some p \<Rightarrow> fs p)"

definition bs :: string where
  "bs = [CHR 0x5C]"

text \<open>
  \<^verbatim>\<open>xs.slice(-n)\<close>: the start is the negated number cut to a whole number, and a
  negative start counts from the end.
\<close>

definition truncRat :: "rat \<Rightarrow> int" where
  "truncRat q = (if q < 0 then - \<lfloor>- q\<rfloor> else \<lfloor>q\<rfloor>)"

definition negate :: "jsNumber \<Rightarrow> jsNumber" where
  "negate x =
     (case x of
        NaN \<Rightarrow> NaN
      | PosInfinity \<Rightarrow> NegInfinity
      | NegInfinity \<Rightarrow> PosInfinity
      | Finite q \<Rightarrow> Finite (- q))"

definition sliceFrom :: "jsNumber \<Rightarrow> 'a list \<Rightarrow> 'a list" where
  "sliceFrom start xs =
     (case start of
        NaN \<Rightarrow> xs
      | NegInfinity \<Rightarrow> xs
      | PosInfinity \<Rightarrow> []
      | Finite q \<Rightarrow>
          if truncRat q < 0 then drop (nat (int (length xs) + truncRat q)) xs
          else drop (nat (truncRat q)) xs)"

definition docker_ps :: "shell \<Rightarrow> devArgs option \<Rightarrow> envelope async" where
  "docker_ps sh args =
     bindA (Some (readArgs args ''all'')) (\<lambda>a.
       let flag = (if all a = Some True then ''-a'' else [])
       in bindA (execAsync sh (''docker ps '' @ flag @ '' --format '' @ dq @ ''table {{.ID}}''
                               @ bs @ ''t{{.Names}}'' @ bs @ ''t{{.Status}}'' @ bs
                               @ ''t{{.Image}}'' @ bs @ ''t{{.Ports}}'' @ dq) None)
            (\<lambda>(stdout, _). returnA (okText stdout)))"

definition docker_logs :: "engine \<Rightarrow> shell \<Rightarrow> devArgs option \<Rightarrow> envelope async" where
  "docker_logs E sh args =
     bindA (Some (readArgs args ''tail'')) (\<lambda>a.
       let tail = orNumber (tail a) (Finite 100);
           followFlag = (if follow a = Some True then ''-f'' else [])
       in bindA (execAsync sh (''docker logs '' @ tpl (container a) @ '' --tail ''
                               @ showNumber E tail @ '' '' @ followFlag) None)
            (\<lambda>(stdout, _).
               returnA (okText (if stdout \<noteq> [] then stdout else ''No logs available''))))"

definition docker_exec :: "shell \<Rightarrow> devArgs option \<Rightarrow> envelope async" where
  "docker_exec sh args =
     bindA (Some (readArgs args ''container'')) (\<lambda>a.
     bindA (execAsync sh (''docker exec '' @ tpl (container a) @ '' '' @ tpl (command a)) None)
       (\<lambda>(stdout, stderr).
          returnA (okText (''STDOUT:'' @ [nl] @ stdout @ [nl, nl] @ ''STDERR:'' @ [nl] @ stderr))))"

definition docker_compose :: "shell \<Rightarrow> devArgs option \<Rightarrow> envelope async" where
  "docker_compose sh args =
     bindA (Some (readArgs args ''projectPath'')) (\<lambda>a.
       let command = ''docker-compose -f '' @ tpl (projectPath a) @ ''/docker-compose.yml ''
                     @ tpl (action a);
           command = (if truthyStr (service a) then command @ '' '' @ tpl (service a)
                      else command);
           command = (if action a = Some ''up'' then command @ '' -d'' else command)
       in bindA (execAsync sh command None) (\<lambda>(stdout, stderr).
            returnA (okText (stdout @ [nl] @ stderr))))"

definition docker_stats :: "shell \<Rightarrow> devArgs option \<Rightarrow> envelope async" where
  "docker_stats sh args =
     bindA (Some (readArgs args ''container'')) (\<lambda>a.
       let container = orStr (container a) []
       in bindA (execAsync sh (''docker stats '' @ container @ '' --no-stream --format '' @ dq
                               @ ''table {{.Name}}'' @ bs @ ''t{{.CPUPerc}}'' @ bs
                               @ ''t{{.MemUsage}}'' @ bs @ ''t{{.NetIO}}'' @ bs
                               @ ''t{{.BlockIO}}'' @ dq) None)
            (\<lambda>(stdout, _). returnA (okText stdout)))"

definition run_command :: "shell \<Rightarrow> devArgs option \<Rightarrow> envelope async" where
  "run_command sh args =
     bindA (Some (readArgs args ''workingDir'')) (\<lambda>a.
       let cwd = (if truthyStr (workingDir a) then workingDir a else None)
       in bindA (execArg sh (command a) cwd) (\<lambda>(stdout, stderr).
            returnA (okText (''STDOUT:'' @ [nl] @ stdout @ [nl, nl] @ ''STDERR:'' @ [nl]
                             @ stderr))))"

text \<open>
  monitor_logs has a try/catch of its own: what \<^verbatim>\<open>readFile\<close> throws is returned by the
  handler as an envelope with \<^verbatim>\<open>isError: true\<close>, not thrown to the dispatcher.
\<close>

definition monitor_logs :: "engine \<Rightarrow> fileSystem \<Rightarrow> devArgs option \<Rightarrow> envelope async" where
  "monitor_logs E fs args =
     bindA (Some (readArgs args ''lines'')) (\<lambda>a.
       let n = orNumber (lines a) (Finite 50)
       in (case readFile fs (logPath a) of
             None \<Rightarrow> None
           | Some (Inl error) \<Rightarrow>
               returnA (failText (''Error reading log file: '' @ errMsg error))
           | Some (Inr fileText) \<Rightarrow>
               let logLines = splitOn nl fileText;
                   recentLines = joinWith [nl] (sliceFrom (negate n) logLines)
               in returnA (okText (''Last '' @ showNumber E n @ '' lines from ''
                                   @ tpl (logPath a) @ '':'' @ [nl, nl] @ recentLines))))"

text \<open>
  check_ports: the inner catch returns an Ok envelope; with an undefined argument bag
  the template in the catch block throws again, to the dispatcher.
\<close>

definition check_ports :: "engine \<Rightarrow> shell \<Rightarrow> devArgs option \<Rightarrow> envelope async" where
  "check_ports E sh args =
     bindA (Some (readArgs args ''port'')) (\<lambda>a.
       case execAsync sh (''lsof -i :'' @ tplNum E (port a) @ '' || netstat -an | grep ''
                          @ tplNum E (port a)) None of
         None \<Rightarrow> None
       | Some (Inl error) \<Rightarrow>
           returnA (okText (''Port '' @ tplNum E (port a) @ '' appears to be free''))
       | Some (Inr (stdout, _)) \<Rightarrow>
           returnA (okText (if stdout \<noteq> [] then stdout
                            else ''No process found using port '' @ tplNum E (port a))))"

text \<open>
  npm_scripts: \<open>npmTry\<close> is the try block and \<open>npm_scripts\<close> the case body with
  its catch. \<open>None\<close> for the envelope is the end of the case block reached without a
  \<^verbatim>\<open>return\<close> (the action is neither \<^verbatim>\<open>list\<close> nor \<^verbatim>\<open>run\<close>); control then falls through
  to the default case. One row of the script list is \<^verbatim>\<open>`  ${name}: ${command}`\<close>.
\<close>

definition scriptRow :: "engine \<Rightarrow> string \<times> jsval \<Rightarrow> jsError + string" where
  "scriptRow E entry = bindE (toStr E (snd entry)) (\<lambda>cmd. Inr (''  '' @ fst entry @ '': '' @ cmd))"

definition npmTry :: "engine \<Rightarrow> shell \<Rightarrow> fileSystem \<Rightarrow> jsonParser \<Rightarrow> devArgs \<Rightarrow> string \<Rightarrow> envelope option async" where
  "npmTry E sh fs parse a packageJsonPath =
     bindA (readFile fs (Some packageJsonPath)) (\<lambda>fileText.
     bindA (Some (parse fileText)) (\<lambda>packageJson.
       if action a = Some ''list'' then
         bindA (Some (getProp E packageJson ''scripts'')) (\<lambda>declared.
           let scripts = (if truthy declared then declared else JObj [])
           in bindA (Some (entriesOf scripts)) (\<lambda>entries.
              bindA (Some (mapE (scriptRow E) entries)) (\<lambda>rows.
                returnA (Some (okText (''Available scripts:'' @ [nl] @ joinWith [nl] rows))))))
       else if action a = Some ''run'' then
         (if \<not> truthyStr (scriptName a) then
            Some (Inl (Error (''scriptName is required for '' @ [CHR 0x27] @ ''run''
                               @ [CHR 0x27] @ '' action'')))
          else bindA (execAsync sh (''npm run '' @ tpl (scriptName a)) (projectPath a))
                 (\<lambda>(stdout, stderr).
                    returnA (Some (okText (''Output from '' @ [CHR 0x27] @ tpl (scriptName a)
                                           @ [CHR 0x27] @ '':'' @ [nl, nl] @ stdout @ [nl]
                                           @ stderr)))))
       else returnA None))"

definition npm_scripts :: "engine \<Rightarrow> shell \<Rightarrow> fileSystem \<Rightarrow> jsonParser \<Rightarrow> devArgs option \<Rightarrow> envelope option async" where
  "npm_scripts E sh fs parse args =
     bindA (Some (readArgs args ''projectPath'')) (\<lambda>a.
       let packageJsonPath = tpl (projectPath a) @ ''/package.json''
       in (case npmTry E sh fs parse a packageJsonPath of
             None \<Rightarrow> None
           | Some (Inl error) \<Rightarrow> returnA (Some (failText (''Error: '' @ errMsg error)))
           | Some (Inr r) \<Rightarrow> returnA r))"

definition devTools :: "string list" where
  "devTools = [''docker_ps'', ''docker_logs'', ''docker_exec'', ''docker_compose'',
               ''docker_stats'', ''run_command'', ''monitor_logs'', ''check_ports'',
               ''npm_scripts'']"

text \<open>
  The switch: \<open>devCase\<close> runs the body of the case that the name matches, and
  \<open>devHandler\<close> adds the throwing default, which is also where control arrives when
  the last case body ends without a \<^verbatim>\<open>return\<close>.
\<close>

definition returned :: "envelope async \<Rightarrow> envelope option async" where
  "returned r = bindA r (\<lambda>result. returnA (Some result))"

definition devCase :: "engine \<Rightarrow> shell \<Rightarrow> fileSystem \<Rightarrow> jsonParser \<Rightarrow> string \<Rightarrow> devArgs option \<Rightarrow> envelope option async option" where
  "devCase E sh fs parse name args =
     (if name = ''docker_ps'' then Some (returned (docker_ps sh args))
      else if name = ''docker_logs'' then Some (returned (docker_logs E sh args))
      else if name = ''docker_exec'' then Some (returned (docker_exec sh args))
      else if name = ''docker_compose'' then Some (returned (docker_compose sh args))
      else if name = ''docker_stats'' then Some (returned (docker_stats sh args))
      else if name = ''run_command'' then Some (returned (run_command sh args))
      else if name = ''monitor_logs'' then Some (returned (monitor_logs E fs args))
      else if name = ''check_ports'' then Some (returned (check_ports E sh args))
      else if name = ''npm_scripts'' then Some (npm_scripts E sh fs parse args)
      else None)"

definition devHandler :: "engine \<Rightarrow> shell \<Rightarrow> fileSystem \<Rightarrow> jsonParser \<Rightarrow> string \<Rightarrow> devArgs option \<Rightarrow> envelope async" where
  "devHandler E sh fs parse name args =
     (case devCase E sh fs parse name args of
        None \<Rightarrow> Some (Inl (Error (''Unknown tool: '' @ name)))
      | Some outcome \<Rightarrow>
          bindA outcome (\<lambda>result.
            case result of
              Some env \<Rightarrow> returnA env
            | None \<Rightarrow> Some (Inl (Error (''Unknown tool: '' @ name)))))"

definition devCallTool :: "engine \<Rightarrow> shell \<Rightarrow> fileSystem \<Rightarrow> jsonParser \<Rightarrow> string \<Rightarrow> devArgs option \<Rightarrow> envelope option" where
  "devCallTool E sh fs parse name args =
     map_option catchEnvelope (devHandler E sh fs parse name args)"

section \<open>The api-testing server (second half of src/database-server.js)\<close>

subsection \<open>performance_test\<close>

text \<open>
  \<^verbatim>\<open>makeRequest\<close> goes to the network and aborts the request after its timeout, so
  it always settles; performance_test reads only the \<^verbatim>\<open>duration\<close> of what it returns
  (a whole number of milliseconds, the difference of two \<^verbatim>\<open>Date.now()\<close>) or the
  message of what it throws. The outcome of the \<open>i\<close>-th call, counted from 0, is a
  parameter. The argument \<^verbatim>\<open>requests\<close> is any number.
\<close>

record requestResult =
  duration :: int

type_synonym requester = "nat \<Rightarrow> jsError + requestResult"

record perfStats =
  totalRequests :: jsNumber
  successfulRequests :: nat
  failedRequests :: nat
  averageTime :: jsNumber
  minTime :: jsNumber
  maxTime :: jsNumber
  times' :: "int list"
  errors :: "string list"

text \<open>
  The \<^verbatim>\<open>for (let i = 0; i < requests; i++)\<close> loop with its try/catch, for a finite
  \<^verbatim>\<open>requests\<close>.
\<close>

function perfLoop :: "requester \<Rightarrow> rat \<Rightarrow> nat \<Rightarrow> int list \<times> string list \<Rightarrow> int list \<times> string list" where
  "perfLoop mk requests i acc =
     (if of_nat i < requests then
        perfLoop mk requests (Suc i)
          (case mk i of
             Inr result \<Rightarrow> (fst acc @ [duration result], snd acc)
           | Inl error \<Rightarrow> (fst acc, snd acc @ [errMsg error]))
      else acc)"
  by pat_completeness auto
termination
  apply (relation "measure (\<lambda>(mk, requests, i, acc). nat \<lceil>requests\<rceil> - i)")
   apply simp
  apply simp
  apply (metis diff_less_mono2 lessI less_ceiling_iff of_int_of_nat_eq zless_nat_eq_int_zless)
  done

declare perfLoop.simps [simp del]

text \<open>
  The counter is a double as well: from \<open>2\<^sup>5\<^sup>3\<close> on \<^verbatim>\<open>i++\<close> leaves it unchanged, so the
  loop ends only for a count up to \<open>2\<^sup>5\<^sup>3\<close>; for a larger or an infinite count the
  handler never returns.
\<close>

definition passes :: "jsNumber \<Rightarrow> rat option" where
  "passes requests =
     (case requests of
        NaN \<Rightarrow> Some 0
      | NegInfinity \<Rightarrow> Some 0
      | PosInfinity \<Rightarrow> None
      | Finite q \<Rightarrow> if q \<le> 2 ^ 53 then Some q else None)"

text \<open>
  \<^verbatim>\<open>times.reduce((a, b) => a + b, 0) / times.length\<close>, in doubles, and
  \<^verbatim>\<open>Math.min(...times)\<close>, \<^verbatim>\<open>Math.max(...times)\<close>: the spread call throws a RangeError when
  the array has more elements than a call can take.
\<close>

definition average :: "int list \<Rightarrow> jsNumber" where
  "average xs = jsDivide (foldl (\<lambda>a b. jsAdd a (Finite (of_int b))) (Finite 0) xs) (length xs)"

definition spreadCall :: "engine \<Rightarrow> 'a list \<Rightarrow> jsError + 'a list" where
  "spreadCall E xs =
     (if maxArguments E < length xs then Inl (RangeError ''Maximum call stack size exceeded'')
      else Inr xs)"

definition mathMin :: "engine \<Rightarrow> int list \<Rightarrow> jsError + jsNumber" where
  "mathMin E xs =
     bindE (spreadCall E xs) (\<lambda>arguments.
       case arguments of [] \<Rightarrow> Inr PosInfinity | y # ys \<Rightarrow> Inr (Finite (of_int (fold min ys y))))"

definition mathMax :: "engine \<Rightarrow> int list \<Rightarrow> jsError + jsNumber" where
  "mathMax E xs =
     bindE (spreadCall E xs) (\<lambda>arguments.
       case arguments of [] \<Rightarrow> Inr NegInfinity | y # ys \<Rightarrow> Inr (Finite (of_int (fold max ys y))))"

definition performance_test :: "engine \<Rightarrow> requester \<Rightarrow> jsNumber option \<Rightarrow> perfStats async" where
  "performance_test E mk requestsArg =
     (let requests = orNumber requestsArg (Finite 10)
      in case passes requests of
           None \<Rightarrow> None
         | Some q \<Rightarrow>
             (case perfLoop mk q 0 ([], []) of (ts, es) \<Rightarrow>
                Some (bindE (mathMin E ts) (\<lambda>lowest.
                      bindE (mathMax E ts) (\<lambda>highest.
                        Inr \<lparr>totalRequests = requests,
                             successfulRequests = length ts,
                             failedRequests = length es,
                             averageTime = average ts,
                             minTime = lowest,
                             maxTime = highest,
                             times' = ts,
                             errors = es\<rparr>)))))"

subsection \<open>validate_response\<close>

text \<open>\<^verbatim>\<open>Array.isArray(value) ? "array" : typeof value\<close>.\<close>

fun actualTypeOf :: "jsval \<Rightarrow> string" where
  "actualTypeOf (JArr _) = ''array''"
| "actualTypeOf JUndefined = ''undefined''"
| "actualTypeOf JNull = ''object''"
| "actualTypeOf (JBool _) = ''boolean''"
| "actualTypeOf (JNum _) = ''number''"
| "actualTypeOf (JStr _) = ''string''"
| "actualTypeOf (JObj _) = ''object''"
| "actualTypeOf (JFunction _) = ''function''"

text \<open>
  \<^verbatim>\<open>schema.required && schema.required.includes(key)\<close>: an array or a string has the
  method \<^verbatim>\<open>includes\<close>; on any other truthy value the call throws.
\<close>

definition isRequired :: "engine \<Rightarrow> jsval \<Rightarrow> string \<Rightarrow> jsError + bool" where
  "isRequired E schema key =
     bindE (getProp E schema ''required'') (\<lambda>required.
       if \<not> truthy required then Inr False
       else case required of
              JArr names \<Rightarrow> Inr (JStr key \<in> set names)
            | JStr s \<Rightarrow> Inr (includesStr s key)
            | _ \<Rightarrow> Inl (TypeError ''schema.required.includes is not a function''))"

definition currentPathOf :: "string \<Rightarrow> string \<Rightarrow> string" where
  "currentPathOf path key = (if path \<noteq> [] then path @ ''.'' @ key else key)"

text \<open>
  The \<^verbatim>\<open>for (const [key, propSchema] of Object.entries(schema.properties))\<close> loop over
  the array \<^verbatim>\<open>errors\<close>.
\<close>

fun validateEntries :: "engine \<Rightarrow> jsval \<Rightarrow> jsval \<Rightarrow> string \<Rightarrow> (string \<times> jsval) list \<Rightarrow> string list \<Rightarrow> jsError + string list" where
  "validateEntries E obj schema path [] errs = Inr errs"
| "validateEntries E obj schema path (entry # rest) errs =
     (case entry of (key, propSchema) \<Rightarrow>
      case getProp E obj key of
        Inl e \<Rightarrow> Inl e
      | Inr v \<Rightarrow>
          let currentPath = currentPathOf path key
          in case isRequired E schema key of
               Inl e \<Rightarrow> Inl e
             | Inr listed \<Rightarrow>
                 if listed \<and> v = JUndefined then
                   validateEntries E obj schema path rest
                     (errs @ [''Missing required field: '' @ currentPath])
                 else if v \<noteq> JUndefined then
                   (case getProp E propSchema ''type'' of
                      Inl e \<Rightarrow> Inl e
                    | Inr expectedType \<Rightarrow>
                        let actualType = actualTypeOf v
                        in if JStr actualType \<noteq> expectedType then
                             (case toStr E expectedType of
                                Inl e \<Rightarrow> Inl e
                              | Inr expected \<Rightarrow>
                                  validateEntries E obj schema path rest
                                    (errs @ [''Type mismatch at '' @ currentPath @ '': expected ''
                                             @ expected @ '', got '' @ actualType]))
                           else validateEntries E obj schema path rest errs)
                 else validateEntries E obj schema path rest errs)"

definition validateObject :: "engine \<Rightarrow> jsval \<Rightarrow> jsval \<Rightarrow> string \<Rightarrow> string list \<Rightarrow> jsError + string list" where
  "validateObject E obj schema path errs =
     bindE (getProp E schema ''type'') (\<lambda>declared.
       if declared \<noteq> JStr ''object'' then Inr errs
       else bindE (getProp E schema ''properties'') (\<lambda>properties.
              if \<not> truthy properties then Inr errs
              else bindE (entriesOf properties) (\<lambda>entries.
                     validateEntries E obj schema path entries errs)))"

text \<open>
  The handler: \<^verbatim>\<open>args.response\<close> and \<^verbatim>\<open>args.schema\<close> may be missing (\<open>JUndefined\<close>).
  The text of the envelope is \<^verbatim>\<open>JSON.stringify({valid, errors}, null, 2)\<close>; the
  serialiser is a parameter.
\<close>

record validateArgs =
  response :: jsval
  schema :: jsval

record validationReport =
  valid :: bool
  findings :: "string list"

definition validate_response :: "engine \<Rightarrow> (validationReport \<Rightarrow> string) \<Rightarrow> validateArgs option \<Rightarrow> jsError + envelope" where
  "validate_response E stringify args =
     bindE (readArgs args ''response'') (\<lambda>a.
     bindE (validateObject E (response a) (schema a) [] []) (\<lambda>errs.
       Inr (okText (stringify \<lparr>valid = (length errs = 0), findings = errs\<rparr>))))"

section \<open>Vocabulary of the statements about the blame parsers\<close>

text \<open>
  A synthetic annotated stream: a commit-info block is a header line, its \<^verbatim>\<open>author\<close>
  and \<^verbatim>\<open>author-time\<close> tag lines, and the content lines under it, each written with its
  leading tab; the stream joins the lines of the blocks with newlines.
\<close>

record block =
  header :: string
  blockAuthor :: string
  blockTime :: string
  contents :: "string list"

definition blockLines :: "block \<Rightarrow> string list" where
  "blockLines b =
     [header b, ''author '' @ blockAuthor b, ''author-time '' @ blockTime b]
     @ map (\<lambda>c. tab # c) (contents b)"

definition streamOf :: "block list \<Rightarrow> string" where
  "streamOf blocks = joinWith [nl] (concat (map blockLines blocks))"

text \<open>A block is well formed when its header is a commit line and no field holds a newline.\<close>

definition oneLine :: "string \<Rightarrow> bool" where
  "oneLine s = (nl \<notin> set s)"

definition wellFormedBlock :: "block \<Rightarrow> bool" where
  "wellFormedBlock b =
     (isCommitLine (header b) \<and> oneLine (header b) \<and> oneLine (blockAuthor b)
      \<and> oneLine (blockTime b) \<and> list_all oneLine (contents b))"

text \<open>
  The records expected for the content lines of a block: the attribution of the block
  on each, the date being the runtime's date text for the author-time of the block,
  read as a whole number of seconds and taken in milliseconds. The second server
  stores no line number.
\<close>

definition blockRecords :: "runtime \<Rightarrow> block \<Rightarrow> blameLine list" where
  "blockRecords R b =
     map (\<lambda>c. \<lparr>hash = Some (take 8 (header b)),
               line = nth_opt (splitOn CHR '' '' (header b)) 2,
               author = Some (blockAuthor b),
               date = Some (toLocaleDateString R
                             (map_option (\<lambda>seconds. seconds * 1000) (parseInt R (blockTime b)))),
               content = c\<rparr>)
         (contents b)"

definition blockRecords2 :: "runtime \<Rightarrow> block \<Rightarrow> blameLine list" where
  "blockRecords2 R b =
     map (\<lambda>c. \<lparr>hash = Some (take 8 (header b)),
               line = None,
               author = Some (blockAuthor b),
               date = Some (toLocaleDateString R
                             (map_option (\<lambda>seconds. seconds * 1000) (parseInt R (blockTime b)))),
               content = c\<rparr>)
         (contents b)"

text \<open>
  A record with no attribution at all, a line that is neither a commit line nor a tag
  line, and a stream in which no tag line comes before the first commit line.
\<close>

definition bare :: "string \<Rightarrow> blameLine" where
  "bare c = \<lparr>hash = None, line = None, author = None, date = None, content = c\<rparr>"

definition isTagLine :: "string \<Rightarrow> bool" where
  "isTagLine l = (startsWith l ''author '' \<or> startsWith l ''author-time '')"

definition isContentLine :: "string \<Rightarrow> bool" where
  "isContentLine l = startsWith l [tab]"

fun tagsFollowCommit :: "string list \<Rightarrow> bool" where
  "tagsFollowCommit [] = True"
| "tagsFollowCommit (l # ls) = (isCommitLine l \<or> (\<not> isTagLine l \<and> tagsFollowCommit ls))"

text \<open>A runtime for the worked examples: only the time stamp 0 parses.\<close>

definition exampleRuntime :: runtime where
  "exampleRuntime =
     \<lparr>parseInt = (\<lambda>s. if s = ''0'' then Some 0 else None),
      toLocaleDateString = (\<lambda>m. case m of None \<Rightarrow> ''Invalid Date'' | Some _ \<Rightarrow> ''1/1/1970'')\<rparr>"

text \<open>
  A runtime that reads two time stamps and prints their days in the \<^verbatim>\<open>en-US\<close> locale
  at UTC.
\<close>

definition datedRuntime :: runtime where
  "datedRuntime =
     \<lparr>parseInt = (\<lambda>s. if s = ''1700000000'' then Some 1700000000
                     else if s = ''86400'' then Some 86400 else None),
      toLocaleDateString =
        (\<lambda>m. if m = Some 1700000000000 then ''11/14/2023''
             else if m = Some 86400000 then ''1/2/1970'' else ''Invalid Date'')\<rparr>"

definition exampleHeader :: string where
  "exampleHeader = ''0123456789abcdef0123456789abcdef01234567 1 7 1''"

text \<open>Arguments for the worked examples.\<close>

definition exampleGitArgs :: gitArgs where
  "exampleGitArgs =
     \<lparr>repoPath = Some ''/repo'', limit = None, branch = None, staged = None,
      file' = Some ''a.c'', commit1 = None, commit2 = None, remote = None, query = None,
      searchType = None, files = None, message = None, force = None\<rparr>"

definition exampleDevArgs :: devArgs where
  "exampleDevArgs =
     \<lparr>all = None, container = None, tail = None, follow = None, command = Some ''make test'',
      action = None, projectPath = None, service = None, workingDir = None,
      logPath = Some ''/var/log/app.log'', lines = None, port = None, scriptName = None\<rparr>"

text \<open>
  An engine for the worked examples: it prints numbers that are not whole with six
  decimals at most (enough for the examples), spreads up to 120000 arguments and finds
  nothing on any prototype.
\<close>

definition exampleEngine :: engine where
  "exampleEngine =
     \<lparr>numberToString = (\<lambda>q. if q = 5 / 2 then ''2.5'' else ''?''),
      maxArguments = 120000,
      inherited = (\<lambda>v k. JUndefined)\<rparr>"

section \<open>Vocabulary of the statements about the validator\<close>

text \<open>
  The properties that the validator visits, in the order in which it visits them: the
  entries of \<^verbatim>\<open>shape.properties\<close> as \<^verbatim>\<open>Object.entries\<close> lists them, when the shape has
  type \<^verbatim>\<open>object\<close> and truthy properties, and none otherwise.
\<close>

definition declared :: "engine \<Rightarrow> jsval \<Rightarrow> (string \<times> jsval) list" where
  "declared E shape =
     (case getProp E shape ''type'' of
        Inr t \<Rightarrow>
          if t = JStr ''object'' then
            (case getProp E shape ''properties'' of
               Inr ps \<Rightarrow> if truthy ps then (case entriesOf ps of Inr es \<Rightarrow> es | Inl _ \<Rightarrow> []) else []
             | Inl _ \<Rightarrow> [])
          else []
      | Inl _ \<Rightarrow> [])"

text \<open>
  A shape is well formed when \<^verbatim>\<open>required\<close> is missing (or falsy), an array or a string,
  and every property that is visited declares a type tag that is a string, or none.
\<close>

definition requiredOf :: "engine \<Rightarrow> jsval \<Rightarrow> jsval" where
  "requiredOf E shape = (case getProp E shape ''required'' of Inr r \<Rightarrow> r | Inl _ \<Rightarrow> JUndefined)"

definition declaredType :: "engine \<Rightarrow> jsval \<Rightarrow> jsval" where
  "declaredType E propShape = (case getProp E propShape ''type'' of Inr t \<Rightarrow> t | Inl _ \<Rightarrow> JNull)"

definition isTag :: "jsval \<Rightarrow> bool" where
  "isTag t = (case t of JStr s \<Rightarrow> True | JUndefined \<Rightarrow> True | _ \<Rightarrow> False)"

definition wellFormedShape :: "engine \<Rightarrow> jsval \<Rightarrow> bool" where
  "wellFormedShape E shape =
     ((case requiredOf E shape of JArr names \<Rightarrow> True | JStr s \<Rightarrow> True | r \<Rightarrow> \<not> truthy r)
      \<and> list_all (\<lambda>entry. snd entry \<noteq> JNull \<and> snd entry \<noteq> JUndefined
                          \<and> isTag (declaredType E (snd entry)))
            (declared E shape))"

text \<open>
  The findings for one declared property, following the specification's words: if the
  property is listed in \<^verbatim>\<open>required\<close> and the field is absent, one missing-required
  error and no further check; otherwise, if the field is present and its runtime type tag
  differs from the declared one, one type-mismatch error naming both tags; otherwise
  nothing.
\<close>

definition fieldOf :: "engine \<Rightarrow> jsval \<Rightarrow> string \<Rightarrow> jsval" where
  "fieldOf E obj key = (case getProp E obj key of Inr v \<Rightarrow> v | Inl _ \<Rightarrow> JUndefined)"

definition listed :: "engine \<Rightarrow> jsval \<Rightarrow> string \<Rightarrow> bool" where
  "listed E shape key =
     (case requiredOf E shape of
        JArr names \<Rightarrow> JStr key \<in> set names
      | JStr s \<Rightarrow> s \<noteq> [] \<and> includesStr s key
      | _ \<Rightarrow> False)"

definition tagText :: "jsval \<Rightarrow> string" where
  "tagText t = (case t of JStr s \<Rightarrow> s | _ \<Rightarrow> ''undefined'')"

definition fieldFindings :: "engine \<Rightarrow> jsval \<Rightarrow> jsval \<Rightarrow> string \<Rightarrow> string \<times> jsval \<Rightarrow> string list" where
  "fieldFindings E obj shape path entry =
     (if listed E shape (fst entry) \<and> fieldOf E obj (fst entry) = JUndefined then
        [''Missing required field: '' @ currentPathOf path (fst entry)]
      else if fieldOf E obj (fst entry) \<noteq> JUndefined
              \<and> JStr (actualTypeOf (fieldOf E obj (fst entry))) \<noteq> declaredType E (snd entry) then
        [''Type mismatch at '' @ currentPathOf path (fst entry) @ '': expected ''
         @ tagText (declaredType E (snd entry)) @ '', got ''
         @ actualTypeOf (fieldOf E obj (fst entry))]
      else [])"

text \<open>
  The shape of the specification's boundary example,
  \<^verbatim>\<open>{type: object, properties: {id: {type: number}}, required: [id]}\<close>, the same shape
  without its \<^verbatim>\<open>type\<close>, and a shape whose properties are written in the order
  \<^verbatim>\<open>b\<close>, \<^verbatim>\<open>1\<close>, \<^verbatim>\<open>a\<close>, all of them required.
\<close>

definition idShape :: jsval where
  "idShape =
     JObj [(''type'', JStr ''object''),
           (''properties'', JObj [(''id'', JObj [(''type'', JStr ''number'')])]),
           (''required'', JArr [JStr ''id''])]"

definition untypedIdShape :: jsval where
  "untypedIdShape =
     JObj [(''properties'', JObj [(''id'', JObj [(''type'', JStr ''number'')])]),
           (''required'', JArr [JStr ''id''])]"

definition orderShape :: jsval where
  "orderShape =
     JObj [(''type'', JStr ''object''),
           (''properties'', JObj [(''b'', JObj [(''type'', JStr ''string'')]),
                                  (''1'', JObj [(''type'', JStr ''string'')]),
                                  (''a'', JObj [(''type'', JStr ''string'')])]),
           (''required'', JArr [JStr ''b'', JStr ''1'', JStr ''a''])]"

section \<open>Vocabulary of the statements about the runner and the dispatchers\<close>

text \<open>The command line that git_push hands to the runner.\<close>

definition pushCommand :: "gitArgs \<Rightarrow> string" where
  "pushCommand a =
     trim (gitC a @ '' push '' @ (if force a = Some True then ''--force'' else []) @ '' ''
           @ orRemote (remote a) ''origin'' @ '' '' @ orStr (branch a) [])"

text \<open>
  Two operating systems for the worked examples: one on which every command writes
  \<^verbatim>\<open>built\<close> to stdout and \<^verbatim>\<open>advisory\<close> to stderr and ends with the given exit code, and
  one on which every command stays alive without a word, as \<^verbatim>\<open>docker logs -f\<close> does on
  a silent container. The example file system has no file and the example parser no
  valid text.
\<close>

definition endingWith :: "int \<Rightarrow> shell" where
  "endingWith code = (\<lambda>cwd cmd. Runs [Stdout ''built'', Stderr ''advisory''] (ExitCode code))"

definition silent :: shell where
  "silent = (\<lambda>cwd cmd. Runs [] StaysAlive)"

definition noFiles :: fileSystem where
  "noFiles = (\<lambda>p. Some (Inl (Error ''ENOENT: no such file or directory'')))"

definition noJson :: jsonParser where
  "noJson = (\<lambda>t. Inl (Error ''Unexpected token''))"

section \<open>Properties of the commit classifier\<close>








text \<open>
  C4, as stated, fails twice. The record \<^verbatim>\<open>{A, package.json}\<close> alone is a change list
  with one Added record and no Modified or Deleted one, and the classifier returns
  \<^verbatim>\<open>chore\<close>, not \<^verbatim>\<open>feat\<close>: the dependency override runs after the chain. And the list
  \<^verbatim>\<open>{A, a.ts}, {R100, b.ts}\<close> takes the \<^verbatim>\<open>feat\<close> branch although not every change is an
  Added file.
\<close>

theorem classify_feat_counterexample:
  "filter (hasStatus ''A'') [\<lparr>status = ''A'', filePath = Some ''package.json''\<rparr>] \<noteq> []
   \<and> filter (hasStatus ''M'') [\<lparr>status = ''A'', filePath = Some ''package.json''\<rparr>] = []
   \<and> filter (hasStatus ''D'') [\<lparr>status = ''A'', filePath = Some ''package.json''\<rparr>] = []
   \<and> classify [\<lparr>status = ''A'', filePath = Some ''package.json''\<rparr>]
       = Inr (''chore'', ''update dependencies or project config'')
   \<and> \<not> list_all (hasStatus ''A'')
         [\<lparr>status = ''A'', filePath = Some ''a.ts''\<rparr>, \<lparr>status = ''R100'', filePath = Some ''b.ts''\<rparr>]
   \<and> classify [\<lparr>status = ''A'', filePath = Some ''a.ts''\<rparr>, \<lparr>status = ''R100'', filePath = Some ''b.ts''\<rparr>]
       = Inr (''feat'', ''add '' @ [CHR 0x27] @ ''a.ts'' @ [CHR 0x27])"
  by (simp add: classify_def hasStatus_def startsWith_def isManifest_def bindE_def quoted_def
      tpl_def)

text \<open>
  C4, amended. For every change list with at least one Added record, no Modified or
  Deleted record and no record whose path is \<^verbatim>\<open>package.json\<close> or \<^verbatim>\<open>package-lock.json\<close>,
  whether or not Renamed or other records are present, the classifier returns type
  \<^verbatim>\<open>feat\<close>, with summary \<^verbatim>\<open>add '<path>'\<close> when exactly one record is Added and
  \<^verbatim>\<open>add N new files\<close> otherwise, N the number of Added records.
\<close>

theorem classify_feat_branch:
  assumes "filter (hasStatus ''A'') fs \<noteq> []"
    and "filter (hasStatus ''M'') fs = []"
    and "filter (hasStatus ''D'') fs = []"
    and "\<forall>f\<in>set fs. \<not> isManifest f"
  shows "classify fs = Inr (''feat'', ''add '' @
           (if length (filter (hasStatus ''A'') fs) = 1
            then [CHR 0x27] @ tpl (filePath (hd (filter (hasStatus ''A'') fs))) @ [CHR 0x27]
            else showNat (length (filter (hasStatus ''A'') fs)) @ '' new files''))"
proof -
  define n where "n = length (filter (hasStatus ''A'') fs)"
  have pos: "0 < n" using assms(1) by (simp add: n_def)
  have eq: "(1 < n) = (n \<noteq> 1)" using pos by auto
  have nd: "\<not> list_ex isManifest fs"
    using assms(4) by (simp add: list_ex_iff)
  show ?thesis
    unfolding classify_def Let_def n_def[symmetric]
    using assms(2,3) nd pos eq by (simp add: bindE_def quoted_def)
qed

theorem classify_feat_branch_witness:
  "filter (hasStatus ''A'')
     [\<lparr>status = ''A'', filePath = Some ''a.ts''\<rparr>, \<lparr>status = ''R100'', filePath = Some ''b.ts''\<rparr>,
      \<lparr>status = ''A'', filePath = Some ''c.ts''\<rparr>] \<noteq> []
   \<and> classify
       [\<lparr>status = ''A'', filePath = Some ''a.ts''\<rparr>, \<lparr>status = ''R100'', filePath = Some ''b.ts''\<rparr>,
        \<lparr>status = ''A'', filePath = Some ''c.ts''\<rparr>]
       = Inr (''feat'', ''add 2 new files'')"
  using classify_feat_branch[of
      "[\<lparr>status = ''A'', filePath = Some ''a.ts''\<rparr>, \<lparr>status = ''R100'', filePath = Some ''b.ts''\<rparr>,
        \<lparr>status = ''A'', filePath = Some ''c.ts''\<rparr>]"]
  by (simp add: hasStatus_def startsWith_def isManifest_def showNat.simps)

section \<open>Properties of performance_test\<close>

subsection \<open>Whole numbers up to \<open>2\<^sup>5\<^sup>3\<close> are doubles\<close>

lemma bits_pos: "0 < n \<Longrightarrow> bits n = Suc (bits (n div 2))"
  by (subst bits.simps) simp

lemma bits_nonpos: "n \<le> 0 \<Longrightarrow> bits n = 0"
  by (subst bits.simps) simp

lemma bits_one: "bits 1 = 1"
  by (simp add: bits_pos bits_nonpos)

lemma bits_lower: "0 < n \<Longrightarrow> 2 ^ (bits n - 1) \<le> n"
proof (induction n rule: bits.induct)
  case (1 n)
  show ?case
  proof (cases "0 < n div 2")
    case True
    then have ih: "2 ^ (bits (n div 2) - 1) \<le> n div 2"
      using 1 by simp
    have b: "bits (n div 2) = Suc (bits (n div 2) - 1)"
      using True by (simp add: bits_pos)
    have "(2::int) ^ (bits n - 1) = 2 ^ bits (n div 2)"
      using "1.prems" by (simp add: bits_pos)
    also have "\<dots> = 2 * 2 ^ (bits (n div 2) - 1)"
      by (subst b) simp
    also have "\<dots> \<le> 2 * (n div 2)"
      using ih by simp
    also have "\<dots> \<le> n"
      by simp
    finally show ?thesis .
  next
    case False
    then have "n div 2 \<le> 0" by simp
    then show ?thesis
      using "1.prems" by (simp add: bits_pos bits_nonpos)
  qed
qed

lemma ilog2_of_int:
  assumes "0 < n"
  shows "ilog2 (of_int n) = int (bits n) - 1"
proof -
  have q: "quotient_of (of_int n) = (n, 1)"
    by (simp add: quotient_of_int)
  have "1 \<le> bits n"
    using assms by (simp add: bits_pos)
  then have "pow2 (int (bits n) - 1) = 2 ^ (bits n - 1)"
    by (simp add: pow2_def nat_diff_distrib')
  also have "\<dots> = of_int (2 ^ (bits n - 1))"
    by simp
  also have "\<dots> \<le> of_int n"
    using bits_lower[OF assms] by (simp only: of_int_le_iff)
  finally show ?thesis
    by (simp add: ilog2_def q bits_one Let_def)
qed

lemma roundHalfEven_of_int: "roundHalfEven (of_int z) = z"
  by (simp add: roundHalfEven_def)

lemma roundDouble_nat:
  assumes "0 < n" and "n \<le> 2 ^ 53"
  shows "roundDouble (of_int n) = Finite (of_int n)"
proof -
  define e where "e = int (bits n) - 1"
  have e0: "0 \<le> e"
    using assms(1) by (simp add: e_def bits_pos)
  have lower: "2 ^ nat e \<le> n"
    using bits_lower[OF assms(1)] by (simp add: e_def nat_diff_distrib')
  have e53: "e \<le> 53"
  proof (rule ccontr)
    assume "\<not> e \<le> 53"
    then have "54 \<le> nat e" by simp
    then have "(2::int) ^ 54 \<le> 2 ^ nat e"
      by (rule power_increasing) simp
    then show False using lower assms(2) by simp
  qed
  have il: "ilog2 (of_int n) = e"
    using ilog2_of_int[OF assms(1)] by (simp add: e_def)
  have ex: "\<exists>z. rat_of_int n / pow2 (e - 52) = of_int z"
  proof (cases "e \<le> 52")
    case True
    then have "pow2 (e - 52) = 1 / 2 ^ nat (52 - e)"
      by (cases "e = 52") (simp_all add: pow2_def)
    then have "rat_of_int n / pow2 (e - 52) = of_int (n * 2 ^ nat (52 - e))"
      by simp
    then show ?thesis by blast
  next
    case False
    then have e: "e = 53" using e53 by simp
    then have "n = 2 ^ 53" using lower assms(2) by simp
    then have "rat_of_int n / pow2 (e - 52) = of_int (2 ^ 52)"
      using e by (simp add: pow2_def)
    then show ?thesis by blast
  qed
  then obtain z where z: "rat_of_int n / pow2 (e - 52) = of_int z" by blast
  have up: "pow2 (e - 52) \<noteq> 0"
    by (simp add: pow2_def)
  have restored: "of_int z * pow2 (e - 52) = rat_of_int n"
    using z up by (simp add: field_simps)
  have small: "\<not> pow2 1024 \<le> rat_of_int n"
  proof -
    have "rat_of_int n \<le> of_int (2 ^ 53)"
      using assms(2) by (simp only: of_int_le_iff)
    also have "\<dots> < pow2 1024"
      by (simp add: pow2_def)
    finally show ?thesis by simp
  qed
  have m: "max e (- 1022) = e" using e0 by simp
  have a: "\<bar>rat_of_int n\<bar> = of_int n" using assms(1) by simp
  show ?thesis
    unfolding roundDouble_def Let_def a il m z roundHalfEven_of_int restored
    using assms(1) small by simp
qed

lemma roundDouble_neg: "roundDouble (- q) = negate (roundDouble q)"
  by (auto simp: roundDouble_def negate_def Let_def)

lemma roundDouble_of_int:
  assumes "\<bar>k\<bar> \<le> 2 ^ 53"
  shows "roundDouble (of_int k) = Finite (of_int k)"
proof -
  consider "k = 0" | "0 < k" | "k < 0" by linarith
  then show ?thesis
  proof cases
    case 1
    then show ?thesis by (simp add: roundDouble_def)
  next
    case 2
    then show ?thesis using assms roundDouble_nat[of k] by simp
  next
    case 3
    then have "roundDouble (of_int (- k)) = Finite (of_int (- k))"
      using assms roundDouble_nat[of "- k"] by simp
    then have "negate (roundDouble (of_int k)) = Finite (- of_int k)"
      using roundDouble_neg[of "of_int k"] by simp
    then show ?thesis
      by (cases "roundDouble (rat_of_int k)") (simp_all add: negate_def)
  qed
qed

lemma sum_abs_nonneg: "0 \<le> sum_list (map abs (xs :: int list))"
  by (induction xs) auto

lemma sum_exact:
  "\<bar>s\<bar> + sum_list (map abs xs) \<le> 2 ^ 53 \<Longrightarrow>
   foldl (\<lambda>a b. jsAdd a (Finite (of_int b))) (Finite (of_int s)) xs
   = Finite (of_int (s + sum_list xs))"
proof (induction xs arbitrary: s)
  case Nil
  then show ?case by simp
next
  case (Cons x xs)
  have "\<bar>s + x\<bar> \<le> 2 ^ 53"
    using Cons.prems sum_abs_nonneg[of xs] by simp
  then have step: "jsAdd (Finite (of_int s)) (Finite (of_int x)) = Finite (of_int (s + x))"
    using roundDouble_of_int[of "s + x"] by simp
  have "\<bar>s + x\<bar> + sum_list (map abs xs) \<le> 2 ^ 53"
    using Cons.prems by simp
  then show ?case
    using Cons.IH[of "s + x"] step by (simp add: add.assoc)
qed

lemma average_exact:
  assumes "xs \<noteq> []" and "sum_list (map abs xs) \<le> 2 ^ 53"
  shows "average xs = roundDouble (of_int (sum_list xs) / of_nat (length xs))"
  using assms sum_exact[of 0 xs] by (simp add: average_def)

subsection \<open>The loop and the extremes\<close>

lemma less_ceiling_nat: "(rat_of_nat i < q) = (i < nat \<lceil>q\<rceil>)"
  using less_ceiling_iff[of "int i" q] by auto

lemma perfLoop_all_succeed:
  "(\<And>j. i \<le> j \<Longrightarrow> j < nat \<lceil>requests\<rceil> \<Longrightarrow> mk j = Inr \<lparr>duration = d j\<rparr>)
   \<Longrightarrow> perfLoop mk requests i (ts, es) = (ts @ map d [i..<nat \<lceil>requests\<rceil>], es)"
proof (induction mk requests i "(ts, es)" arbitrary: ts es rule: perfLoop.induct)
  case (1 mk requests i)
  show ?case
  proof (cases "i < nat \<lceil>requests\<rceil>")
    case True
    then have step: "mk i = Inr \<lparr>duration = d i\<rparr>"
      using "1.prems"[of i] by simp
    have rest: "perfLoop mk requests (Suc i) (ts @ [d i], es)
                = ((ts @ [d i]) @ map d [Suc i..<nat \<lceil>requests\<rceil>], es)"
      using "1.hyps"[of "ts @ [d i]" es] True step "1.prems" by (simp add: less_ceiling_nat)
    have "[i..<nat \<lceil>requests\<rceil>] = i # [Suc i..<nat \<lceil>requests\<rceil>]"
      using True by (simp add: upt_conv_Cons)
    then show ?thesis
      using True step rest by (subst perfLoop.simps) (simp add: less_ceiling_nat)
  next
    case False
    then show ?thesis
      by (subst perfLoop.simps) (simp add: less_ceiling_nat)
  qed
qed

lemma mathMin_nonempty:
  assumes "xs \<noteq> []" and "length xs \<le> maxArguments E"
  shows "mathMin E xs = Inr (Finite (of_int (Min (set xs))))"
proof (cases xs)
  case Nil
  then show ?thesis using assms by simp
next
  case (Cons y ys)
  then show ?thesis
    using Min.set_eq_fold[of y ys] assms(2) by (simp add: mathMin_def spreadCall_def bindE_def)
qed

lemma mathMax_nonempty:
  assumes "xs \<noteq> []" and "length xs \<le> maxArguments E"
  shows "mathMax E xs = Inr (Finite (of_int (Max (set xs))))"
proof (cases xs)
  case Nil
  then show ?thesis using assms by simp
next
  case (Cons y ys)
  then show ?thesis
    using Max.set_eq_fold[of y ys] assms(2) by (simp add: mathMax_def spreadCall_def bindE_def)
qed

text \<open>
  C7, as stated, fails in three ways. With \<^verbatim>\<open>requests\<close> 2.5 the loop makes three
  sub-requests, all of which succeed, and the aggregate reports totalRequests 2.5, not 3.
  The average is a double: for the durations 20, 20, 21 it is the double nearest to
  61/3, which is not 61/3. And when there are more durations than a call can spread (here
  120001 on an engine that spreads 120000), \<^verbatim>\<open>Math.min(...times)\<close> throws a RangeError and
  no aggregate is reported at all.
\<close>

theorem performance_test_counterexample:
  "performance_test exampleEngine (\<lambda>i. Inr \<lparr>duration = 10\<rparr>) (Some (Finite (5 / 2)))
     = Some (Inr \<lparr>totalRequests = Finite (5 / 2), successfulRequests = 3, failedRequests = 0,
                  averageTime = Finite 10, minTime = Finite 10, maxTime = Finite 10,
                  times' = [10, 10, 10], errors = []\<rparr>)
   \<and> performance_test exampleEngine (\<lambda>i. Inr \<lparr>duration = [20, 20, 21] ! i\<rparr>) (Some (Finite 3))
     = Some (Inr \<lparr>totalRequests = Finite 3, successfulRequests = 3, failedRequests = 0,
                  averageTime = Finite (5723324526450005 / 281474976710656),
                  minTime = Finite 20, maxTime = Finite 21,
                  times' = [20, 20, 21], errors = []\<rparr>)
   \<and> Finite (5723324526450005 / 281474976710656) \<noteq> Finite (61 / 3)
   \<and> performance_test exampleEngine (\<lambda>i. Inr \<lparr>duration = 1\<rparr>) (Some (Finite 120001))
     = Some (Inl (RangeError ''Maximum call stack size exceeded''))"
proof -
  have "perfLoop (\<lambda>i. Inr \<lparr>duration = 10\<rparr>) (5 / 2) 0 ([], [])
        = ([] @ map (\<lambda>i. 10) [0..<nat \<lceil>5 / 2 :: rat\<rceil>], [])"
    by (rule perfLoop_all_succeed) simp
  moreover have "\<lceil>5 / 2 :: rat\<rceil> = 3"
    by (rule ceiling_unique) simp_all
  ultimately have loop1:
    "perfLoop (\<lambda>i. Inr \<lparr>duration = 10\<rparr>) (5 / 2) 0 ([], []) = ([10, 10, 10], [])"
    by (simp add: numeral_3_eq_3)
  have ten: "average [10, 10, 10] = Finite 10"
    using average_exact[of "[10, 10, 10]"] roundDouble_of_int[of 10] by simp
  have fraction: "performance_test exampleEngine (\<lambda>i. Inr \<lparr>duration = 10\<rparr>) (Some (Finite (5 / 2)))
     = Some (Inr \<lparr>totalRequests = Finite (5 / 2), successfulRequests = 3, failedRequests = 0,
                  averageTime = Finite 10, minTime = Finite 10, maxTime = Finite 10,
                  times' = [10, 10, 10], errors = []\<rparr>)"
    by (simp add: performance_test_def orNumber_def passes_def loop1 ten mathMin_def mathMax_def
        spreadCall_def bindE_def exampleEngine_def)
  have "perfLoop (\<lambda>i. Inr \<lparr>duration = [20, 20, 21] ! i\<rparr>) 3 0 ([], [])
        = ([] @ map (\<lambda>i. [20, 20, 21] ! i) [0..<nat \<lceil>3 :: rat\<rceil>], [])"
    by (rule perfLoop_all_succeed) simp
  then have loop2: "perfLoop (\<lambda>i. Inr \<lparr>duration = [20, 20, 21] ! i\<rparr>) 3 0 ([], [])
                    = ([20, 20, 21], [])"
    by (simp add: numeral_3_eq_3)
  have nearest: "roundDouble (61 / 3) = Finite (5723324526450005 / 281474976710656)"
    by code_simp
  have third: "average [20, 20, 21] = Finite (5723324526450005 / 281474976710656)"
    using average_exact[of "[20, 20, 21]"] nearest by simp
  have rounding: "performance_test exampleEngine (\<lambda>i. Inr \<lparr>duration = [20, 20, 21] ! i\<rparr>)
       (Some (Finite 3))
     = Some (Inr \<lparr>totalRequests = Finite 3, successfulRequests = 3, failedRequests = 0,
                  averageTime = Finite (5723324526450005 / 281474976710656),
                  minTime = Finite 20, maxTime = Finite 21,
                  times' = [20, 20, 21], errors = []\<rparr>)"
    by (simp add: performance_test_def orNumber_def passes_def loop2 third mathMin_def
        mathMax_def spreadCall_def bindE_def exampleEngine_def)
  have differ: "Finite (5723324526450005 / 281474976710656) \<noteq> Finite (61 / 3)"
    by simp
  have "perfLoop (\<lambda>i. Inr \<lparr>duration = 1\<rparr>) 120001 0 ([], [])
        = ([] @ map (\<lambda>i. 1) [0..<nat \<lceil>120001 :: rat\<rceil>], [])"
    by (rule perfLoop_all_succeed) simp
  then have spread: "performance_test exampleEngine (\<lambda>i. Inr \<lparr>duration = 1\<rparr>) (Some (Finite 120001))
     = Some (Inl (RangeError ''Maximum call stack size exceeded''))"
    by (simp add: performance_test_def orNumber_def passes_def mathMin_def spreadCall_def
        bindE_def exampleEngine_def)
  show ?thesis
    using fraction rounding differ spread by blast
qed

text \<open>
  C7, amended. Let the requested count be a number \<open>q\<close> with \<open>0 < q \<le> 2\<^sup>5\<^sup>3\<close> (10 when
  the argument is absent or zero), so that the loop makes \<open>N = \<lceil>q\<rceil>\<close> sub-requests, and
  let all of them succeed, with durations \<open>ds = d\<^sub>1 .. d\<^sub>N\<close> in the order of the calls,
  whose magnitudes add up to \<open>2\<^sup>5\<^sup>3\<close> at most, \<open>N\<close> being no more than a call can spread.
  Then the handler returns the aggregate with totalRequests \<open>q\<close> (which is \<open>N\<close> when the
  count is whole), successfulRequests \<open>N\<close>, failedRequests 0, averageTime the double
  nearest to the sum of the durations over \<open>N\<close>, minTime and maxTime the least and the
  greatest duration, and the durations recorded in order.
\<close>

theorem performance_test_all_succeed:
  assumes "orNumber requestsArg (Finite 10) = Finite q"
    and "0 < q" and "q \<le> 2 ^ 53"
    and "length ds = nat \<lceil>q\<rceil>"
    and "\<forall>i<length ds. mk i = Inr \<lparr>duration = ds ! i\<rparr>"
    and "length ds \<le> maxArguments E"
    and "sum_list (map abs ds) \<le> 2 ^ 53"
  shows "performance_test E mk requestsArg =
           Some (Inr \<lparr>totalRequests = Finite q,
                      successfulRequests = length ds,
                      failedRequests = 0,
                      averageTime = roundDouble (of_int (sum_list ds) / of_nat (length ds)),
                      minTime = Finite (of_int (Min (set ds))),
                      maxTime = Finite (of_int (Max (set ds))),
                      times' = ds,
                      errors = []\<rparr>)
       \<and> (q = of_nat (length ds) \<longrightarrow>
            map_option (map_sum id totalRequests) (performance_test E mk requestsArg)
            = Some (Inr (Finite (of_nat (length ds)))))"
proof -
  have nonempty: "ds \<noteq> []"
    using assms(2,4) by auto
  have calls: "\<And>j. 0 \<le> j \<Longrightarrow> j < nat \<lceil>q\<rceil> \<Longrightarrow> mk j = Inr \<lparr>duration = ds ! j\<rparr>"
    using assms(4,5) by simp
  have "perfLoop mk q 0 ([], []) = ([] @ map (\<lambda>j. ds ! j) [0..<nat \<lceil>q\<rceil>], [])"
    using calls by (rule perfLoop_all_succeed)
  also have "map (\<lambda>j. ds ! j) [0..<nat \<lceil>q\<rceil>] = ds"
    using assms(4) map_nth[of ds] by simp
  finally have loop: "perfLoop mk q 0 ([], []) = (ds, [])"
    by simp
  have "performance_test E mk requestsArg =
           Some (Inr \<lparr>totalRequests = Finite q,
                      successfulRequests = length ds,
                      failedRequests = 0,
                      averageTime = roundDouble (of_int (sum_list ds) / of_nat (length ds)),
                      minTime = Finite (of_int (Min (set ds))),
                      maxTime = Finite (of_int (Max (set ds))),
                      times' = ds,
                      errors = []\<rparr>)"
    unfolding performance_test_def Let_def assms(1)
    using assms(3) loop
    by (simp add: passes_def bindE_def average_exact[OF nonempty assms(7)]
        mathMin_nonempty[OF nonempty assms(6)] mathMax_nonempty[OF nonempty assms(6)])
  then show ?thesis
    by simp
qed

theorem performance_test_all_succeed_witness:
  "orNumber (Some (Finite 3)) (Finite 10) = Finite 3
   \<and> length [10, 20, 30 :: int] = nat \<lceil>3 :: rat\<rceil>
   \<and> length [10, 20, 30 :: int] \<le> maxArguments exampleEngine
   \<and> sum_list (map abs [10, 20, 30 :: int]) \<le> 2 ^ 53
   \<and> performance_test exampleEngine (\<lambda>i. Inr \<lparr>duration = [10, 20, 30] ! i\<rparr>)
        (Some (Finite 3)) =
       Some (Inr \<lparr>totalRequests = Finite 3, successfulRequests = 3, failedRequests = 0,
                  averageTime = Finite 20, minTime = Finite 10, maxTime = Finite 30,
                  times' = [10, 20, 30], errors = []\<rparr>)"
proof -
  have count: "orNumber (Some (Finite 3)) (Finite 10) = Finite 3"
    by (simp add: orNumber_def)
  have calls: "\<forall>i<length [10, 20, 30 :: int].
                 (\<lambda>i. Inr \<lparr>duration = [10, 20, 30] ! i\<rparr>) i = Inr \<lparr>duration = [10, 20, 30] ! i\<rparr>"
    by simp
  have spread: "length [10, 20, 30 :: int] \<le> maxArguments exampleEngine"
    by (simp add: exampleEngine_def)
  have twenty: "roundDouble 20 = Finite 20"
    using roundDouble_of_int[of 20] by simp
  show ?thesis
    using count spread twenty
      performance_test_all_succeed[of "Some (Finite 3)" 3 "[10, 20, 30]"
        "\<lambda>i. Inr \<lparr>duration = [10, 20, 30] ! i\<rparr>" exampleEngine, OF count _ _ _ calls spread]
    by simp
qed

section \<open>Properties of the blame parsers\<close>

subsection \<open>Splitting and joining lines\<close>

lemma splitOn_nonempty: "splitOn c s \<noteq> []"
  by (induction s) (auto split: list.splits)

lemma splitOn_no_sep: "c \<notin> set s \<Longrightarrow> splitOn c s = [s]"
  by (induction s) auto

lemma splitOn_append_sep: "c \<notin> set x \<Longrightarrow> splitOn c (x @ c # r) = x # splitOn c r"
  by (induction x) auto

lemma splitOn_joinWith:
  "ls \<noteq> [] \<Longrightarrow> \<forall>l\<in>set ls. c \<notin> set l \<Longrightarrow> splitOn c (joinWith [c] ls) = ls"
proof (induction "[c]" ls rule: joinWith.induct)
  case 1
  then show ?case by simp
next
  case (2 x)
  then show ?case by (simp add: splitOn_no_sep)
next
  case (3 x y ys)
  then show ?case by (simp add: splitOn_append_sep)
qed

lemma hd_splitOn: "hd (splitOn c s) = takeWhile (\<lambda>x. x \<noteq> c) s"
  by (induction s) (auto split: list.splits simp: splitOn_nonempty)

lemma take_takeWhile:
  "list_all P (take n s) \<Longrightarrow> m \<le> n \<Longrightarrow> take m (takeWhile P s) = take m s"
proof (induction s arbitrary: n m)
  case Nil
  then show ?case by simp
next
  case (Cons x s)
  show ?case
  proof (cases m)
    case 0
    then show ?thesis by simp
  next
    case (Suc m')
    then obtain n' where n: "n = Suc n'"
      using Cons.prems(2) by (cases n) auto
    then show ?thesis
      using Cons.prems Cons.IH[of n' m'] Suc by simp
  qed
qed

lemma isHex_not_space: "isHex x \<Longrightarrow> x \<noteq> CHR '' ''"
  by (auto simp: isHex_def)

lemma short_hash_of_header:
  assumes "isCommitLine h"
  shows "take 8 (hd (splitOn CHR '' '' h)) = take 8 h"
proof -
  have "list_all (\<lambda>x. x \<noteq> CHR '' '') (take 40 h)"
    using assms isHex_not_space by (auto simp: isCommitLine_def list_all_iff)
  then show ?thesis
    by (simp add: hd_splitOn take_takeWhile[where n = 40])
qed

subsection \<open>One pass of the loop body on each kind of line\<close>

lemma commit_line_starts_hex: "isCommitLine (x # l) \<Longrightarrow> isHex x"
  unfolding isCommitLine_def by simp

lemma content_not_commit: "\<not> isCommitLine (tab # c)"
  using commit_line_starts_hex[of tab c] by (auto simp: isHex_def tab_def)

lemma author_line_not_commit: "l = ''author '' @ a \<Longrightarrow> \<not> isCommitLine l"
  unfolding isCommitLine_def by (simp add: isHex_def)

lemma time_line_not_commit: "l = ''author-time '' @ t \<Longrightarrow> \<not> isCommitLine l"
  unfolding isCommitLine_def by (simp add: isHex_def)

lemma blameStep_header:
  "isCommitLine h \<Longrightarrow> blameStep R (cur, acc) h = (newInfo h, acc)"
  by (simp add: blameStep_def)

lemma blameStep_author:
  assumes "l = ''author '' @ a"
  shows "blameStep R (cur, acc) l = (cur\<lparr>author := Some a\<rparr>, acc)"
proof -
  have "\<not> isCommitLine l" using assms by (rule author_line_not_commit)
  moreover have "startsWith l ''author ''" and "drop 7 l = a"
    using assms by (simp_all add: startsWith_def)
  ultimately show ?thesis by (simp add: blameStep_def)
qed

lemma blameStep_time:
  assumes "l = ''author-time '' @ t"
  shows "blameStep R (cur, acc) l = (cur\<lparr>date := Some (dateOf R t)\<rparr>, acc)"
proof -
  have "\<not> isCommitLine l" using assms by (rule time_line_not_commit)
  moreover have "\<not> startsWith l ''author ''" and "startsWith l ''author-time ''"
    and "drop 12 l = t"
    using assms by (simp_all add: startsWith_def)
  ultimately show ?thesis by (simp add: blameStep_def)
qed

lemma blameStep_content:
  "blameStep R (cur, acc) (tab # c) = (cur, acc @ [withContent cur c])"
proof -
  have "\<not> startsWith (tab # c) ''author ''" and "\<not> startsWith (tab # c) ''author-time ''"
    and "startsWith (tab # c) [tab]"
    by (simp_all add: startsWith_def tab_def)
  then show ?thesis
    using content_not_commit[of c] by (simp add: blameStep_def)
qed

lemma blameLoop_contents:
  "foldl (blameStep R) (cur, acc) (map (\<lambda>c. tab # c) cs) = (cur, acc @ map (withContent cur) cs)"
  by (induction cs arbitrary: acc) (simp_all add: blameStep_content)

lemma blameLoop_block:
  assumes "isCommitLine (header b)"
  shows "\<exists>cur'. foldl (blameStep R) (cur, acc) (blockLines b) = (cur', acc @ blockRecords R b)"
proof -
  let ?info = "(newInfo (header b))\<lparr>author := Some (blockAuthor b),
                                     date := Some (dateOf R (blockTime b))\<rparr>"
  have "foldl (blameStep R) (cur, acc) (blockLines b)
        = foldl (blameStep R)
            (blameStep R (blameStep R (blameStep R (cur, acc) (header b))
                           (''author '' @ blockAuthor b)) (''author-time '' @ blockTime b))
            (map (\<lambda>c. tab # c) (contents b))"
    unfolding blockLines_def by (simp only: foldl_append foldl_Cons foldl_Nil)
  also have "\<dots> = (?info, acc @ map (withContent ?info) (contents b))"
    using assms
    by (simp only: blameStep_header blameStep_author[OF refl] blameStep_time[OF refl]
        blameLoop_contents)
  finally have "foldl (blameStep R) (cur, acc) (blockLines b)
        = (?info, acc @ map (withContent ?info) (contents b))" .
  moreover have "map (withContent ?info) (contents b) = blockRecords R b"
    using short_hash_of_header[OF assms]
    by (simp add: blockRecords_def withContent_def newInfo_def dateOf_def Let_def)
  ultimately show ?thesis by simp
qed

lemma blameLoop_blocks:
  "list_all (\<lambda>b. isCommitLine (header b)) blocks \<Longrightarrow>
   \<exists>cur'. foldl (blameStep R) (cur, acc) (concat (map blockLines blocks))
          = (cur', acc @ concat (map (blockRecords R) blocks))"
proof (induction blocks arbitrary: cur acc)
  case Nil
  then show ?case by simp
next
  case (Cons b blocks)
  then obtain c1 where c1: "foldl (blameStep R) (cur, acc) (blockLines b) = (c1, acc @ blockRecords R b)"
    using blameLoop_block[of b R cur acc] by auto
  obtain c2 where "foldl (blameStep R) (c1, acc @ blockRecords R b) (concat (map blockLines blocks))
                   = (c2, (acc @ blockRecords R b) @ concat (map (blockRecords R) blocks))"
    using Cons.IH[of c1 "acc @ blockRecords R b"] Cons.prems by auto
  then show ?case
    using c1 by simp
qed

subsection \<open>The loop of the second git server\<close>

lemma foldE_append:
  "foldE f s (xs @ ys) = (case foldE f s xs of Inl e \<Rightarrow> Inl e | Inr s' \<Rightarrow> foldE f s' ys)"
  by (induction xs arbitrary: s) (auto split: sum.splits)

lemma blameStep2_header:
  "isCommitLine h \<Longrightarrow>
   blameStep2 R (cur, acc) h
   = Inr (Some \<lparr>hash = Some (take 8 (hd (splitOn CHR '' '' h))), line = None,
                author = None, date = None\<rparr>, acc)"
  by (simp add: blameStep2_def)

lemma blameStep2_author:
  assumes "l = ''author '' @ a"
  shows "blameStep2 R (Some c, acc) l = Inr (Some (c\<lparr>author := Some a\<rparr>), acc)"
proof -
  have "\<not> isCommitLine l" using assms by (rule author_line_not_commit)
  moreover have "startsWith l ''author ''" and "drop 7 l = a"
    using assms by (simp_all add: startsWith_def)
  ultimately show ?thesis by (simp add: blameStep2_def)
qed

lemma blameStep2_time:
  assumes "l = ''author-time '' @ t"
  shows "blameStep2 R (Some c, acc) l = Inr (Some (c\<lparr>date := Some (dateOf R t)\<rparr>), acc)"
proof -
  have "\<not> isCommitLine l" using assms by (rule time_line_not_commit)
  moreover have "\<not> startsWith l ''author ''" and "startsWith l ''author-time ''"
    and "drop 12 l = t"
    using assms by (simp_all add: startsWith_def)
  ultimately show ?thesis by (simp add: blameStep2_def)
qed

lemma blameStep2_content:
  "blameStep2 R (cur, acc) (tab # c) = Inr (cur, acc @ [withContent (spread cur) c])"
proof -
  have "\<not> startsWith (tab # c) ''author ''" and "\<not> startsWith (tab # c) ''author-time ''"
    and "startsWith (tab # c) [tab]"
    by (simp_all add: startsWith_def tab_def)
  then show ?thesis
    using content_not_commit[of c] by (simp add: blameStep2_def)
qed

lemma blameLoop2_contents:
  "foldE (blameStep2 R) (cur, acc) (map (\<lambda>c. tab # c) cs)
   = Inr (cur, acc @ map (withContent (spread cur)) cs)"
  by (induction cs arbitrary: acc) (simp_all add: blameStep2_content)

lemma blameLoop2_block:
  assumes "isCommitLine (header b)"
  shows "\<exists>cur'. foldE (blameStep2 R) (cur, acc) (blockLines b)
                = Inr (cur', acc @ blockRecords2 R b)"
proof -
  let ?info = "\<lparr>hash = Some (take 8 (hd (splitOn CHR '' '' (header b)))), line = None,
                author = Some (blockAuthor b), date = Some (dateOf R (blockTime b))\<rparr>"
  have "foldE (blameStep2 R) (cur, acc) ([header b, ''author '' @ blockAuthor b,
           ''author-time '' @ blockTime b] @ map (\<lambda>c. tab # c) (contents b))
        = Inr (Some ?info, acc @ map (withContent (spread (Some ?info))) (contents b))"
    using assms
    by (simp add: foldE_append blameStep2_header blameStep2_author[OF refl]
        blameStep2_time[OF refl] blameLoop2_contents del: append.simps)
  moreover have "map (withContent (spread (Some ?info))) (contents b) = blockRecords2 R b"
    using short_hash_of_header[OF assms]
    by (simp add: blockRecords2_def withContent_def spread_def dateOf_def)
  ultimately show ?thesis by (simp add: blockLines_def)
qed

lemma blameLoop2_blocks:
  "list_all (\<lambda>b. isCommitLine (header b)) blocks \<Longrightarrow>
   \<exists>cur'. foldE (blameStep2 R) (cur, acc) (concat (map blockLines blocks))
          = Inr (cur', acc @ concat (map (blockRecords2 R) blocks))"
proof (induction blocks arbitrary: cur acc)
  case Nil
  then show ?case by simp
next
  case (Cons b blocks)
  then obtain c1 where c1: "foldE (blameStep2 R) (cur, acc) (blockLines b)
                            = Inr (c1, acc @ blockRecords2 R b)"
    using blameLoop2_block[of b R cur acc] by auto
  obtain c2 where "foldE (blameStep2 R) (c1, acc @ blockRecords2 R b)
                     (concat (map blockLines blocks))
                   = Inr (c2, (acc @ blockRecords2 R b) @ concat (map (blockRecords2 R) blocks))"
    using Cons.IH[of c1 "acc @ blockRecords2 R b"] Cons.prems by auto
  then show ?case
    using c1 by (simp add: foldE_append)
qed

subsection \<open>The synthetic stream splits back into its lines\<close>

lemma blockLines_oneLine:
  assumes "wellFormedBlock b"
  shows "\<forall>l\<in>set (blockLines b). nl \<notin> set l"
proof -
  have "nl \<notin> set ''author ''" and "nl \<notin> set ''author-time ''" and "nl \<noteq> tab"
    by (simp_all add: nl_def tab_def)
  then show ?thesis
    using assms
    by (auto simp: wellFormedBlock_def oneLine_def blockLines_def list_all_iff)
qed

lemma blockLines_nonempty: "blockLines b \<noteq> []"
  by (simp add: blockLines_def)

lemma split_streamOf:
  assumes "list_all wellFormedBlock blocks" and "blocks \<noteq> []"
  shows "splitOn nl (streamOf blocks) = concat (map blockLines blocks)"
proof -
  have "concat (map blockLines blocks) \<noteq> []"
    using assms(2) blockLines_nonempty by (cases blocks) auto
  moreover have "\<forall>l\<in>set (concat (map blockLines blocks)). nl \<notin> set l"
    using assms(1) blockLines_oneLine by (auto simp: list_all_iff)
  ultimately show ?thesis
    unfolding streamOf_def by (rule splitOn_joinWith)
qed

lemma empty_line_ignored: "blameStep R st [] = st"
  by (cases st) (simp add: blameStep_def isCommitLine_def startsWith_def)

lemma empty_line_ignored2: "blameStep2 R st [] = Inr st"
  by (cases st) (simp add: blameStep2_def isCommitLine_def startsWith_def)

lemma splitOn_snoc_sep: "splitOn c (s @ [c]) = splitOn c s @ [[]]"
  by (induction s) (auto split: list.splits simp: splitOn_nonempty)

lemma parseBlame_final_newline: "parseBlame R (s @ [nl]) = parseBlame R s"
  by (simp add: parseBlame_def blameLoop_def splitOn_snoc_sep empty_line_ignored)

lemma parseBlame2_final_newline: "parseBlame2 R (s @ [nl]) = parseBlame2 R s"
  by (auto simp: parseBlame2_def blameLoop2_def splitOn_snoc_sep foldE_append
      empty_line_ignored2 split: sum.splits)

lemma blame_blocks:
  assumes "list_all wellFormedBlock blocks"
  shows "parseBlame R (streamOf blocks) = concat (map (blockRecords R) blocks)
       \<and> parseBlame2 R (streamOf blocks) = Inr (concat (map (blockRecords2 R) blocks))"
proof (cases "blocks = []")
  case True
  then show ?thesis
    by (simp add: parseBlame_def parseBlame2_def blameLoop_def blameLoop2_def streamOf_def
        empty_line_ignored empty_line_ignored2)
next
  case False
  have commits: "list_all (\<lambda>b. isCommitLine (header b)) blocks"
    using assms by (simp add: list_all_iff wellFormedBlock_def)
  have ls: "splitOn nl (streamOf blocks) = concat (map blockLines blocks)"
    using assms False by (rule split_streamOf)
  obtain c1 where "foldl (blameStep R) (emptyInfo, []) (concat (map blockLines blocks))
                   = (c1, [] @ concat (map (blockRecords R) blocks))"
    using blameLoop_blocks[OF commits, of R emptyInfo "[]"] by auto
  then have one: "parseBlame R (streamOf blocks) = concat (map (blockRecords R) blocks)"
    by (simp add: parseBlame_def blameLoop_def ls)
  obtain c2 where "foldE (blameStep2 R) (None, []) (concat (map blockLines blocks))
                   = Inr (c2, [] @ concat (map (blockRecords2 R) blocks))"
    using blameLoop2_blocks[OF commits, of R None "[]"] by auto
  then have two: "parseBlame2 R (streamOf blocks) = Inr (concat (map (blockRecords2 R) blocks))"
    by (simp add: parseBlame2_def blameLoop2_def ls)
  show ?thesis
    using one two by simp
qed

text \<open>
  C3. For a stream made of \<open>K\<close> well-formed commit-info blocks, the \<open>i\<close>-th followed by
  its \<open>M\<^sub>i\<close> tab-prefixed content lines, with or without a newline after the last line,
  both parsers return exactly the records of the content lines, in input order,
  \<open>M\<^sub>1 + \<dots> + M\<^sub>K\<close> of them, and each record has the short hash (the first eight
  characters of the header), the author and the formatted date of its own block, the
  nearest one above the line: the date is the runtime's date text for the block's
  author-time, parsed as a whole number of seconds and multiplied by 1000. The parser of
  git-server.js adds the line-number token of the header; the second server's parser
  does not throw.
\<close>

theorem blame_round_trip:
  assumes "list_all wellFormedBlock blocks"
    and "stream = streamOf blocks \<or> stream = streamOf blocks @ [nl]"
  shows "parseBlame R stream
         = concat (map (\<lambda>b. map (\<lambda>c.
               \<lparr>hash = Some (take 8 (header b)),
                line = nth_opt (splitOn CHR '' '' (header b)) 2,
                author = Some (blockAuthor b),
                date = Some (toLocaleDateString R
                               (map_option (\<lambda>seconds. seconds * 1000)
                                  (parseInt R (blockTime b)))),
                content = c\<rparr>) (contents b)) blocks)
       \<and> parseBlame R stream = concat (map (blockRecords R) blocks)
       \<and> parseBlame2 R stream = Inr (concat (map (blockRecords2 R) blocks))
       \<and> length (parseBlame R stream) = sum_list (map (\<lambda>b. length (contents b)) blocks)"
proof -
  have one: "parseBlame R stream = concat (map (blockRecords R) blocks)"
    and two: "parseBlame2 R stream = Inr (concat (map (blockRecords2 R) blocks))"
    using assms(2) blame_blocks[OF assms(1), of R]
    by (auto simp: parseBlame_final_newline parseBlame2_final_newline)
  have written: "blockRecords R = (\<lambda>b. map (\<lambda>c.
               \<lparr>hash = Some (take 8 (header b)),
                line = nth_opt (splitOn CHR '' '' (header b)) 2,
                author = Some (blockAuthor b),
                date = Some (toLocaleDateString R
                               (map_option (\<lambda>seconds. seconds * 1000)
                                  (parseInt R (blockTime b)))),
                content = c\<rparr>) (contents b))"
    by (rule ext) (simp add: blockRecords_def)
  have "length (concat (map (blockRecords R) blocks))
        = sum_list (map (\<lambda>b. length (contents b)) blocks)"
    by (induction blocks) (simp_all add: blockRecords_def)
  then show ?thesis
    using one two written by simp
qed

theorem blame_round_trip_witness:
  "list_all wellFormedBlock
     [\<lparr>header = exampleHeader, blockAuthor = ''Bob'', blockTime = ''1700000000'',
       contents = [''x'', ''y'']\<rparr>,
      \<lparr>header = ''89abcdef0123456789abcdef0123456789abcdef 3 3 1'', blockAuthor = ''Eve'',
       blockTime = ''86400'', contents = [''z'']\<rparr>]
   \<and> parseBlame datedRuntime
       (streamOf
          [\<lparr>header = exampleHeader, blockAuthor = ''Bob'', blockTime = ''1700000000'',
            contents = [''x'', ''y'']\<rparr>,
           \<lparr>header = ''89abcdef0123456789abcdef0123456789abcdef 3 3 1'', blockAuthor = ''Eve'',
            blockTime = ''86400'', contents = [''z'']\<rparr>] @ [nl])
     = [\<lparr>hash = Some ''01234567'', line = Some ''7'', author = Some ''Bob'',
         date = Some ''11/14/2023'', content = ''x''\<rparr>,
        \<lparr>hash = Some ''01234567'', line = Some ''7'', author = Some ''Bob'',
         date = Some ''11/14/2023'', content = ''y''\<rparr>,
        \<lparr>hash = Some ''89abcdef'', line = Some ''3'', author = Some ''Eve'',
         date = Some ''1/2/1970'', content = ''z''\<rparr>]
   \<and> parseBlame2 datedRuntime
       (streamOf
          [\<lparr>header = exampleHeader, blockAuthor = ''Bob'', blockTime = ''1700000000'',
            contents = [''x'', ''y'']\<rparr>,
           \<lparr>header = ''89abcdef0123456789abcdef0123456789abcdef 3 3 1'', blockAuthor = ''Eve'',
            blockTime = ''86400'', contents = [''z'']\<rparr>] @ [nl])
     = Inr [\<lparr>hash = Some ''01234567'', line = None, author = Some ''Bob'',
             date = Some ''11/14/2023'', content = ''x''\<rparr>,
            \<lparr>hash = Some ''01234567'', line = None, author = Some ''Bob'',
             date = Some ''11/14/2023'', content = ''y''\<rparr>,
            \<lparr>hash = Some ''89abcdef'', line = None, author = Some ''Eve'',
             date = Some ''1/2/1970'', content = ''z''\<rparr>]"
proof -
  let ?blocks = "[\<lparr>header = exampleHeader, blockAuthor = ''Bob'', blockTime = ''1700000000'',
       contents = [''x'', ''y'']\<rparr>,
      \<lparr>header = ''89abcdef0123456789abcdef0123456789abcdef 3 3 1'', blockAuthor = ''Eve'',
       blockTime = ''86400'', contents = [''z'']\<rparr>]"
  have wf: "list_all wellFormedBlock ?blocks"
    by (simp add: wellFormedBlock_def exampleHeader_def isCommitLine_def isHex_def oneLine_def
        nl_def)
  show ?thesis
    using wf blame_round_trip[OF wf, of "streamOf ?blocks @ [nl]" datedRuntime]
    by (simp add: blockRecords_def blockRecords2_def exampleHeader_def datedRuntime_def
        numeral_2_eq_2)
qed
subsection \<open>Content lines ahead of the first commit line\<close>

lemma blameStep_acc:
  "blameStep R (cur, acc) l
   = (fst (blameStep R (cur, []) l), acc @ snd (blameStep R (cur, []) l))"
  by (simp add: blameStep_def)

lemma blameLoop_acc:
  "foldl (blameStep R) (cur, acc) ls
   = (fst (foldl (blameStep R) (cur, []) ls), acc @ snd (foldl (blameStep R) (cur, []) ls))"
proof (induction ls rule: rev_induct)
  case Nil
  then show ?case by simp
next
  case (snoc l ls)
  obtain c1 r1 where r1: "foldl (blameStep R) (cur, []) ls = (c1, r1)"
    by (cases "foldl (blameStep R) (cur, []) ls")
  have "foldl (blameStep R) (cur, acc) (ls @ [l]) = blameStep R (c1, acc @ r1) l"
    using snoc r1 by simp
  also have "\<dots> = (fst (blameStep R (c1, r1) l), acc @ snd (blameStep R (c1, r1) l))"
    using blameStep_acc[of R c1 "acc @ r1" l] blameStep_acc[of R c1 r1 l] by simp
  finally show ?case
    using r1 by simp
qed

lemma withContent_emptyInfo: "withContent emptyInfo c = bare c"
  by (simp add: withContent_def emptyInfo_def bare_def)

lemma blameLoop_plain_prefix:
  "list_all (\<lambda>l. \<not> isCommitLine l \<and> \<not> isTagLine l) pre \<Longrightarrow>
   foldl (blameStep R) (emptyInfo, acc) pre
   = (emptyInfo, acc @ map bare (map (drop 1) (filter isContentLine pre)))"
proof (induction pre arbitrary: acc)
  case Nil
  then show ?case by simp
next
  case (Cons l pre)
  then have l: "\<not> isCommitLine l" "\<not> startsWith l ''author ''" "\<not> startsWith l ''author-time ''"
    by (simp_all add: isTagLine_def)
  have step: "blameStep R (emptyInfo, acc) l
              = (emptyInfo, acc @ (if isContentLine l then [bare (drop 1 l)] else []))"
    using l by (simp add: blameStep_def isContentLine_def withContent_emptyInfo)
  show ?case
    using Cons.IH[of "acc @ (if isContentLine l then [bare (drop 1 l)] else [])"] Cons.prems step
    by simp
qed

lemma blameStep_keeps_line:
  "\<not> isCommitLine l \<Longrightarrow> line (fst (blameStep R (cur, acc) l)) = line cur"
  by (simp add: blameStep_def)

lemma blameLoop_keeps_line:
  "list_all (\<lambda>l. \<not> isCommitLine l) pre \<Longrightarrow>
   line (fst (foldl (blameStep R) (cur, acc) pre)) = line cur"
proof (induction pre arbitrary: cur acc)
  case Nil
  then show ?case by simp
next
  case (Cons l pre)
  obtain c1 r1 where s: "blameStep R (cur, acc) l = (c1, r1)"
    by (cases "blameStep R (cur, acc) l")
  have "line c1 = line cur"
    using blameStep_keeps_line[of l R cur acc] Cons.prems s by simp
  then show ?case
    using Cons.IH[of c1 r1] Cons.prems s by simp
qed

lemma blameLoop_orphan_record:
  assumes "list_all (\<lambda>l. \<not> isCommitLine l) pre"
  shows "\<exists>before cur' rest.
           blameLoop R (pre @ (tab # c) # post) = before @ withContent cur' c # rest
           \<and> line cur' = None"
proof -
  obtain c1 r1 where s: "foldl (blameStep R) (emptyInfo, []) pre = (c1, r1)"
    by (cases "foldl (blameStep R) (emptyInfo, []) pre")
  have "line c1 = line emptyInfo"
    using blameLoop_keeps_line[OF assms, of R emptyInfo "[]"] s by simp
  then have none: "line c1 = None"
    by (simp add: emptyInfo_def)
  have "foldl (blameStep R) (emptyInfo, []) (pre @ (tab # c) # post)
        = foldl (blameStep R) (c1, r1 @ [withContent c1 c]) post"
    using s by (simp add: blameStep_content)
  then have "blameLoop R (pre @ (tab # c) # post)
             = (r1 @ [withContent c1 c]) @ snd (foldl (blameStep R) (c1, []) post)"
    using blameLoop_acc[of R c1 "r1 @ [withContent c1 c]" post] by (simp add: blameLoop_def)
  then show ?thesis
    using none by auto
qed

subsection \<open>The second server throws only on a tag line ahead of the first commit line\<close>

lemma blameStep2_after_commit:
  "\<exists>c' r. blameStep2 R (Some c, acc) l = Inr (Some c', acc @ r)"
  by (simp add: blameStep2_def)

lemma blameLoop2_after_commit:
  "\<exists>c' r. foldE (blameStep2 R) (Some c, acc) ls = Inr (Some c', acc @ r)"
proof (induction ls arbitrary: c acc)
  case Nil
  then show ?case by simp
next
  case (Cons l ls)
  obtain c1 r1 where s: "blameStep2 R (Some c, acc) l = Inr (Some c1, acc @ r1)"
    using blameStep2_after_commit by blast
  obtain c2 r2 where "foldE (blameStep2 R) (Some c1, acc @ r1) ls = Inr (Some c2, (acc @ r1) @ r2)"
    using Cons.IH[of c1 "acc @ r1"] by blast
  then show ?case
    using s by simp
qed

lemma blameLoop2_total:
  "tagsFollowCommit ls \<Longrightarrow> \<exists>cur' r. foldE (blameStep2 R) (None, acc) ls = Inr (cur', acc @ r)"
proof (induction ls arbitrary: acc)
  case Nil
  then show ?case by simp
next
  case (Cons l ls)
  show ?case
  proof (cases "isCommitLine l")
    case True
    then obtain c1 where s: "blameStep2 R (None, acc) l = Inr (Some c1, acc)"
      by (simp add: blameStep2_header)
    obtain c2 r2 where "foldE (blameStep2 R) (Some c1, acc) ls = Inr (Some c2, acc @ r2)"
      using blameLoop2_after_commit by blast
    then show ?thesis
      using s by auto
  next
    case False
    then have l: "\<not> startsWith l ''author ''" "\<not> startsWith l ''author-time ''"
      and rest: "tagsFollowCommit ls"
      using Cons.prems by (simp_all add: isTagLine_def)
    have "\<exists>r1. blameStep2 R (None, acc) l = Inr (None, acc @ r1)"
      using False l by (cases "startsWith l [tab]") (simp_all add: blameStep2_def)
    then obtain r1 where s: "blameStep2 R (None, acc) l = Inr (None, acc @ r1)"
      by blast
    obtain c2 r2 where "foldE (blameStep2 R) (None, acc @ r1) ls = Inr (c2, (acc @ r1) @ r2)"
      using Cons.IH[OF rest, of "acc @ r1"] by blast
    then show ?thesis
      using s by auto
  qed
qed

lemma withContent_spread_None: "withContent (spread None) c = bare c"
  by (simp add: withContent_def spread_def emptyInfo_def bare_def)

lemma blameLoop2_plain_prefix:
  "list_all (\<lambda>l. \<not> isCommitLine l \<and> \<not> isTagLine l) pre \<Longrightarrow>
   foldE (blameStep2 R) (None, acc) pre
   = Inr (None, acc @ map bare (map (drop 1) (filter isContentLine pre)))"
proof (induction pre arbitrary: acc)
  case Nil
  then show ?case by simp
next
  case (Cons l pre)
  then have l: "\<not> isCommitLine l" "\<not> startsWith l ''author ''" "\<not> startsWith l ''author-time ''"
    by (simp_all add: isTagLine_def)
  have step: "blameStep2 R (None, acc) l
              = Inr (None, acc @ (if isContentLine l then [bare (drop 1 l)] else []))"
    using l by (simp add: blameStep2_def isContentLine_def withContent_spread_None)
  show ?case
    using Cons.IH[of "acc @ (if isContentLine l then [bare (drop 1 l)] else [])"] Cons.prems step
    by simp
qed
text \<open>
  C8, as stated, fails. In the stream of the two lines \<^verbatim>\<open>author Bob\<close> and
  \<^verbatim>\<open><tab>x\<close> the content line comes before any commit line (there is none). The
  parser of git-server.js emits a record for it whose author is \<^verbatim>\<open>Bob\<close>, not absent;
  the parser of the second server throws a TypeError on the first line, where it
  assigns \<^verbatim>\<open>author\<close> on \<^verbatim>\<open>null\<close>.
\<close>

theorem blame_orphan_content_counterexample:
  "list_all (\<lambda>l. \<not> isCommitLine l) (splitOn nl (''author Bob'' @ [nl] @ [tab] @ ''x''))
   \<and> parseBlame exampleRuntime (''author Bob'' @ [nl] @ [tab] @ ''x'')
       = [\<lparr>hash = None, line = None, author = Some ''Bob'', date = None, content = ''x''\<rparr>]
   \<and> parseBlame2 exampleRuntime (''author Bob'' @ [nl] @ [tab] @ ''x'')
       = Inl (cannotSet ''null'' ''author'')"
proof -
  have ls: "splitOn nl (''author Bob'' @ [nl] @ [tab] @ ''x'') = [''author Bob'', [tab] @ ''x'']"
    by (simp add: nl_def tab_def)
  have a: "\<not> isCommitLine ''author Bob''" and b: "\<not> isCommitLine ([tab] @ ''x'')"
    by (simp_all add: isCommitLine_def)
  have one: "blameStep exampleRuntime (emptyInfo, []) ''author Bob''
             = (emptyInfo\<lparr>author := Some ''Bob''\<rparr>, [])"
    using a by (simp add: blameStep_def startsWith_def)
  have two: "blameStep exampleRuntime (emptyInfo\<lparr>author := Some ''Bob''\<rparr>, []) ([tab] @ ''x'')
             = (emptyInfo\<lparr>author := Some ''Bob''\<rparr>,
                [withContent (emptyInfo\<lparr>author := Some ''Bob''\<rparr>) ''x''])"
    using blameStep_content[of exampleRuntime "emptyInfo\<lparr>author := Some ''Bob''\<rparr>" "[]" "''x''"]
    by simp
  have three: "blameStep2 exampleRuntime (None, []) ''author Bob''
               = Inl (cannotSet ''null'' ''author'')"
    using a by (simp add: blameStep2_def startsWith_def)
  show ?thesis
    unfolding parseBlame_def parseBlame2_def blameLoop_def blameLoop2_def ls
    using a b one two three
    by (simp add: withContent_def emptyInfo_def)
qed

text \<open>
  C8, amended. Let a tab-prefixed content line come before any commit line and before
  any \<^verbatim>\<open>author\<close> or \<^verbatim>\<open>author-time\<close> tag line. The parser of git-server.js then emits, at
  the position of that line among the content lines, a record with the content and
  with hash, line number, author and date all absent; its loop cannot throw. The parser
  of the second server does the same when no tag line precedes the first commit line
  anywhere in the stream.
\<close>

theorem blame_orphan_content:
  assumes "list_all (\<lambda>l. \<not> isCommitLine l \<and> \<not> isTagLine l) pre"
    and "k = length (filter isContentLine pre)"
  shows "k < length (blameLoop R (pre @ (tab # c) # post))
       \<and> blameLoop R (pre @ (tab # c) # post) ! k = bare c
       \<and> (tagsFollowCommit post \<longrightarrow>
            (\<exists>rs. blameLoop2 R (pre @ (tab # c) # post) = Inr rs \<and> k < length rs \<and> rs ! k = bare c))"
proof -
  let ?before = "map bare (map (drop 1) (filter isContentLine pre))"
  have k: "k = length ?before"
    using assms(2) by simp
  have "foldl (blameStep R) (emptyInfo, []) (pre @ (tab # c) # post)
        = foldl (blameStep R) (emptyInfo, ?before @ [bare c]) post"
    using blameLoop_plain_prefix[OF assms(1), of R "[]"]
    by (simp add: blameStep_content withContent_emptyInfo)
  then have "blameLoop R (pre @ (tab # c) # post)
             = ?before @ bare c # snd (foldl (blameStep R) (emptyInfo, []) post)"
    using blameLoop_acc[of R emptyInfo "?before @ [bare c]" post] by (simp add: blameLoop_def)
  then have one: "k < length (blameLoop R (pre @ (tab # c) # post))
                  \<and> blameLoop R (pre @ (tab # c) # post) ! k = bare c"
    using k by (simp add: nth_append)
  have two: "\<exists>rs. blameLoop2 R (pre @ (tab # c) # post) = Inr rs \<and> k < length rs \<and> rs ! k = bare c"
    if post: "tagsFollowCommit post"
  proof -
    obtain cur' r where "foldE (blameStep2 R) (None, ?before @ [bare c]) post
                         = Inr (cur', (?before @ [bare c]) @ r)"
      using blameLoop2_total[OF post, of R "?before @ [bare c]"] by blast
    then have "foldE (blameStep2 R) (None, []) (pre @ (tab # c) # post)
               = Inr (cur', ?before @ bare c # r)"
      using blameLoop2_plain_prefix[OF assms(1), of R "[]"]
      by (simp add: foldE_append blameStep2_content withContent_spread_None)
    then have "blameLoop2 R (pre @ (tab # c) # post) = Inr (?before @ bare c # r)"
      by (simp add: blameLoop2_def)
    then show ?thesis
      using k by (simp add: nth_append)
  qed
  show ?thesis
    using one two by blast
qed

theorem blame_orphan_content_witness:
  "list_all (\<lambda>l. \<not> isCommitLine l \<and> \<not> isTagLine l) [''summary s'']
   \<and> tagsFollowCommit [exampleHeader, ''author Bob'']
   \<and> blameLoop exampleRuntime ([''summary s''] @ (tab # ''x'') # [exampleHeader, ''author Bob'']) ! 0
       = bare ''x''
   \<and> (\<exists>rs. blameLoop2 exampleRuntime
              ([''summary s''] @ (tab # ''x'') # [exampleHeader, ''author Bob'']) = Inr rs
            \<and> rs ! 0 = bare ''x'')"
proof -
  have h: "isCommitLine exampleHeader"
    by (simp add: exampleHeader_def isCommitLine_def isHex_def)
  have p: "list_all (\<lambda>l. \<not> isCommitLine l \<and> \<not> isTagLine l) [''summary s'']"
    by (simp add: isCommitLine_def isTagLine_def startsWith_def)
  have t: "tagsFollowCommit [exampleHeader, ''author Bob'']"
    using h by simp
  have k: "0 = length (filter isContentLine [''summary s''])"
    by (simp add: isContentLine_def startsWith_def tab_def)
  show ?thesis
    using p t blame_orphan_content[OF p k, of exampleRuntime "''x''"
        "[exampleHeader, ''author Bob'']"]
    by blast
qed

subsection \<open>Rendering the table\<close>

lemma blameRow_error: "blameRow l = Inl e \<Longrightarrow> e = cannotRead ''undefined'' ''padEnd''"
  by (auto simp: blameRow_def split: option.splits)

lemma blameRow_no_line: "line l = None \<Longrightarrow> blameRow l = Inl (cannotRead ''undefined'' ''padEnd'')"
  by (simp add: blameRow_def)

lemma mapE_blameRow_throws:
  "\<exists>l\<in>set ls. line l = None \<Longrightarrow> mapE blameRow ls = Inl (cannotRead ''undefined'' ''padEnd'')"
proof (induction ls)
  case Nil
  then show ?case by simp
next
  case (Cons l ls)
  show ?case
  proof (cases "blameRow l")
    case (Inl e)
    then show ?thesis
      using blameRow_error[of l e] by simp
  next
    case (Inr row)
    then have "line l \<noteq> None"
      using blameRow_no_line[of l] by auto
    then have "mapE blameRow ls = Inl (cannotRead ''undefined'' ''padEnd'')"
      using Cons by auto
    then show ?thesis
      using Inr by simp
  qed
qed

text \<open>
  C10. In git-server.js, let git blame succeed (it ends with exit code 0 and the Runner
  hands its output over) and print a stream in which a tab-prefixed content line comes
  before any commit line. The record parsed for that line has no \<^verbatim>\<open>line\<close> field, so the
  table rendering throws a TypeError at \<^verbatim>\<open>l.line.padEnd\<close>, and the whole git_blame
  invocation ends as a Failure envelope with that error's message instead of the parsed
  records.
\<close>

theorem git_blame_orphan_content_fails:
  assumes "sh None (gitC a @ '' blame '' @ dq @ tpl (file' a) @ dq @ '' --line-porcelain'')
           = Runs chunks (ExitCode 0)"
    and "collect chunks ([], []) = Inr (out, err)"
    and "splitOn nl out = pre @ (tab # c) # post"
    and "list_all (\<lambda>l. \<not> isCommitLine l) pre"
  shows "git_blame R sh (Some a) = Some (Inl (cannotRead ''undefined'' ''padEnd''))
       \<and> gitCallTool E R sh ''git_blame'' (Some a)
           = Some (failText (''Error: Cannot read properties of undefined (reading ''
                             @ [CHR 0x27] @ ''padEnd'' @ [CHR 0x27] @ '')''))
       \<and> map_option isError (gitCallTool E R sh ''git_blame'' (Some a)) = Some True"
proof -
  obtain before cur' rest where
    p: "blameLoop R (pre @ (tab # c) # post) = before @ withContent cur' c # rest"
    and n: "line cur' = None"
    using blameLoop_orphan_record[OF assms(4), of R c post] by blast
  have "line (withContent cur' c) = None"
    using n by (simp add: withContent_def)
  then have "\<exists>l\<in>set (parseBlame R out). line l = None"
    using p assms(3) by (auto simp: parseBlame_def)
  then have "mapE blameRow (parseBlame R out) = Inl (cannotRead ''undefined'' ''padEnd'')"
    by (rule mapE_blameRow_throws)
  then have h: "git_blame R sh (Some a) = Some (Inl (cannotRead ''undefined'' ''padEnd''))"
    using assms(1,2)
    by (simp add: git_blame_def readArgs_def bindA_def bindE_def execAsync_def renderBlame_def)
  then have "gitCallTool E R sh ''git_blame'' (Some a)
             = Some (failText (''Error: '' @ errMsg (cannotRead ''undefined'' ''padEnd'')))"
    by (simp add: gitCallTool_def gitHandler_def gitCase_def catchEnvelope_def)
  then show ?thesis
    using h by (simp add: failText_def cannotRead_def)
qed

theorem git_blame_orphan_content_fails_witness:
  "collect [Stdout (tab # ''x'')] ([], []) = Inr (tab # ''x'', [])
   \<and> splitOn nl (tab # ''x'') = [] @ (tab # ''x'') # []
   \<and> gitCallTool exampleEngine exampleRuntime (\<lambda>cwd cmd. Runs [Stdout (tab # ''x'')] (ExitCode 0))
         ''git_blame'' (Some exampleGitArgs)
       = Some (failText (''Error: Cannot read properties of undefined (reading ''
                         @ [CHR 0x27] @ ''padEnd'' @ [CHR 0x27] @ '')''))
   \<and> map_option isError
         (gitCallTool exampleEngine exampleRuntime
            (\<lambda>cwd cmd. Runs [Stdout (tab # ''x'')] (ExitCode 0)) ''git_blame''
            (Some exampleGitArgs)) = Some True"
proof -
  have s: "splitOn nl (tab # ''x'') = [] @ (tab # ''x'') # []"
    by (simp add: nl_def tab_def)
  have r: "(\<lambda>cwd cmd. Runs [Stdout (tab # ''x'')] (ExitCode 0)) None
             (gitC exampleGitArgs @ '' blame '' @ dq @ tpl (file' exampleGitArgs) @ dq
              @ '' --line-porcelain'')
           = Runs [Stdout (tab # ''x'')] (ExitCode 0)"
    by simp
  have k: "collect [Stdout (tab # ''x'')] ([], []) = Inr (tab # ''x'', [])"
    by (simp add: byteLength_def maxBuffer_def)
  have p: "list_all (\<lambda>l. \<not> isCommitLine l) []"
    by simp
  show ?thesis
    using s k git_blame_orphan_content_fails[OF r k s p, where R = exampleRuntime and E = exampleEngine]
    by blast
qed

section \<open>Properties of the structural validator\<close>

lemma getProp_total:
  "obj \<noteq> JNull \<Longrightarrow> obj \<noteq> JUndefined \<Longrightarrow> \<exists>v. getProp E obj key = Inr v"
  by (cases obj) (auto simp: getProp_def split: option.splits)

lemma getProp_fieldOf:
  "obj \<noteq> JNull \<Longrightarrow> obj \<noteq> JUndefined \<Longrightarrow> getProp E obj key = Inr (fieldOf E obj key)"
  using getProp_total[of obj E key] by (auto simp: fieldOf_def)

lemma entriesOf_total: "truthy ps \<Longrightarrow> \<exists>es. entriesOf ps = Inr es"
  by (cases ps) (auto simp: entriesOf_def truthy_def)

lemma validateObject_declared:
  assumes "shape \<noteq> JNull" and "shape \<noteq> JUndefined"
  shows "validateObject E obj shape path errs
         = validateEntries E obj shape path (declared E shape) errs"
proof -
  obtain t where t: "getProp E shape ''type'' = Inr t"
    using getProp_total[OF assms] by blast
  obtain ps where ps: "getProp E shape ''properties'' = Inr ps"
    using getProp_total[OF assms] by blast
  show ?thesis
  proof (cases "t = JStr ''object'' \<and> truthy ps")
    case True
    then obtain es where "entriesOf ps = Inr es"
      using entriesOf_total by blast
    then show ?thesis
      using True t ps by (simp add: validateObject_def declared_def bindE_def)
  next
    case False
    then show ?thesis
      using t ps by (auto simp: validateObject_def declared_def bindE_def)
  qed
qed

lemma isRequired_listed:
  assumes "shape \<noteq> JNull" and "shape \<noteq> JUndefined"
    and "case requiredOf E shape of JArr names \<Rightarrow> True | JStr s \<Rightarrow> True | r \<Rightarrow> \<not> truthy r"
  shows "isRequired E shape key = Inr (listed E shape key)"
proof -
  obtain r where r: "getProp E shape ''required'' = Inr r"
    using getProp_total[OF assms(1,2)] by blast
  then have "requiredOf E shape = r"
    by (simp add: requiredOf_def)
  then show ?thesis
    using assms(3) r
    by (cases r) (auto simp: isRequired_def listed_def bindE_def truthy_def)
qed

lemma toStr_tag: "isTag t \<Longrightarrow> toStr E t = Inr (tagText t)"
  by (cases t) (simp_all add: isTag_def tagText_def)

lemma validateEntries_findings:
  assumes "obj \<noteq> JNull" and "obj \<noteq> JUndefined"
    and "shape \<noteq> JNull" and "shape \<noteq> JUndefined"
    and "case requiredOf E shape of JArr names \<Rightarrow> True | JStr s \<Rightarrow> True | r \<Rightarrow> \<not> truthy r"
  shows "list_all (\<lambda>entry. snd entry \<noteq> JNull \<and> snd entry \<noteq> JUndefined
                            \<and> isTag (declaredType E (snd entry))) entries \<Longrightarrow>
         validateEntries E obj shape path entries errs
         = Inr (errs @ concat (map (fieldFindings E obj shape path) entries))"
proof (induction entries arbitrary: errs)
  case Nil
  then show ?case by simp
next
  case (Cons entry entries)
  obtain key propSchema where e: "entry = (key, propSchema)"
    by (cases entry)
  have v: "getProp E obj key = Inr (fieldOf E obj key)"
    using assms(1,2) by (rule getProp_fieldOf)
  have l: "isRequired E shape key = Inr (listed E shape key)"
    using assms(3,4,5) by (rule isRequired_listed)
  have "propSchema \<noteq> JNull" and "propSchema \<noteq> JUndefined"
    using Cons.prems e by simp_all
  then obtain t where t: "getProp E propSchema ''type'' = Inr t"
    using getProp_total by blast
  then have d: "declaredType E propSchema = t"
    by (simp add: declaredType_def)
  then have s: "toStr E t = Inr (tagText t)"
    using Cons.prems e toStr_tag by simp
  have rest: "\<And>errs. validateEntries E obj shape path entries errs
         = Inr (errs @ concat (map (fieldFindings E obj shape path) entries))"
    using Cons.IH Cons.prems by simp
  show ?case
    by (simp add: e v l t d s rest fieldFindings_def[where entry = "(key, propSchema)"]
        Let_def)
qed

lemma validateObject_findings:
  assumes "obj \<noteq> JNull" and "obj \<noteq> JUndefined"
    and "shape \<noteq> JNull" and "shape \<noteq> JUndefined"
    and "wellFormedShape E shape"
  shows "validateObject E obj shape path errs
         = Inr (errs @ concat (map (fieldFindings E obj shape path) (declared E shape)))"
  using assms validateObject_declared[of shape E obj path errs]
    validateEntries_findings[of obj shape E "declared E shape" path errs]
  by (simp add: wellFormedShape_def)

lemma validateEntries_null:
  "obj = JNull \<or> obj = JUndefined \<Longrightarrow>
   validateEntries E obj shape path (entry # entries) errs
   = Inl (cannotRead (if obj = JNull then ''null'' else ''undefined'') (fst entry))"
  by (cases entry) (auto simp: getProp_def)
subsection \<open>The worked shapes\<close>

lemma declared_idShape: "declared E idShape = [(''id'', JObj [(''type'', JStr ''number'')])]"
  by (simp add: declared_def idShape_def getProp_def truthy_def entriesOf_def ownEntries_def
      ownProperties_def arrayIndex_def isDigit_def)

lemma declared_untypedIdShape: "declared exampleEngine untypedIdShape = []"
  by (simp add: declared_def untypedIdShape_def getProp_def exampleEngine_def)

lemma declared_orderShape:
  "declared E orderShape
   = [(''1'', JObj [(''type'', JStr ''string'')]), (''b'', JObj [(''type'', JStr ''string'')]),
      (''a'', JObj [(''type'', JStr ''string'')])]"
  by (simp add: declared_def orderShape_def getProp_def truthy_def entriesOf_def ownEntries_def
      ownProperties_def arrayIndex_def isDigit_def decimal_def indexOf_def)

lemma wellFormed_idShape: "wellFormedShape E idShape"
  unfolding wellFormedShape_def declared_idShape
  by (simp add: declaredType_def isTag_def getProp_def requiredOf_def idShape_def)

lemma wellFormed_orderShape: "wellFormedShape E orderShape"
  unfolding wellFormedShape_def declared_orderShape
  by (simp add: declaredType_def isTag_def getProp_def requiredOf_def orderShape_def)

text \<open>
  C5, as stated, fails. Against the shape of the boundary example the value \<^verbatim>\<open>null\<close>
  makes \<^verbatim>\<open>validateObject\<close> throw a TypeError at \<^verbatim>\<open>obj[key]\<close>, and so does \<^verbatim>\<open>undefined\<close>;
  validate_response then ends in the dispatcher's catch, as a Failure envelope. The
  first key read is the first that \<^verbatim>\<open>Object.entries\<close> lists: for properties written
  \<^verbatim>\<open>b\<close>, \<^verbatim>\<open>1\<close>, \<^verbatim>\<open>a\<close> it is \<^verbatim>\<open>1\<close>. The validator also throws for a value that is an
  object, when \<^verbatim>\<open>required\<close> is a number (\<^verbatim>\<open>includes\<close> is no function), when a property
  is declared \<^verbatim>\<open>null\<close>, and when the shape itself is missing.
\<close>

theorem validator_never_throws_counterexample:
  "validateObject exampleEngine JNull idShape [] [] = Inl (cannotRead ''null'' ''id'')
   \<and> validateObject exampleEngine JUndefined idShape [] [] = Inl (cannotRead ''undefined'' ''id'')
   \<and> validateObject exampleEngine JNull orderShape [] [] = Inl (cannotRead ''null'' ''1'')
   \<and> validateObject exampleEngine (JObj [])
        (JObj [(''type'', JStr ''object''),
               (''properties'', JObj [(''id'', JObj [(''type'', JStr ''number'')])]),
               (''required'', JNum (Finite 5))]) [] []
      = Inl (TypeError ''schema.required.includes is not a function'')
   \<and> validateObject exampleEngine (JObj [(''id'', JNum (Finite 1))])
        (JObj [(''type'', JStr ''object''), (''properties'', JObj [(''id'', JNull)])]) [] []
      = Inl (cannotRead ''null'' ''type'')
   \<and> validateObject exampleEngine (JObj []) JUndefined [] [] = Inl (cannotRead ''undefined'' ''type'')
   \<and> catchEnvelope (validate_response exampleEngine (\<lambda>r. [])
                       (Some \<lparr>response = JNull, schema = idShape\<rparr>))
       = failText (''Error: Cannot read properties of null (reading '' @ [CHR 0x27] @ ''id''
                   @ [CHR 0x27] @ '')'')"
proof -
  have one: "validateObject exampleEngine JNull idShape [] [] = Inl (cannotRead ''null'' ''id'')"
    using validateObject_declared[of idShape exampleEngine JNull "[]" "[]"]
    by (simp add: declared_idShape getProp_def) (simp add: idShape_def)
  have two: "validateObject exampleEngine JUndefined idShape [] []
             = Inl (cannotRead ''undefined'' ''id'')"
    using validateObject_declared[of idShape exampleEngine JUndefined "[]" "[]"]
    by (simp add: declared_idShape getProp_def) (simp add: idShape_def)
  have three: "validateObject exampleEngine JNull orderShape [] [] = Inl (cannotRead ''null'' ''1'')"
    using validateObject_declared[of orderShape exampleEngine JNull "[]" "[]"]
    by (simp add: declared_orderShape getProp_def) (simp add: orderShape_def)
  have four: "validateObject exampleEngine (JObj [])
        (JObj [(''type'', JStr ''object''),
               (''properties'', JObj [(''id'', JObj [(''type'', JStr ''number'')])]),
               (''required'', JNum (Finite 5))]) [] []
      = Inl (TypeError ''schema.required.includes is not a function'')"
    by (simp add: validateObject_def getProp_def bindE_def truthy_def entriesOf_def
        ownEntries_def ownProperties_def arrayIndex_def isDigit_def isRequired_def
        exampleEngine_def)
  have five: "validateObject exampleEngine (JObj [(''id'', JNum (Finite 1))])
        (JObj [(''type'', JStr ''object''), (''properties'', JObj [(''id'', JNull)])]) [] []
      = Inl (cannotRead ''null'' ''type'')"
    by (simp add: validateObject_def getProp_def bindE_def truthy_def entriesOf_def
        ownEntries_def ownProperties_def arrayIndex_def isDigit_def isRequired_def
        exampleEngine_def)
  have six: "validateObject exampleEngine (JObj []) JUndefined [] []
             = Inl (cannotRead ''undefined'' ''type'')"
    by (simp add: validateObject_def getProp_def bindE_def)
  have seven: "catchEnvelope (validate_response exampleEngine (\<lambda>r. [])
                       (Some \<lparr>response = JNull, schema = idShape\<rparr>))
       = failText (''Error: Cannot read properties of null (reading '' @ [CHR 0x27] @ ''id''
                   @ [CHR 0x27] @ '')'')"
    by (simp add: validate_response_def readArgs_def bindE_def one catchEnvelope_def
        cannotRead_def)
  show ?thesis
    using one two three four five six seven by blast
qed

text \<open>
  C5, amended. Let the shape be given (neither \<^verbatim>\<open>null\<close> nor \<^verbatim>\<open>undefined\<close>). For every
  value that is neither \<^verbatim>\<open>null\<close> nor \<^verbatim>\<open>undefined\<close> (an object or not) and every
  well-formed shape, the validator returns the error list it was given extended by its
  findings, and does not throw. For any value, also \<^verbatim>\<open>null\<close>, it returns the list
  unchanged when the shape has no property to visit. For \<^verbatim>\<open>null\<close> and \<^verbatim>\<open>undefined\<close>
  and a shape with a property to visit it throws a TypeError at the read of the first
  property that \<^verbatim>\<open>Object.entries\<close> lists.
\<close>

theorem validator_returns_or_throws:
  assumes "shape \<noteq> JNull" and "shape \<noteq> JUndefined"
  shows "(obj \<noteq> JNull \<and> obj \<noteq> JUndefined \<and> wellFormedShape E shape \<longrightarrow>
            (\<exists>found. validateObject E obj shape path errs = Inr (errs @ found)))
       \<and> (declared E shape = [] \<longrightarrow> validateObject E obj shape path errs = Inr errs)
       \<and> ((obj = JNull \<or> obj = JUndefined) \<and> declared E shape \<noteq> [] \<longrightarrow>
            validateObject E obj shape path errs
            = Inl (cannotRead (if obj = JNull then ''null'' else ''undefined'')
                     (fst (hd (declared E shape)))))"
proof (intro conjI impI)
  assume "obj \<noteq> JNull \<and> obj \<noteq> JUndefined \<and> wellFormedShape E shape"
  then show "\<exists>found. validateObject E obj shape path errs = Inr (errs @ found)"
    using validateObject_findings[of obj shape E path errs] assms by blast
next
  assume "declared E shape = []"
  then show "validateObject E obj shape path errs = Inr errs"
    using validateObject_declared[OF assms, of E obj path errs] by simp
next
  assume a: "(obj = JNull \<or> obj = JUndefined) \<and> declared E shape \<noteq> []"
  then obtain entry entries where d: "declared E shape = entry # entries"
    by (cases "declared E shape") auto
  show "validateObject E obj shape path errs
        = Inl (cannotRead (if obj = JNull then ''null'' else ''undefined'')
                 (fst (hd (declared E shape))))"
    using validateObject_declared[OF assms, of E obj path errs] a d
      validateEntries_null[of obj E shape path entry entries errs]
    by simp
qed

theorem validator_returns_or_throws_witness:
  "idShape \<noteq> JNull \<and> idShape \<noteq> JUndefined \<and> wellFormedShape exampleEngine idShape
   \<and> (\<exists>found. validateObject exampleEngine (JNum (Finite 7)) idShape [] [''e'']
                = Inr ([''e''] @ found))
   \<and> declared exampleEngine untypedIdShape = []
   \<and> validateObject exampleEngine JNull untypedIdShape [] [''e''] = Inr [''e'']
   \<and> declared exampleEngine orderShape \<noteq> []
   \<and> validateObject exampleEngine JNull orderShape [] [''e''] = Inl (cannotRead ''null'' ''1'')"
proof -
  have a: "idShape \<noteq> JNull" "idShape \<noteq> JUndefined"
    and b: "untypedIdShape \<noteq> JNull" "untypedIdShape \<noteq> JUndefined"
    and c: "orderShape \<noteq> JNull" "orderShape \<noteq> JUndefined"
    by (simp_all add: idShape_def untypedIdShape_def orderShape_def)
  show ?thesis
    using a wellFormed_idShape[of exampleEngine] declared_untypedIdShape
      declared_orderShape[of exampleEngine]
      validator_returns_or_throws[OF a, of "JNum (Finite 7)" exampleEngine "[]" "[''e'']"]
      validator_returns_or_throws[OF b, of JNull exampleEngine "[]" "[''e'']"]
      validator_returns_or_throws[OF c, of JNull exampleEngine "[]" "[''e'']"]
    by simp
qed
text \<open>
  C6, as stated, fails. The properties are visited in the order of \<^verbatim>\<open>Object.entries\<close>,
  which is not the declared order: for the properties \<^verbatim>\<open>b\<close>, \<^verbatim>\<open>1\<close>, \<^verbatim>\<open>a\<close>, all
  required, the empty object yields the errors for \<^verbatim>\<open>1\<close>, \<^verbatim>\<open>b\<close>, \<^verbatim>\<open>a\<close>. A shape that
  declares properties and \<^verbatim>\<open>required\<close> but not the type \<^verbatim>\<open>object\<close> is not checked at all:
  the empty object yields no error for the required \<^verbatim>\<open>id\<close>. And against \<^verbatim>\<open>null\<close> there
  is no missing-required error but a throw.
\<close>

theorem validator_checks_counterexample:
  "validateObject exampleEngine (JObj []) orderShape [] []
     = Inr [''Missing required field: 1'', ''Missing required field: b'',
            ''Missing required field: a'']
   \<and> validateObject exampleEngine (JObj []) untypedIdShape [] [] = Inr []
   \<and> validateObject exampleEngine JNull idShape [] [] = Inl (cannotRead ''null'' ''id'')"
proof -
  have one: "validateObject exampleEngine (JObj []) orderShape [] []
     = Inr [''Missing required field: 1'', ''Missing required field: b'',
            ''Missing required field: a'']"
    using validateObject_declared[of orderShape exampleEngine "JObj []" "[]" "[]"]
    by (simp add: declared_orderShape)
       (simp add: orderShape_def getProp_def isRequired_def bindE_def truthy_def
          exampleEngine_def currentPathOf_def)
  have two: "validateObject exampleEngine (JObj []) untypedIdShape [] [] = Inr []"
    by (simp add: validateObject_def untypedIdShape_def getProp_def bindE_def exampleEngine_def)
  have three: "validateObject exampleEngine JNull idShape [] [] = Inl (cannotRead ''null'' ''id'')"
    using validateObject_declared[of idShape exampleEngine JNull "[]" "[]"]
    by (simp add: declared_idShape getProp_def) (simp add: idShape_def)
  show ?thesis
    using one two three by blast
qed

text \<open>
  C6, amended. For every value that is neither \<^verbatim>\<open>null\<close> nor \<^verbatim>\<open>undefined\<close> and every
  well-formed shape, the validator returns the list it was given followed by the findings
  for the properties it visits, these being the properties of a shape of type
  \<^verbatim>\<open>object\<close> in the order of \<^verbatim>\<open>Object.entries\<close> (array-index keys ascending, then the
  other keys as written): for each property in turn, one missing-required error and
  nothing else if it is listed in \<^verbatim>\<open>required\<close> and the field is absent; otherwise one
  type-mismatch error naming both tags if the field is present and its runtime tag
  (\<^verbatim>\<open>array\<close> before \<^verbatim>\<open>object\<close>) is not the declared one; otherwise nothing.
\<close>

theorem validator_checks_declared_properties:
  assumes "obj \<noteq> JNull" and "obj \<noteq> JUndefined"
    and "shape \<noteq> JNull" and "shape \<noteq> JUndefined"
    and "wellFormedShape E shape"
  shows "validateObject E obj shape path errs
         = Inr (errs @ concat (map (fieldFindings E obj shape path) (declared E shape)))"
  using assms by (rule validateObject_findings)

theorem validator_checks_declared_properties_witness:
  "wellFormedShape exampleEngine idShape
   \<and> validateObject exampleEngine (JObj []) idShape [] [] = Inr [''Missing required field: id'']
   \<and> validateObject exampleEngine (JObj [(''id'', JStr ''x'')]) idShape [] []
       = Inr [''Type mismatch at id: expected number, got string'']
   \<and> validateObject exampleEngine (JObj [(''id'', JArr [])]) idShape [] []
       = Inr [''Type mismatch at id: expected number, got array'']
   \<and> validateObject exampleEngine (JObj [(''id'', JNum (Finite 7))]) idShape [] [] = Inr []
   \<and> wellFormedShape exampleEngine orderShape
   \<and> validateObject exampleEngine (JObj [(''b'', JNum (Finite 1)), (''a'', JStr ''x'')])
        orderShape [] []
       = Inr [''Missing required field: 1'',
              ''Type mismatch at b: expected string, got number'']"
proof -
  have a: "idShape \<noteq> JNull" "idShape \<noteq> JUndefined"
    and c: "orderShape \<noteq> JNull" "orderShape \<noteq> JUndefined"
    by (simp_all add: idShape_def orderShape_def)
  have wi: "wellFormedShape exampleEngine idShape"
    by (rule wellFormed_idShape)
  have wo: "wellFormedShape exampleEngine orderShape"
    by (rule wellFormed_orderShape)
  have i: "listed exampleEngine idShape ''id''"
    "declaredType exampleEngine (JObj [(''type'', JStr ''number'')]) = JStr ''number''"
    by (simp_all add: listed_def requiredOf_def declaredType_def getProp_def idShape_def)
  have f: "fieldOf exampleEngine (JObj []) ''id'' = JUndefined"
    "fieldOf exampleEngine (JObj [(''id'', JStr ''x'')]) ''id'' = JStr ''x''"
    "fieldOf exampleEngine (JObj [(''id'', JArr [])]) ''id'' = JArr []"
    "fieldOf exampleEngine (JObj [(''id'', JNum (Finite 7))]) ''id'' = JNum (Finite 7)"
    by (simp_all add: fieldOf_def getProp_def exampleEngine_def)
  have o: "listed exampleEngine orderShape ''1''" "listed exampleEngine orderShape ''b''"
    "listed exampleEngine orderShape ''a''"
    "declaredType exampleEngine (JObj [(''type'', JStr ''string'')]) = JStr ''string''"
    by (simp_all add: listed_def requiredOf_def declaredType_def getProp_def orderShape_def)
  have g: "fieldOf exampleEngine (JObj [(''b'', JNum (Finite 1)), (''a'', JStr ''x'')]) ''1''
           = JUndefined"
    "fieldOf exampleEngine (JObj [(''b'', JNum (Finite 1)), (''a'', JStr ''x'')]) ''b''
     = JNum (Finite 1)"
    "fieldOf exampleEngine (JObj [(''b'', JNum (Finite 1)), (''a'', JStr ''x'')]) ''a''
     = JStr ''x''"
    by (simp_all add: fieldOf_def getProp_def exampleEngine_def)
  show ?thesis
    using wi wo
      validator_checks_declared_properties[OF _ _ a wi, of "JObj []" "[]" "[]"]
      validator_checks_declared_properties[OF _ _ a wi, of "JObj [(''id'', JStr ''x'')]" "[]" "[]"]
      validator_checks_declared_properties[OF _ _ a wi, of "JObj [(''id'', JArr [])]" "[]" "[]"]
      validator_checks_declared_properties[OF _ _ a wi, of "JObj [(''id'', JNum (Finite 7))]"
        "[]" "[]"]
      validator_checks_declared_properties[OF _ _ c wo,
        of "JObj [(''b'', JNum (Finite 1)), (''a'', JStr ''x'')]" "[]" "[]"]
    by (simp add: declared_idShape declared_orderShape fieldFindings_def i f o g tagText_def
        currentPathOf_def)
qed

section \<open>Properties of the process runner\<close>

lemma execAsync_cases:
  "execAsync sh cmd cwd =
     (case sh cwd cmd of
        SpawnFailure m \<Rightarrow> Some (Inl (Error m))
      | Runs chunks ending \<Rightarrow>
          (case collect chunks ([], []) of
             Inl stream \<Rightarrow> Some (Inl (RangeError (stream @ '' maxBuffer length exceeded'')))
           | Inr p \<Rightarrow>
               (case ending of
                  ExitCode code \<Rightarrow>
                    if code = 0 then Some (Inr p) else Some (Inl (commandFailed cmd (snd p)))
                | Signal s \<Rightarrow> Some (Inl (commandFailed cmd (snd p)))
                | StaysAlive \<Rightarrow> None)))"
  by (auto simp: execAsync_def split: procOutcome.splits sum.splits ending.splits prod.splits)

lemma git_push_runs:
  "gitCallTool E R sh ''git_push'' (Some a)
   = (case execAsync sh (pushCommand a) None of
        None \<Rightarrow> None
      | Some (Inl e) \<Rightarrow> Some (failText (''Error: '' @ errMsg e))
      | Some (Inr (out, err)) \<Rightarrow>
          Some (okText (''Push command executed.'' @ [nl, nl] @ ''STDOUT:'' @ [nl] @ out
                        @ [nl, nl] @ ''STDERR:'' @ [nl] @ err)))"
  by (simp add: gitCallTool_def gitHandler_def gitCase_def git_push_def readArgs_def bindA_def
      returnA_def catchEnvelope_def pushCommand_def Let_def
      split: option.splits sum.splits prod.splits)

lemma run_command_runs:
  "command d = Some c \<Longrightarrow>
   devCallTool E sh fs parse ''run_command'' (Some d)
   = (case execAsync sh c (if truthyStr (workingDir d) then workingDir d else None) of
        None \<Rightarrow> None
      | Some (Inl e) \<Rightarrow> Some (failText (''Error: '' @ errMsg e))
      | Some (Inr (out, err)) \<Rightarrow>
          Some (okText (''STDOUT:'' @ [nl] @ out @ [nl, nl] @ ''STDERR:'' @ [nl] @ err)))"
  by (simp add: devCallTool_def devHandler_def devCase_def returned_def run_command_def
      readArgs_def execArg_def bindA_def returnA_def catchEnvelope_def Let_def
      split: option.splits sum.splits prod.splits)

lemma collect_example:
  "collect [Stdout ''built'', Stderr ''advisory''] ([], []) = Inr (''built'', ''advisory'')"
  by (simp add: byteLength_def maxBuffer_def)

lemma byteLength_replicate: "byteLength (replicate n CHR ''a'') = n"
  by (simp add: byteLength_def)

text \<open>
  C2, as stated, fails: a process that was spawned and ends with exit code 1 makes
  \<^verbatim>\<open>execAsync\<close> reject, although it wrote to both streams. git_push and run_command have
  no catch of their own, so the invocation ends as a Failure envelope and the handler
  never sees the streams. The Runner also reports a failure for a process that ends with
  exit code 0, when it wrote more than \<^verbatim>\<open>maxBuffer\<close> bytes to a stream.
\<close>

theorem runner_nonzero_exit_counterexample:
  "execAsync (endingWith 1) ''git push'' None
     = Some (Inl (Error (''Command failed: git push'' @ [nl] @ ''advisory'')))
   \<and> gitCallTool exampleEngine exampleRuntime (endingWith 1) ''git_push'' (Some exampleGitArgs)
       = Some (failText (''Error: Command failed: git -C '' @ dq @ ''/repo'' @ dq
                         @ '' push  origin'' @ [nl] @ ''advisory''))
   \<and> devCallTool exampleEngine (endingWith 1) noFiles noJson ''run_command''
         (Some exampleDevArgs)
       = Some (failText (''Error: Command failed: make test'' @ [nl] @ ''advisory''))
   \<and> execAsync (\<lambda>cwd cmd. Runs [Stdout (replicate 1048577 CHR ''a'')] (ExitCode 0))
        ''git push'' None
     = Some (Inl (RangeError ''stdout maxBuffer length exceeded''))"
proof -
  have one: "execAsync (endingWith 1) c None
             = Some (Inl (Error (''Command failed: '' @ c @ [nl] @ ''advisory'')))" for c
    by (simp add: execAsync_def endingWith_def byteLength_def maxBuffer_def commandFailed_def)
  have cmd: "pushCommand exampleGitArgs = ''git -C '' @ dq @ ''/repo'' @ dq @ '' push  origin''"
    by (simp add: pushCommand_def exampleGitArgs_def orRemote_def orStr_def gitC_def tpl_def
        dq_def trim_def isSpace_def)
  have two: "gitCallTool exampleEngine exampleRuntime (endingWith 1) ''git_push''
               (Some exampleGitArgs)
       = Some (failText (''Error: Command failed: git -C '' @ dq @ ''/repo'' @ dq
                         @ '' push  origin'' @ [nl] @ ''advisory''))"
    by (simp add: git_push_runs one cmd)
  have three: "devCallTool exampleEngine (endingWith 1) noFiles noJson ''run_command''
         (Some exampleDevArgs)
       = Some (failText (''Error: Command failed: make test'' @ [nl] @ ''advisory''))"
    using run_command_runs[of exampleDevArgs "''make test''" exampleEngine "endingWith 1"
        noFiles noJson]
    by (simp add: one exampleDevArgs_def truthyStr_def)
  have four: "execAsync (\<lambda>cwd cmd. Runs [Stdout (replicate 1048577 CHR ''a'')] (ExitCode 0))
        ''git push'' None
     = Some (Inl (RangeError ''stdout maxBuffer length exceeded''))"
    by (simp add: execAsync_def byteLength_replicate maxBuffer_def)
  show ?thesis
    using one[of "''git push''"] two three four by simp
qed

text \<open>
  C2, amended. The Runner returns the two streams to the handler exactly when the
  process ends with exit code 0 and neither stream went over \<^verbatim>\<open>maxBuffer\<close> (1024 * 1024
  bytes). It reports a failure to the handler when the process cannot be spawned, when
  a stream goes over \<^verbatim>\<open>maxBuffer\<close>, and when the process ends with another exit code or by
  a signal, whatever it wrote to stderr. While the process stays alive the Runner does
  neither. A git_push or run_command invocation ends accordingly: as an Ok envelope with
  the two streams, as a Failure envelope with the message of the failure, or never.
\<close>

theorem runner_returns_streams_iff_clean_exit:
  "(execAsync sh cmd cwd = Some (Inr (out, err)) \<longleftrightarrow>
      (\<exists>chunks. sh cwd cmd = Runs chunks (ExitCode 0) \<and> collect chunks ([], []) = Inr (out, err)))
   \<and> ((\<exists>e. execAsync sh cmd cwd = Some (Inl e)) \<longleftrightarrow>
        ((\<exists>m. sh cwd cmd = SpawnFailure m)
         \<or> (\<exists>chunks ending. sh cwd cmd = Runs chunks ending
              \<and> ((\<exists>stream. collect chunks ([], []) = Inl stream)
                 \<or> (ending \<noteq> ExitCode 0 \<and> ending \<noteq> StaysAlive)))))
   \<and> (execAsync sh cmd cwd = None \<longleftrightarrow>
        (\<exists>chunks p. sh cwd cmd = Runs chunks StaysAlive \<and> collect chunks ([], []) = Inr p))
   \<and> gitCallTool E R sh ''git_push'' (Some a)
       = (case execAsync sh (pushCommand a) None of
            None \<Rightarrow> None
          | Some (Inl e) \<Rightarrow> Some (failText (''Error: '' @ errMsg e))
          | Some (Inr (stdout, stderr)) \<Rightarrow>
              Some (okText (''Push command executed.'' @ [nl, nl] @ ''STDOUT:'' @ [nl] @ stdout
                            @ [nl, nl] @ ''STDERR:'' @ [nl] @ stderr)))
   \<and> (command d = Some c \<longrightarrow>
        devCallTool E sh fs parse ''run_command'' (Some d)
        = (case execAsync sh c (if truthyStr (workingDir d) then workingDir d else None) of
             None \<Rightarrow> None
           | Some (Inl e) \<Rightarrow> Some (failText (''Error: '' @ errMsg e))
           | Some (Inr (stdout, stderr)) \<Rightarrow>
               Some (okText (''STDOUT:'' @ [nl] @ stdout @ [nl, nl] @ ''STDERR:'' @ [nl]
                             @ stderr))))
   \<and> (sh None (pushCommand a) = Runs chunks (ExitCode code)
        \<and> collect chunks ([], []) = Inr (out, err) \<longrightarrow>
        gitCallTool E R sh ''git_push'' (Some a)
        = Some (if code = 0
                then okText (''Push command executed.'' @ [nl, nl] @ ''STDOUT:'' @ [nl] @ out
                             @ [nl, nl] @ ''STDERR:'' @ [nl] @ err)
                else failText (''Error: Command failed: '' @ pushCommand a @ [nl] @ err)))"
proof (intro conjI impI)
  show "execAsync sh cmd cwd = Some (Inr (out, err)) \<longleftrightarrow>
      (\<exists>chunks. sh cwd cmd = Runs chunks (ExitCode 0) \<and> collect chunks ([], []) = Inr (out, err))"
    by (auto simp: execAsync_cases split: procOutcome.splits sum.splits ending.splits)
next
  show "(\<exists>e. execAsync sh cmd cwd = Some (Inl e)) \<longleftrightarrow>
        ((\<exists>m. sh cwd cmd = SpawnFailure m)
         \<or> (\<exists>chunks ending. sh cwd cmd = Runs chunks ending
              \<and> ((\<exists>stream. collect chunks ([], []) = Inl stream)
                 \<or> (ending \<noteq> ExitCode 0 \<and> ending \<noteq> StaysAlive))))"
    by (auto simp: execAsync_cases split: procOutcome.splits sum.splits ending.splits)
next
  show "execAsync sh cmd cwd = None \<longleftrightarrow>
        (\<exists>chunks p. sh cwd cmd = Runs chunks StaysAlive \<and> collect chunks ([], []) = Inr p)"
    by (auto simp: execAsync_cases split: procOutcome.splits sum.splits ending.splits)
next
  show "gitCallTool E R sh ''git_push'' (Some a)
       = (case execAsync sh (pushCommand a) None of
            None \<Rightarrow> None
          | Some (Inl e) \<Rightarrow> Some (failText (''Error: '' @ errMsg e))
          | Some (Inr (stdout, stderr)) \<Rightarrow>
              Some (okText (''Push command executed.'' @ [nl, nl] @ ''STDOUT:'' @ [nl] @ stdout
                            @ [nl, nl] @ ''STDERR:'' @ [nl] @ stderr)))"
    by (rule git_push_runs)
next
  assume "command d = Some c"
  then show "devCallTool E sh fs parse ''run_command'' (Some d)
        = (case execAsync sh c (if truthyStr (workingDir d) then workingDir d else None) of
             None \<Rightarrow> None
           | Some (Inl e) \<Rightarrow> Some (failText (''Error: '' @ errMsg e))
           | Some (Inr (stdout, stderr)) \<Rightarrow>
               Some (okText (''STDOUT:'' @ [nl] @ stdout @ [nl, nl] @ ''STDERR:'' @ [nl]
                             @ stderr)))"
    by (rule run_command_runs)
next
  assume "sh None (pushCommand a) = Runs chunks (ExitCode code)
        \<and> collect chunks ([], []) = Inr (out, err)"
  then show "gitCallTool E R sh ''git_push'' (Some a)
        = Some (if code = 0
                then okText (''Push command executed.'' @ [nl, nl] @ ''STDOUT:'' @ [nl] @ out
                             @ [nl, nl] @ ''STDERR:'' @ [nl] @ err)
                else failText (''Error: Command failed: '' @ pushCommand a @ [nl] @ err))"
    by (simp add: git_push_runs execAsync_def commandFailed_def)
qed

theorem runner_returns_streams_iff_clean_exit_witness:
  "command exampleDevArgs = Some ''make test''
   \<and> collect [Stdout ''built'', Stderr ''advisory''] ([], []) = Inr (''built'', ''advisory'')
   \<and> devCallTool exampleEngine (endingWith 0) noFiles noJson ''run_command''
         (Some exampleDevArgs)
       = Some (okText (''STDOUT:'' @ [nl] @ ''built'' @ [nl, nl] @ ''STDERR:'' @ [nl]
                       @ ''advisory''))
   \<and> devCallTool exampleEngine (endingWith 2) noFiles noJson ''run_command''
         (Some exampleDevArgs)
       = Some (failText (''Error: Command failed: make test'' @ [nl] @ ''advisory''))
   \<and> devCallTool exampleEngine silent noFiles noJson ''run_command'' (Some exampleDevArgs)
       = None
   \<and> gitCallTool exampleEngine exampleRuntime (endingWith 0) ''git_push'' (Some exampleGitArgs)
       = Some (okText (''Push command executed.'' @ [nl, nl] @ ''STDOUT:'' @ [nl] @ ''built''
                       @ [nl, nl] @ ''STDERR:'' @ [nl] @ ''advisory''))"
proof -
  have c: "command exampleDevArgs = Some ''make test''"
    by (simp add: exampleDevArgs_def)
  have run: "execAsync (endingWith code) cmd cwd
             = Some (if code = 0 then Inr (''built'', ''advisory'')
                     else Inl (Error (''Command failed: '' @ cmd @ [nl] @ ''advisory'')))"
    for code cmd cwd
    by (simp add: execAsync_def endingWith_def byteLength_def maxBuffer_def commandFailed_def)
  have quiet: "execAsync silent cmd cwd = None" for cmd cwd
    by (simp add: execAsync_def silent_def)
  have p: "endingWith 0 None (pushCommand exampleGitArgs)
           = Runs [Stdout ''built'', Stderr ''advisory''] (ExitCode 0)
         \<and> collect [Stdout ''built'', Stderr ''advisory''] ([], []) = Inr (''built'', ''advisory'')"
    by (simp add: endingWith_def byteLength_def maxBuffer_def)
  show ?thesis
    using c collect_example p
      runner_returns_streams_iff_clean_exit[where sh = "endingWith 0" and d = exampleDevArgs
        and c = "''make test''" and E = exampleEngine and fs = noFiles and parse = noJson
        and a = exampleGitArgs and R = exampleRuntime and code = 0 and out = "''built''"
        and err = "''advisory''" and chunks = "[Stdout ''built'', Stderr ''advisory'']"]
      runner_returns_streams_iff_clean_exit[where sh = "endingWith 2" and d = exampleDevArgs
        and c = "''make test''" and E = exampleEngine and fs = noFiles and parse = noJson]
      runner_returns_streams_iff_clean_exit[where sh = silent and d = exampleDevArgs
        and c = "''make test''" and E = exampleEngine and fs = noFiles and parse = noJson]
    by (simp add: run quiet)
qed

section \<open>Properties of the dispatchers\<close>

lemma bindE_Inr: "bindE r f = Inr y \<Longrightarrow> \<exists>v. r = Inr v \<and> f v = Inr y"
  by (cases r) (simp_all add: bindE_def)

lemma bindA_Inr: "bindA r f = Some (Inr y) \<Longrightarrow> \<exists>v. r = Some (Inr v) \<and> f v = Some (Inr y)"
  by (auto simp: bindA_def split: option.splits sum.splits)

lemma bindA_settles:
  "r \<noteq> None \<Longrightarrow> (\<And>v. r = Some (Inr v) \<Longrightarrow> f v \<noteq> None) \<Longrightarrow> bindA r f \<noteq> None"
  by (auto simp: bindA_def split: option.splits sum.splits)

lemma bindA_settles_iff:
  "(\<exists>y. bindA r f = Some y)
   \<longleftrightarrow> (\<exists>x. r = Some x) \<and> (\<forall>v. r = Some (Inr v) \<longrightarrow> (\<exists>y. f v = Some y))"
  by (auto simp: bindA_def split: option.splits sum.splits)

subsection \<open>Every handler settles when its processes and file reads do\<close>

lemma git_status_settles:
  "(\<And>cmd cwd. execAsync sh cmd cwd \<noteq> None) \<Longrightarrow> git_status sh args \<noteq> None"
  unfolding git_status_def Let_def
  by (intro bindA_settles) (auto simp: returnA_def bindA_settles_iff split: prod.splits)

lemma git_log_settles:
  "(\<And>cmd cwd. execAsync sh cmd cwd \<noteq> None) \<Longrightarrow> git_log E sh args \<noteq> None"
  unfolding git_log_def Let_def
  by (intro bindA_settles) (auto simp: returnA_def bindA_settles_iff split: prod.splits)

lemma git_diff_settles:
  "(\<And>cmd cwd. execAsync sh cmd cwd \<noteq> None) \<Longrightarrow> git_diff sh args \<noteq> None"
  unfolding git_diff_def Let_def
  by (intro bindA_settles) (auto simp: returnA_def bindA_settles_iff split: prod.splits)

lemma git_branches_settles:
  "(\<And>cmd cwd. execAsync sh cmd cwd \<noteq> None) \<Longrightarrow> git_branches sh args \<noteq> None"
  unfolding git_branches_def Let_def
  by (intro bindA_settles) (auto simp: returnA_def bindA_settles_iff split: prod.splits)

lemma generate_commit_message_settles:
  "(\<And>cmd cwd. execAsync sh cmd cwd \<noteq> None) \<Longrightarrow> generate_commit_message sh args \<noteq> None"
  unfolding generate_commit_message_def Let_def
  by (intro bindA_settles) (auto simp: returnA_def bindA_settles_iff split: prod.splits)

lemma git_blame_settles:
  "(\<And>cmd cwd. execAsync sh cmd cwd \<noteq> None) \<Longrightarrow> git_blame R sh args \<noteq> None"
  unfolding git_blame_def
  by (intro bindA_settles) (auto split: prod.splits)

lemma git_search_commits_settles:
  "(\<And>cmd cwd. execAsync sh cmd cwd \<noteq> None) \<Longrightarrow> git_search_commits sh args \<noteq> None"
  unfolding git_search_commits_def Let_def
  by (intro bindA_settles) (auto simp: returnA_def bindA_settles_iff split: prod.splits)

lemma git_stage_settles:
  "(\<And>cmd cwd. execAsync sh cmd cwd \<noteq> None) \<Longrightarrow> git_stage sh args \<noteq> None"
  unfolding git_stage_def Let_def
  by (intro bindA_settles) (auto simp: returnA_def bindA_settles_iff split: prod.splits)

lemma git_commit_settles:
  "(\<And>cmd cwd. execAsync sh cmd cwd \<noteq> None) \<Longrightarrow> git_commit sh args \<noteq> None"
  unfolding git_commit_def Let_def
  by (intro bindA_settles) (auto simp: returnA_def bindA_settles_iff split: prod.splits)

lemma git_push_settles:
  "(\<And>cmd cwd. execAsync sh cmd cwd \<noteq> None) \<Longrightarrow> git_push sh args \<noteq> None"
  unfolding git_push_def Let_def
  by (intro bindA_settles) (auto simp: returnA_def bindA_settles_iff split: prod.splits)

lemma gitHandler_settles:
  assumes "\<And>cmd cwd. execAsync sh cmd cwd \<noteq> None"
  shows "gitHandler E R sh name args \<noteq> None"
  using git_status_settles[OF assms] git_log_settles[OF assms] git_diff_settles[OF assms]
    git_branches_settles[OF assms] generate_commit_message_settles[OF assms]
    git_blame_settles[OF assms] git_search_commits_settles[OF assms]
    git_stage_settles[OF assms] git_commit_settles[OF assms] git_push_settles[OF assms]
  by (simp add: gitHandler_def gitCase_def)

lemma returned_settles: "r \<noteq> None \<Longrightarrow> returned r \<noteq> None"
  unfolding returned_def
  by (intro bindA_settles) (auto simp: returnA_def)

lemma docker_ps_settles:
  "(\<And>cmd cwd. execAsync sh cmd cwd \<noteq> None) \<Longrightarrow> docker_ps sh args \<noteq> None"
  unfolding docker_ps_def Let_def
  by (intro bindA_settles) (auto simp: returnA_def bindA_settles_iff split: prod.splits)

lemma docker_logs_settles:
  "(\<And>cmd cwd. execAsync sh cmd cwd \<noteq> None) \<Longrightarrow> docker_logs E sh args \<noteq> None"
  unfolding docker_logs_def Let_def
  by (intro bindA_settles) (auto simp: returnA_def bindA_settles_iff split: prod.splits)

lemma docker_exec_settles:
  "(\<And>cmd cwd. execAsync sh cmd cwd \<noteq> None) \<Longrightarrow> docker_exec sh args \<noteq> None"
  unfolding docker_exec_def Let_def
  by (intro bindA_settles) (auto simp: returnA_def bindA_settles_iff split: prod.splits)

lemma docker_compose_settles:
  "(\<And>cmd cwd. execAsync sh cmd cwd \<noteq> None) \<Longrightarrow> docker_compose sh args \<noteq> None"
  unfolding docker_compose_def Let_def
  by (intro bindA_settles) (auto simp: returnA_def bindA_settles_iff split: prod.splits)

lemma docker_stats_settles:
  "(\<And>cmd cwd. execAsync sh cmd cwd \<noteq> None) \<Longrightarrow> docker_stats sh args \<noteq> None"
  unfolding docker_stats_def Let_def
  by (intro bindA_settles) (auto simp: returnA_def bindA_settles_iff split: prod.splits)

lemma run_command_settles:
  "(\<And>cmd cwd. execAsync sh cmd cwd \<noteq> None) \<Longrightarrow> run_command sh args \<noteq> None"
  unfolding run_command_def Let_def
  by (intro bindA_settles) (auto simp: execArg_def returnA_def split: prod.splits option.splits)

lemma readFile_settles: "(\<And>p. fs p \<noteq> None) \<Longrightarrow> readFile fs path \<noteq> None"
  by (auto simp: readFile_def split: option.splits)

lemma monitor_logs_settles:
  assumes "\<And>p. fs p \<noteq> None"
  shows "monitor_logs E fs args \<noteq> None"
  unfolding monitor_logs_def Let_def
  using readFile_settles[of fs, OF assms]
  by (intro bindA_settles) (auto simp: returnA_def split: option.splits sum.splits)

lemma check_ports_settles:
  assumes "\<And>cmd cwd. execAsync sh cmd cwd \<noteq> None"
  shows "check_ports E sh args \<noteq> None"
  unfolding check_ports_def
  using assms
  by (intro bindA_settles) (auto simp: returnA_def split: option.splits sum.splits prod.splits)

lemma npmTry_settles:
  assumes "\<And>cmd cwd. execAsync sh cmd cwd \<noteq> None" and "\<And>p. fs p \<noteq> None"
  shows "npmTry E sh fs parse a path \<noteq> None"
  unfolding npmTry_def Let_def
  using assms(1) readFile_settles[of fs, OF assms(2)]
  by (intro bindA_settles) (auto simp: returnA_def bindA_settles_iff split: prod.splits)

lemma npm_scripts_settles:
  assumes "\<And>cmd cwd. execAsync sh cmd cwd \<noteq> None" and "\<And>p. fs p \<noteq> None"
  shows "npm_scripts E sh fs parse args \<noteq> None"
  unfolding npm_scripts_def Let_def
  using npmTry_settles[of sh fs E parse, OF assms]
  by (intro bindA_settles) (auto simp: returnA_def split: option.splits sum.splits)

lemma devCase_settles:
  assumes "\<And>cmd cwd. execAsync sh cmd cwd \<noteq> None" and "\<And>p. fs p \<noteq> None"
    and "devCase E sh fs parse name args = Some outcome"
  shows "outcome \<noteq> None"
proof -
  have "outcome = returned (docker_ps sh args) \<or> outcome = returned (docker_logs E sh args)
      \<or> outcome = returned (docker_exec sh args) \<or> outcome = returned (docker_compose sh args)
      \<or> outcome = returned (docker_stats sh args) \<or> outcome = returned (run_command sh args)
      \<or> outcome = returned (monitor_logs E fs args)
      \<or> outcome = returned (check_ports E sh args)
      \<or> outcome = npm_scripts E sh fs parse args"
    using assms(3) by (simp add: devCase_def split: if_splits)
  then show ?thesis
    using returned_settles[OF docker_ps_settles[of sh args, OF assms(1)]]
      returned_settles[OF docker_logs_settles[of sh E args, OF assms(1)]]
      returned_settles[OF docker_exec_settles[of sh args, OF assms(1)]]
      returned_settles[OF docker_compose_settles[of sh args, OF assms(1)]]
      returned_settles[OF docker_stats_settles[of sh args, OF assms(1)]]
      returned_settles[OF run_command_settles[of sh args, OF assms(1)]]
      returned_settles[OF monitor_logs_settles[of fs E args, OF assms(2)]]
      returned_settles[OF check_ports_settles[of sh E args, OF assms(1)]]
      npm_scripts_settles[of sh fs E parse args, OF assms(1,2)]
    by (elim disjE) simp_all
qed

lemma devHandler_settles:
  assumes "\<And>cmd cwd. execAsync sh cmd cwd \<noteq> None" and "\<And>p. fs p \<noteq> None"
  shows "devHandler E sh fs parse name args \<noteq> None"
proof (cases "devCase E sh fs parse name args")
  case None
  then show ?thesis by (simp add: devHandler_def)
next
  case (Some outcome)
  have "outcome \<noteq> None"
    using assms(1) assms(2) Some by (rule devCase_settles[where sh = sh and fs = fs])
  then show ?thesis
    using Some by (auto simp: devHandler_def bindA_settles_iff returnA_def split: option.splits)
qed
subsection \<open>What the handlers return\<close>

lemma git_status_ok: "git_status sh args = Some (Inr env) \<Longrightarrow> \<exists>t. env = okText t"
  by (auto simp: git_status_def returnA_def dest!: bindA_Inr split: prod.splits)

lemma git_log_ok: "git_log E sh args = Some (Inr env) \<Longrightarrow> \<exists>t. env = okText t"
  by (auto simp: git_log_def returnA_def Let_def dest!: bindA_Inr split: prod.splits)

lemma git_diff_ok: "git_diff sh args = Some (Inr env) \<Longrightarrow> \<exists>t. env = okText t"
  unfolding git_diff_def Let_def
  by (auto simp: returnA_def dest!: bindA_Inr split: prod.splits)

lemma git_branches_ok: "git_branches sh args = Some (Inr env) \<Longrightarrow> \<exists>t. env = okText t"
  by (auto simp: git_branches_def returnA_def Let_def dest!: bindA_Inr split: prod.splits)

lemma generate_commit_message_ok:
  "generate_commit_message sh args = Some (Inr env) \<Longrightarrow> \<exists>t. env = okText t"
  by (auto simp: generate_commit_message_def returnA_def dest!: bindA_Inr bindE_Inr
      split: prod.splits if_splits)

lemma git_blame_ok: "git_blame R sh args = Some (Inr env) \<Longrightarrow> \<exists>t. env = okText t"
  by (auto simp: git_blame_def renderBlame_def dest!: bindA_Inr bindE_Inr split: prod.splits)

lemma git_search_commits_ok:
  "git_search_commits sh args = Some (Inr env) \<Longrightarrow> \<exists>t. env = okText t"
  unfolding git_search_commits_def Let_def
  by (auto simp: returnA_def dest!: bindA_Inr split: prod.splits)

lemma git_stage_ok: "git_stage sh args = Some (Inr env) \<Longrightarrow> \<exists>t. env = okText t"
  unfolding git_stage_def Let_def
  by (auto simp: returnA_def dest!: bindA_Inr split: prod.splits)

lemma git_commit_ok: "git_commit sh args = Some (Inr env) \<Longrightarrow> \<exists>t. env = okText t"
  by (auto simp: git_commit_def returnA_def dest!: bindA_Inr split: prod.splits)

lemma git_push_ok: "git_push sh args = Some (Inr env) \<Longrightarrow> \<exists>t. env = okText t"
  unfolding git_push_def Let_def
  by (auto simp: returnA_def dest!: bindA_Inr split: prod.splits)

lemma gitHandler_ok:
  assumes "gitHandler E R sh name args = Some (Inr env)"
  shows "\<exists>t. env = okText t"
proof -
  consider "git_status sh args = Some (Inr env)" | "git_log E sh args = Some (Inr env)"
    | "git_diff sh args = Some (Inr env)" | "git_branches sh args = Some (Inr env)"
    | "generate_commit_message sh args = Some (Inr env)" | "git_blame R sh args = Some (Inr env)"
    | "git_search_commits sh args = Some (Inr env)" | "git_stage sh args = Some (Inr env)"
    | "git_commit sh args = Some (Inr env)" | "git_push sh args = Some (Inr env)"
    using assms by (auto simp: gitHandler_def gitCase_def split: if_splits)
  then show ?thesis
    by cases
      (rule git_status_ok git_log_ok git_diff_ok git_branches_ok generate_commit_message_ok
        git_blame_ok git_search_commits_ok git_stage_ok git_commit_ok git_push_ok, assumption)+
qed

lemma docker_ps_ok: "docker_ps sh args = Some (Inr env) \<Longrightarrow> \<exists>t. env = okText t"
  by (auto simp: docker_ps_def returnA_def Let_def dest!: bindA_Inr split: prod.splits)

lemma docker_logs_ok: "docker_logs E sh args = Some (Inr env) \<Longrightarrow> \<exists>t. env = okText t"
  by (auto simp: docker_logs_def returnA_def Let_def dest!: bindA_Inr split: prod.splits)

lemma docker_exec_ok: "docker_exec sh args = Some (Inr env) \<Longrightarrow> \<exists>t. env = okText t"
  by (auto simp: docker_exec_def returnA_def dest!: bindA_Inr split: prod.splits)

lemma docker_compose_ok: "docker_compose sh args = Some (Inr env) \<Longrightarrow> \<exists>t. env = okText t"
  unfolding docker_compose_def Let_def
  by (auto simp: returnA_def dest!: bindA_Inr split: prod.splits)

lemma docker_stats_ok: "docker_stats sh args = Some (Inr env) \<Longrightarrow> \<exists>t. env = okText t"
  by (auto simp: docker_stats_def returnA_def Let_def dest!: bindA_Inr split: prod.splits)

lemma run_command_ok: "run_command sh args = Some (Inr env) \<Longrightarrow> \<exists>t. env = okText t"
  by (auto simp: run_command_def returnA_def Let_def dest!: bindA_Inr split: prod.splits)

lemma check_ports_ok: "check_ports E sh args = Some (Inr env) \<Longrightarrow> \<exists>t. env = okText t"
  by (auto simp: check_ports_def returnA_def dest!: bindA_Inr
      split: prod.splits option.splits sum.splits)

lemma monitor_logs_returns:
  assumes "monitor_logs E fs args = Some (Inr env)"
  shows "(\<exists>t. env = okText t) \<or> (\<exists>m. env = failText (''Error reading log file: '' @ m))"
proof (cases args)
  case None
  then show ?thesis
    using assms by (simp add: monitor_logs_def readArgs_def bindA_def)
next
  case (Some a)
  show ?thesis
  proof (cases "readFile fs (logPath a)")
    case None
    then show ?thesis
      using assms Some by (simp add: monitor_logs_def readArgs_def bindA_def Let_def)
  next
    case outcome: (Some outcome)
    show ?thesis
    proof (cases outcome)
      case (Inl error)
      then have "env = failText (''Error reading log file: '' @ errMsg error)"
        using assms Some outcome
        by (simp add: monitor_logs_def readArgs_def bindA_def returnA_def Let_def)
      then show ?thesis by blast
    next
      case (Inr fileText)
      then have "\<exists>t. env = okText t"
        using assms Some outcome
        by (auto simp: monitor_logs_def readArgs_def bindA_def returnA_def Let_def)
      then show ?thesis by blast
    qed
  qed
qed

lemma npmTry_ok:
  "npmTry E sh fs parse a path = Some (Inr (Some env)) \<Longrightarrow> \<exists>t. env = okText t"
  unfolding npmTry_def Let_def
  by (auto simp: returnA_def dest!: bindA_Inr split: prod.splits if_splits)

lemma npm_scripts_returns:
  assumes "npm_scripts E sh fs parse args = Some (Inr (Some env))"
  shows "(\<exists>t. env = okText t) \<or> (\<exists>m. env = failText (''Error: '' @ m))"
proof -
  obtain a where r: "(case npmTry E sh fs parse a (tpl (projectPath a) @ ''/package.json'') of
             None \<Rightarrow> None
           | Some (Inl error) \<Rightarrow> returnA (Some (failText (''Error: '' @ errMsg error)))
           | Some (Inr r) \<Rightarrow> returnA r) = Some (Inr (Some env))"
    using assms by (auto simp: npm_scripts_def Let_def dest!: bindA_Inr)
  show ?thesis
  proof (cases "npmTry E sh fs parse a (tpl (projectPath a) @ ''/package.json'')")
    case None
    then show ?thesis using r by simp
  next
    case (Some outcome)
    show ?thesis
    proof (cases outcome)
      case (Inl error)
      then have "env = failText (''Error: '' @ errMsg error)"
        using r Some by (simp add: returnA_def)
      then show ?thesis by blast
    next
      case (Inr result)
      then have "npmTry E sh fs parse a (tpl (projectPath a) @ ''/package.json'')
                 = Some (Inr (Some env))"
        using r Some by (simp add: returnA_def)
      then show ?thesis using npmTry_ok by blast
    qed
  qed
qed

lemma returned_Inr: "returned r = Some (Inr (Some env)) \<Longrightarrow> r = Some (Inr env)"
  by (auto simp: returned_def returnA_def dest!: bindA_Inr)

lemma devHandler_Inr:
  "devHandler E sh fs parse name args = Some (Inr env) \<Longrightarrow>
   devCase E sh fs parse name args = Some (Some (Inr (Some env)))"
  by (auto simp: devHandler_def returnA_def dest!: bindA_Inr split: option.splits)

lemma devHandler_returns:
  assumes "devHandler E sh fs parse name args = Some (Inr env)"
  shows "(\<exists>t. env = okText t)
       \<or> (name = ''monitor_logs'' \<and> (\<exists>m. env = failText (''Error reading log file: '' @ m)))
       \<or> (name = ''npm_scripts'' \<and> (\<exists>m. env = failText (''Error: '' @ m)))"
proof -
  have c: "devCase E sh fs parse name args = Some (Some (Inr (Some env)))"
    using assms by (rule devHandler_Inr)
  then consider "docker_ps sh args = Some (Inr env)" | "docker_logs E sh args = Some (Inr env)"
    | "docker_exec sh args = Some (Inr env)" | "docker_compose sh args = Some (Inr env)"
    | "docker_stats sh args = Some (Inr env)" | "run_command sh args = Some (Inr env)"
    | "check_ports E sh args = Some (Inr env)"
    | "name = ''monitor_logs''" "monitor_logs E fs args = Some (Inr env)"
    | "name = ''npm_scripts''" "npm_scripts E sh fs parse args = Some (Inr (Some env))"
    by (auto simp: devCase_def dest!: returned_Inr split: if_splits)
  then show ?thesis
  proof cases
    case 8
    then show ?thesis using monitor_logs_returns by blast
  next
    case 9
    then show ?thesis using npm_scripts_returns by blast
  qed (auto dest: docker_ps_ok docker_logs_ok docker_exec_ok docker_compose_ok docker_stats_ok
        run_command_ok check_ports_ok)
qed

lemma npm_scripts_falls_through:
  assumes "fs (tpl (projectPath d) @ ''/package.json'') = Some (Inr fileText)"
    and "parse fileText = Inr packageJson"
    and "action d \<noteq> Some ''list''" and "action d \<noteq> Some ''run''"
  shows "npm_scripts E sh fs parse (Some d) = Some (Inr None)"
  using assms
  by (simp add: npm_scripts_def npmTry_def readArgs_def readFile_def bindA_def returnA_def)

lemma gitCase_None: "gitCase E R sh name args = None \<longleftrightarrow> name \<notin> set gitTools"
  by (simp add: gitCase_def gitTools_def)

lemma devCase_None: "devCase E sh fs parse name args = None \<longleftrightarrow> name \<notin> set devTools"
  by (simp add: devCase_def devTools_def)
text \<open>
  C1, as stated, fails on the devtools server in three ways. docker_logs with
  \<^verbatim>\<open>follow\<close> runs \<^verbatim>\<open>docker logs -f\<close> with no timeout: while the process stays alive and
  silent the awaited promise stays pending, and the request gets no envelope at all. The
  tool name \<^verbatim>\<open>monitor_logs\<close> matches a case of the switch, and when the log file cannot be
  read the handler does not throw: it catches the error itself and returns an envelope
  with \<^verbatim>\<open>isError: true\<close>, so the result of a matched handler that did not throw is a
  Failure envelope, not an Ok one. And the name \<^verbatim>\<open>npm_scripts\<close> matches a case, but with
  an action that is neither \<^verbatim>\<open>list\<close> nor \<^verbatim>\<open>run\<close> the case ends without a return and
  falls through to the default: the result reports an unknown tool.
\<close>

theorem dispatch_counterexample:
  "devCallTool exampleEngine silent noFiles noJson ''docker_logs''
       (Some (exampleDevArgs\<lparr>container := Some ''web'', follow := Some True\<rparr>))
     = None
   \<and> ''monitor_logs'' \<in> set devTools
   \<and> monitor_logs exampleEngine noFiles (Some exampleDevArgs)
       = Some (Inr (failText ''Error reading log file: ENOENT: no such file or directory''))
   \<and> devCallTool exampleEngine silent noFiles noJson ''monitor_logs'' (Some exampleDevArgs)
       = Some (failText ''Error reading log file: ENOENT: no such file or directory'')
   \<and> ''npm_scripts'' \<in> set devTools
   \<and> devCallTool exampleEngine silent (\<lambda>p. Some (Inr ''{}'')) (\<lambda>t. Inr (JObj []))
         ''npm_scripts'' (Some exampleDevArgs)
       = Some (failText ''Error: Unknown tool: npm_scripts'')"
proof -
  have quiet: "execAsync silent cmd cwd = None" for cmd cwd
    by (simp add: execAsync_def silent_def)
  have one: "devCallTool exampleEngine silent noFiles noJson ''docker_logs''
       (Some (exampleDevArgs\<lparr>container := Some ''web'', follow := Some True\<rparr>))
     = None"
    by (simp add: devCallTool_def devHandler_def devCase_def returned_def docker_logs_def
        readArgs_def bindA_def quiet Let_def)
  have two: "''monitor_logs'' \<in> set devTools" "''npm_scripts'' \<in> set devTools"
    by (simp_all add: devTools_def)
  have three: "monitor_logs exampleEngine noFiles (Some exampleDevArgs)
       = Some (Inr (failText ''Error reading log file: ENOENT: no such file or directory''))"
    by (simp add: monitor_logs_def readArgs_def bindA_def readFile_def noFiles_def
        exampleDevArgs_def returnA_def Let_def)
  have four: "devCallTool exampleEngine silent noFiles noJson ''monitor_logs''
                (Some exampleDevArgs)
       = Some (failText ''Error reading log file: ENOENT: no such file or directory'')"
    by (simp add: devCallTool_def devHandler_def devCase_def returned_def three bindA_def
        returnA_def catchEnvelope_def)
  have "npm_scripts exampleEngine silent (\<lambda>p. Some (Inr ''{}'')) (\<lambda>t. Inr (JObj []))
          (Some exampleDevArgs) = Some (Inr None)"
    by (rule npm_scripts_falls_through) (simp_all add: exampleDevArgs_def)
  then have five: "devCallTool exampleEngine silent (\<lambda>p. Some (Inr ''{}'')) (\<lambda>t. Inr (JObj []))
         ''npm_scripts'' (Some exampleDevArgs)
       = Some (failText ''Error: Unknown tool: npm_scripts'')"
    by (simp add: devCallTool_def devHandler_def devCase_def bindA_def catchEnvelope_def)
  show ?thesis
    using one two three four five by blast
qed

text \<open>
  C1, amended. Take a request delivered to the dispatch handler of git-server.js or of the
  devtools server, with arguments of the declared types. If every process that the
  runner starts ends or overflows its buffer, and every file read settles, the request
  gets exactly one result envelope and no exception leaves the handler; a handler that
  waits for a process that stays alive gives none. If the tool name matches no case of
  the switch, the result is a Failure envelope whose single text block reports the
  unknown tool. If the handler throws, the result is a Failure envelope with the
  error's message. If the handler returns an envelope, the result is that envelope,
  unchanged: in git-server.js it is always an Ok envelope; in the devtools server it is
  an Ok envelope or a Failure envelope that monitor_logs or npm_scripts built from an
  error it caught itself. And when the npm_scripts case reads and parses package.json for
  an action that is neither \<^verbatim>\<open>list\<close> nor \<^verbatim>\<open>run\<close>, the result is the Failure envelope
  of the default case, reporting npm_scripts as an unknown tool.
\<close>

theorem dispatch_envelope:
  "((\<forall>cmd cwd. execAsync sh cmd cwd \<noteq> None) \<longrightarrow>
      (\<exists>env. gitCallTool E R sh name args = Some env))
   \<and> ((\<forall>cmd cwd. execAsync sh cmd cwd \<noteq> None) \<and> (\<forall>p. fs p \<noteq> None) \<longrightarrow>
        (\<exists>env. devCallTool E sh fs parse name dargs = Some env))
   \<and> (name \<notin> set gitTools \<longrightarrow>
        gitCallTool E R sh name args = Some (failText (''Error: Unknown tool: '' @ name)))
   \<and> (name \<notin> set devTools \<longrightarrow>
        devCallTool E sh fs parse name dargs
        = Some (failText (''Error: Unknown tool: '' @ name)))
   \<and> (\<forall>e. gitHandler E R sh name args = Some (Inl e) \<longrightarrow>
        gitCallTool E R sh name args = Some (failText (''Error: '' @ errMsg e)))
   \<and> (\<forall>e. devHandler E sh fs parse name dargs = Some (Inl e) \<longrightarrow>
        devCallTool E sh fs parse name dargs = Some (failText (''Error: '' @ errMsg e)))
   \<and> (\<forall>env. gitHandler E R sh name args = Some (Inr env) \<longrightarrow>
        gitCallTool E R sh name args = Some env \<and> (\<exists>t. env = okText t))
   \<and> (\<forall>env. devHandler E sh fs parse name dargs = Some (Inr env) \<longrightarrow>
        devCallTool E sh fs parse name dargs = Some env
        \<and> ((\<exists>t. env = okText t)
           \<or> (name = ''monitor_logs''
               \<and> (\<exists>m. env = failText (''Error reading log file: '' @ m)))
           \<or> (name = ''npm_scripts'' \<and> (\<exists>m. env = failText (''Error: '' @ m)))))
   \<and> (gitCallTool E R sh name args = None \<longleftrightarrow> gitHandler E R sh name args = None)
   \<and> (devCallTool E sh fs parse name dargs = None
        \<longleftrightarrow> devHandler E sh fs parse name dargs = None)
   \<and> (dargs = Some d \<and> fs (tpl (projectPath d) @ ''/package.json'') = Some (Inr fileText)
        \<and> parse fileText = Inr packageJson
        \<and> action d \<noteq> Some ''list'' \<and> action d \<noteq> Some ''run'' \<longrightarrow>
        devCallTool E sh fs parse ''npm_scripts'' dargs
        = Some (failText ''Error: Unknown tool: npm_scripts''))"
proof (intro conjI allI impI)
  assume "\<forall>cmd cwd. execAsync sh cmd cwd \<noteq> None"
  then have "gitHandler E R sh name args \<noteq> None"
    using gitHandler_settles[of sh E R name args] by blast
  then show "\<exists>env. gitCallTool E R sh name args = Some env"
    by (auto simp: gitCallTool_def)
next
  assume a: "(\<forall>cmd cwd. execAsync sh cmd cwd \<noteq> None) \<and> (\<forall>p. fs p \<noteq> None)"
  have "devHandler E sh fs parse name dargs \<noteq> None"
    by (rule devHandler_settles[where sh = sh and fs = fs]) (simp_all add: a)
  then show "\<exists>env. devCallTool E sh fs parse name dargs = Some env"
    by (auto simp: devCallTool_def)
next
  assume "name \<notin> set gitTools"
  then have "gitCase E R sh name args = None"
    by (simp add: gitCase_None)
  then show "gitCallTool E R sh name args = Some (failText (''Error: Unknown tool: '' @ name))"
    by (simp add: gitCallTool_def gitHandler_def catchEnvelope_def)
next
  assume "name \<notin> set devTools"
  then have "devCase E sh fs parse name dargs = None"
    by (simp add: devCase_None)
  then show "devCallTool E sh fs parse name dargs
             = Some (failText (''Error: Unknown tool: '' @ name))"
    by (simp add: devCallTool_def devHandler_def catchEnvelope_def)
next
  fix e
  assume "gitHandler E R sh name args = Some (Inl e)"
  then show "gitCallTool E R sh name args = Some (failText (''Error: '' @ errMsg e))"
    by (simp add: gitCallTool_def catchEnvelope_def)
next
  fix e
  assume "devHandler E sh fs parse name dargs = Some (Inl e)"
  then show "devCallTool E sh fs parse name dargs = Some (failText (''Error: '' @ errMsg e))"
    by (simp add: devCallTool_def catchEnvelope_def)
next
  fix env
  assume "gitHandler E R sh name args = Some (Inr env)"
  then show "gitCallTool E R sh name args = Some env"
    by (simp add: gitCallTool_def catchEnvelope_def)
next
  fix env
  assume "gitHandler E R sh name args = Some (Inr env)"
  then show "\<exists>t. env = okText t"
    by (rule gitHandler_ok)
next
  fix env
  assume "devHandler E sh fs parse name dargs = Some (Inr env)"
  then show "devCallTool E sh fs parse name dargs = Some env"
    by (simp add: devCallTool_def catchEnvelope_def)
next
  fix env
  assume "devHandler E sh fs parse name dargs = Some (Inr env)"
  then show "(\<exists>t. env = okText t)
           \<or> (name = ''monitor_logs''
               \<and> (\<exists>m. env = failText (''Error reading log file: '' @ m)))
           \<or> (name = ''npm_scripts'' \<and> (\<exists>m. env = failText (''Error: '' @ m)))"
    by (rule devHandler_returns)
next
  show "gitCallTool E R sh name args = None \<longleftrightarrow> gitHandler E R sh name args = None"
    by (simp add: gitCallTool_def)
next
  show "devCallTool E sh fs parse name dargs = None
        \<longleftrightarrow> devHandler E sh fs parse name dargs = None"
    by (simp add: devCallTool_def)
next
  assume a: "dargs = Some d \<and> fs (tpl (projectPath d) @ ''/package.json'') = Some (Inr fileText)
        \<and> parse fileText = Inr packageJson
        \<and> action d \<noteq> Some ''list'' \<and> action d \<noteq> Some ''run''"
  then have "npm_scripts E sh fs parse (Some d) = Some (Inr None)"
    using npm_scripts_falls_through[of fs d fileText parse packageJson E sh] by simp
  then show "devCallTool E sh fs parse ''npm_scripts'' dargs
        = Some (failText ''Error: Unknown tool: npm_scripts'')"
    using a by (simp add: devCallTool_def devHandler_def devCase_def bindA_def catchEnvelope_def)
qed
theorem dispatch_envelope_witness:
  "''no_such_tool'' \<notin> set gitTools
   \<and> gitCallTool exampleEngine exampleRuntime (endingWith 0) ''no_such_tool'' None
       = Some (failText ''Error: Unknown tool: no_such_tool'')
   \<and> gitHandler exampleEngine exampleRuntime (endingWith 0) ''git_status'' None
       = Some (Inl (cannotRead ''undefined'' ''repoPath''))
   \<and> gitCallTool exampleEngine exampleRuntime (endingWith 0) ''git_status'' None
       = Some (failText (''Error: '' @ errMsg (cannotRead ''undefined'' ''repoPath'')))
   \<and> gitHandler exampleEngine exampleRuntime (endingWith 0) ''git_branches''
         (Some exampleGitArgs)
       = Some (Inr (okText (''Branches:'' @ [nl] @ ''built'')))
   \<and> gitCallTool exampleEngine exampleRuntime (endingWith 0) ''git_branches''
         (Some exampleGitArgs)
       = Some (okText (''Branches:'' @ [nl] @ ''built''))
   \<and> (\<exists>env. devCallTool exampleEngine (endingWith 0) noFiles noJson ''docker_ps''
                (Some exampleDevArgs) = Some env)
   \<and> devCallTool exampleEngine (endingWith 0) (\<lambda>p. Some (Inr ''{}'')) (\<lambda>t. Inr (JObj []))
         ''npm_scripts'' (Some exampleDevArgs)
       = Some (failText ''Error: Unknown tool: npm_scripts'')"
proof -
  have run: "execAsync (endingWith 0) cmd cwd = Some (Inr (''built'', ''advisory''))" for cmd cwd
    by (simp add: execAsync_def endingWith_def byteLength_def maxBuffer_def)
  have ends: "\<forall>cmd cwd. execAsync (endingWith 0) cmd cwd \<noteq> None"
    by (simp add: run)
  have reads: "\<forall>p. noFiles p \<noteq> None"
    by (simp add: noFiles_def)
  have a: "''no_such_tool'' \<notin> set gitTools"
    by (simp add: gitTools_def)
  have b: "gitHandler exampleEngine exampleRuntime (endingWith 0) ''git_status'' None
           = Some (Inl (cannotRead ''undefined'' ''repoPath''))"
    by (simp add: gitHandler_def gitCase_def git_status_def readArgs_def bindA_def)
  have c: "gitHandler exampleEngine exampleRuntime (endingWith 0) ''git_branches''
             (Some exampleGitArgs)
           = Some (Inr (okText (''Branches:'' @ [nl] @ ''built'')))"
    by (simp add: gitHandler_def gitCase_def git_branches_def readArgs_def bindA_def run
        returnA_def Let_def)
  have d: "exampleDevArgs = exampleDevArgs
         \<and> (\<lambda>p. Some (Inr ''{}'')) (tpl (projectPath exampleDevArgs) @ ''/package.json'')
           = Some (Inr ''{}'')
         \<and> (\<lambda>t. Inr (JObj [])) ''{}'' = Inr (JObj [])
         \<and> action exampleDevArgs \<noteq> Some ''list'' \<and> action exampleDevArgs \<noteq> Some ''run''"
    by (simp add: exampleDevArgs_def)
  show ?thesis
    using a b c d ends reads
      dispatch_envelope[where E = exampleEngine and R = exampleRuntime and sh = "endingWith 0"
        and name = "''no_such_tool''" and args = None]
      dispatch_envelope[where E = exampleEngine and R = exampleRuntime and sh = "endingWith 0"
        and name = "''git_status''" and args = None]
      dispatch_envelope[where E = exampleEngine and R = exampleRuntime and sh = "endingWith 0"
        and name = "''git_branches''" and args = "Some exampleGitArgs"]
      dispatch_envelope[where E = exampleEngine and sh = "endingWith 0" and fs = noFiles
        and parse = noJson and name = "''docker_ps''" and dargs = "Some exampleDevArgs"]
      dispatch_envelope[where E = exampleEngine and sh = "endingWith 0"
        and fs = "\<lambda>p. Some (Inr ''{}'')" and parse = "\<lambda>t. Inr (JObj [])"
        and dargs = "Some exampleDevArgs" and d = exampleDevArgs and fileText = "''{}''"
        and packageJson = "JObj []"]
    by simp
qed

end
